(* ===== verification/Ndp_Prelude.thy ===== *)
theory Ndp_Prelude
  imports Main "HOL-Library.Word" "HOL-Library.Monad_Syntax"
begin

text \<open>
  Shared vocabulary of the development: the machine types of the 32-bit OS/2 target, the
  reading of C strings, arrays and signed characters, undefined behaviour as the value
  \<^term>\<open>None\<close> of an option, the names of the OS/2 return codes, and the generic lemmas
  on lists and options that the component theories share.
\<close>

unbundle bit_operations_syntax

named_theorems mem_simps \<open>stepping through the option-valued memory operations\<close>
named_theorems frame_simps \<open>what an operation leaves unchanged\<close>

subsection \<open>Machine types\<close>

type_synonym u8 = "8 word"
type_synonym u16 = "16 word"
type_synonym u32 = "32 word"
type_synonym u64 = "64 word"

text \<open>A pointer is an address or NULL.\<close>

type_synonym ptr = "nat option"

text \<open>
  A plain \<open>char\<close> of the gcc/OS2 target is signed. \<open>schar c\<close> is the \<open>char\<close> converted to
  \<open>unsigned long\<close>: bytes from 0x80 on are sign extended.
\<close>

definition byte_of :: "char \<Rightarrow> u8" where
  "byte_of c = of_char c"

definition char_of_byte :: "u8 \<Rightarrow> char" where
  "char_of_byte b = char_of (unat b)"

definition schar :: "char \<Rightarrow> u32" where
  "schar c = scast (byte_of c)"

lemma char_of_byte_byte_of [simp]: "char_of_byte (byte_of c) = c"
proof -
  have "(of_char c :: nat) < 2 ^ LENGTH(8)"
    by simp
  then have "unat (of_char c :: u8) = (of_char c :: nat)"
    by (metis of_nat_of_char of_nat_inverse)
  then show ?thesis by (simp add: char_of_byte_def byte_of_def)
qed

lemma byte_of_inject [simp]: "byte_of a = byte_of b \<longleftrightarrow> a = b"
  by (metis char_of_byte_byte_of)

text \<open>The division of C rounds towards zero.\<close>

definition cdiv :: "int \<Rightarrow> int \<Rightarrow> int" where
  "cdiv a b = sgn a * sgn b * (\<bar>a\<bar> div \<bar>b\<bar>)"

lemma cdiv_nonneg [simp]: "0 \<le> a \<Longrightarrow> cdiv a 2 = a div 2"
  by (cases "a = 0") (auto simp: cdiv_def)

subsection \<open>C strings\<close>

text \<open>
  A C string is the list of its characters before the terminating NUL. \<open>cstr\<close> says that a
  list of characters can be one; \<open>cstring_of\<close> reads a buffer up to its first NUL.
\<close>

abbreviation NUL :: char where
  "NUL \<equiv> CHR 0x00"

definition cstr :: "string \<Rightarrow> bool" where
  "cstr s \<longleftrightarrow> NUL \<notin> set s"

definition cstring_of :: "string \<Rightarrow> string" where
  "cstring_of b = takeWhile (\<lambda>c. c \<noteq> NUL) b"

lemma cstring_of_cstr [simp]: "cstr s \<Longrightarrow> cstring_of s = s"
  by (auto simp: cstr_def cstring_of_def takeWhile_eq_all_conv)

lemma cstr_cstring_of [simp]: "cstr (cstring_of b)"
  by (auto simp: cstr_def cstring_of_def dest: set_takeWhileD)

lemma cstr_simps [simp]: "cstr []" "cstr (c # s) \<longleftrightarrow> c \<noteq> NUL \<and> cstr s"
  "cstr (s @ t) \<longleftrightarrow> cstr s \<and> cstr t"
  by (auto simp: cstr_def)

lemma cstr_take: "cstr s \<Longrightarrow> cstr (take n s)"
  by (auto simp: cstr_def dest: in_set_takeD)

lemma cstr_drop: "cstr s \<Longrightarrow> cstr (drop n s)"
  by (auto simp: cstr_def dest: in_set_dropD)

text \<open>
  \<open>strncpy (dst, src, n)\<close> into a zeroed or terminated buffer of \<open>n + 1\<close> bytes leaves the
  first \<open>n\<close> characters of the source.
\<close>

definition strncpy_z :: "nat \<Rightarrow> string \<Rightarrow> string" where
  "strncpy_z n src = take n src"

lemma length_strncpy_z: "length (strncpy_z n s) \<le> n"
  by (simp add: strncpy_z_def)

lemma strncpy_z_short [simp]: "length s \<le> n \<Longrightarrow> strncpy_z n s = s"
  by (simp add: strncpy_z_def)

abbreviation backslash :: char where
  "backslash \<equiv> CHR 0x5C"

subsection \<open>Undefined behaviour\<close>

text \<open>
  The result of an operation that may dereference NULL or freed memory, run over a buffer or
  not return is an option: \<^term>\<open>None\<close> is undefined behaviour. A theorem that an operation
  is safe says that its result is \<^term>\<open>Some\<close>.
\<close>

definition require :: "bool \<Rightarrow> unit option" where
  "require b = (if b then Some () else None)"

lemma require_simps [simp]: "require True = Some ()" "require False = None"
  by (simp_all add: require_def)

lemma require_Some_iff [simp]: "require b = Some u \<longleftrightarrow> b"
  by (simp add: require_def)

lemmas bind_Some_iff = Option.bind_eq_Some_conv

lemma bindE: "x \<bind> f = Some y \<Longrightarrow> (\<And>a. x = Some a \<Longrightarrow> f a = Some y \<Longrightarrow> thesis) \<Longrightarrow> thesis"
  by (auto simp: bind_Some_iff)

subsection \<open>Lists\<close>

lemma those_map_Some [simp]: "those (map Some xs) = Some xs"
  by (induction xs) auto

lemma those_Some_iff: "those xs = Some ys \<longleftrightarrow> xs = map Some ys"
  by (induction xs arbitrary: ys) (auto split: option.splits simp: Cons_eq_map_conv)

lemma take_map_Some_append [simp]:
  "take (length xs) (map Some xs @ ys) = map Some xs"
  by simp

lemma find_filter: "List.find P xs = (case filter P xs of [] \<Rightarrow> None | y # _ \<Rightarrow> Some y)"
  by (induction xs) auto

lemma find_split:
  assumes "List.find P xs = Some x"
  obtains ls rs where "xs = ls @ x # rs" "P x" "\<forall>y \<in> set ls. \<not> P y"
  using assms
proof (induction xs arbitrary: thesis)
  case (Cons a xs)
  show ?case
  proof (cases "P a")
    case True
    with Cons.prems show ?thesis by (metis append_Nil empty_iff empty_set find.simps(2) option.inject)
  next
    case False
    with Cons.prems(2) have "List.find P xs = Some x" by simp
    from Cons.IH [OF _ this] False obtain ls rs
      where "xs = ls @ x # rs" "P x" "\<forall>y \<in> set ls. \<not> P y" by blast
    with False Cons.prems(1) [of "a # ls" rs] show ?thesis by auto
  qed
qed simp

subsection \<open>Codecs\<close>

text \<open>
  The interface of an encoding with a partial decoder: what is encoded can be read back. Its
  clients need no more than the round trip.
\<close>

locale codec =
  fixes enc :: "'a \<Rightarrow> 'b" and dec :: "'b \<Rightarrow> 'a option" and valid :: "'a \<Rightarrow> bool"
  assumes dec_enc: "valid x \<Longrightarrow> dec (enc x) = Some x"
begin

lemma enc_inject: "valid x \<Longrightarrow> valid y \<Longrightarrow> enc x = enc y \<longleftrightarrow> x = y"
  by (metis dec_enc option.inject)

lemma enc_decodable: "valid x \<Longrightarrow> dec (enc x) \<noteq> None"
  by (simp add: dec_enc)

lemma enc_inj_on: "inj_on enc {x. valid x}"
  by (auto intro: inj_onI simp: enc_inject)

end

subsection \<open>OS/2 return codes\<close>

text \<open>
  The names of the OS/2 error codes the program returns or compares. Their numbers come from the
  toolkit header \<open>bseerr.h\<close>, which is not part of the repository, so every definition that uses
  a code takes the numbering \<open>code\<close> as a parameter. The only documented fact most proofs need
  is \<open>os2_codes\<close>: \<open>NO_ERROR\<close> is zero and no other code is.
\<close>

datatype (plugins only: code size) os2err =
    NO_ERROR | ERROR_INVALID_FUNCTION | ERROR_FILE_NOT_FOUND | ERROR_PATH_NOT_FOUND
  | ERROR_TOO_MANY_OPEN_FILES | ERROR_ACCESS_DENIED | ERROR_INVALID_HANDLE
  | ERROR_NOT_ENOUGH_MEMORY | ERROR_INVALID_BLOCK | ERROR_BAD_FORMAT | ERROR_INVALID_DATA
  | ERROR_NOT_SAME_DEVICE | ERROR_WRITE_PROTECT | ERROR_BAD_UNIT | ERROR_SEEK
  | ERROR_READ_FAULT | ERROR_LOCK_VIOLATION | ERROR_NOT_SUPPORTED | ERROR_REM_NOT_LIST
  | ERROR_BAD_NETPATH | ERROR_NETWORK_BUSY | ERROR_BAD_NET_RESP | ERROR_UNEXP_NET_ERR
  | ERROR_NETWORK_ACCESS_DENIED | ERROR_BAD_DEV_TYPE | ERROR_BAD_NET_NAME | ERROR_FILE_EXISTS
  | ERROR_INVALID_PARAMETER | ERROR_INTERRUPT | ERROR_BROKEN_PIPE | ERROR_BUFFER_OVERFLOW
  | ERROR_DISK_FULL | ERROR_INVALID_LEVEL | ERROR_MOD_NOT_FOUND | ERROR_BUSY_DRIVE
  | ERROR_DIR_NOT_EMPTY | ERROR_NOT_LOCKED | ERROR_BUSY | ERROR_BAD_EXE_FORMAT
  | ERROR_NO_CHILD_PROCESS | ERROR_FILENAME_EXCED_RANGE | ERROR_PIPE_BUSY | ERROR_CANNOT_COPY
  | ERROR_DIRECTORY | ERROR_EAS_NOT_SUPPORTED | ERROR_INIT_ROUTINE_FAILED | ERROR_PID_MISMATCH
  | ERROR_INVALID_ADDRESS | ERROR_TOO_MANY_OPENS | ERROR_TRANSFER_TOO_LONG
  | ERROR_KBD_FOCUS_REQUIRED | ERROR_INFO_NOT_AVAIL | ERROR_ALREADY_SHUTDOWN | ERROR_TIMEOUT

type_synonym err_code = "os2err \<Rightarrow> int"

definition os2_codes :: "err_code \<Rightarrow> bool" where
  "os2_codes code \<longleftrightarrow> (\<forall>e. code e = 0 \<longleftrightarrow> e = NO_ERROR)"

lemma os2_codes_zero [simp]: "os2_codes code \<Longrightarrow> code e = 0 \<longleftrightarrow> e = NO_ERROR"
  by (simp add: os2_codes_def)

end
