(* ===== verification/Util.thy ===== *)
theory Util
  imports Ndp_Prelude
begin

text \<open>
  \<open>util.c\<close>: the translation of \<open>errno\<close> values to OS/2 codes and the search for the last
  path separator. The numbering of the OS/2 codes is the parameter \<open>code\<close>.
\<close>

subsection \<open>maperror\<close>

text \<open>The cases of the \<open>switch\<close>, in the order of the source.\<close>

definition maperror_table :: "(int \<times> os2err) list" where
  "maperror_table =
    [(0, NO_ERROR), (1, ERROR_ACCESS_DENIED), (2, ERROR_FILE_NOT_FOUND), (3, ERROR_PID_MISMATCH),
     (4, ERROR_INTERRUPT), (5, ERROR_READ_FAULT), (6, ERROR_BAD_UNIT), (7, ERROR_INVALID_DATA),
     (8, ERROR_BAD_EXE_FORMAT), (9, ERROR_INVALID_HANDLE), (10, ERROR_NO_CHILD_PROCESS),
     (11, ERROR_BUSY), (12, ERROR_NOT_ENOUGH_MEMORY), (13, ERROR_ACCESS_DENIED),
     (14, ERROR_INVALID_ADDRESS), (15, ERROR_NOT_LOCKED), (16, ERROR_BUSY),
     (17, ERROR_FILE_EXISTS), (18, ERROR_NOT_SAME_DEVICE), (19, ERROR_REM_NOT_LIST),
     (20, ERROR_PATH_NOT_FOUND), (21, ERROR_DIRECTORY), (22, ERROR_INVALID_PARAMETER),
     (23, ERROR_TOO_MANY_OPEN_FILES), (24, ERROR_TOO_MANY_OPENS), (25, ERROR_MOD_NOT_FOUND),
     (26, ERROR_LOCK_VIOLATION), (27, ERROR_TRANSFER_TOO_LONG), (28, ERROR_DISK_FULL),
     (29, ERROR_SEEK), (30, ERROR_WRITE_PROTECT), (31, ERROR_TOO_MANY_OPEN_FILES),
     (32, ERROR_BROKEN_PIPE), (33, ERROR_INVALID_LEVEL), (34, ERROR_FILENAME_EXCED_RANGE),
     (35, ERROR_DIR_NOT_EMPTY), (36, ERROR_BUSY_DRIVE), (37, ERROR_INVALID_FUNCTION),
     (38, ERROR_FILENAME_EXCED_RANGE), (39, ERROR_KBD_FOCUS_REQUIRED),
     (40, ERROR_TRANSFER_TOO_LONG), (48, ERROR_NETWORK_BUSY), (49, ERROR_INFO_NOT_AVAIL),
     (50, ERROR_NETWORK_ACCESS_DENIED), (51, ERROR_NETWORK_ACCESS_DENIED),
     (52, ERROR_NETWORK_ACCESS_DENIED), (53, ERROR_NETWORK_ACCESS_DENIED),
     (54, ERROR_NETWORK_ACCESS_DENIED), (55, ERROR_BUFFER_OVERFLOW), (56, ERROR_PIPE_BUSY),
     (57, ERROR_REM_NOT_LIST), (58, ERROR_ALREADY_SHUTDOWN), (60, ERROR_TIMEOUT),
     (61, ERROR_NETWORK_ACCESS_DENIED), (63, ERROR_INVALID_BLOCK), (64, ERROR_BAD_FORMAT),
     (65, ERROR_BAD_NETPATH), (66, ERROR_BUSY_DRIVE)]"

definition maperror :: "err_code \<Rightarrow> int \<Rightarrow> int" where
  "maperror code rc =
     (case map_of maperror_table rc of Some e \<Rightarrow> code e | None \<Rightarrow> rc + 40000)"

text \<open>The two \<open>errno\<close> values the program names; their numbers are in the comments of the table.\<close>

definition EINVAL :: int where "EINVAL = 22"
definition ENOTDIR :: int where "ENOTDIR = 20"

lemma maperror_EINVAL [simp]: "maperror code EINVAL = code ERROR_INVALID_PARAMETER"
  by (simp add: maperror_def maperror_table_def EINVAL_def)

lemma maperror_ENOTDIR [simp]: "maperror code ENOTDIR = code ERROR_PATH_NOT_FOUND"
  by (simp add: maperror_def maperror_table_def ENOTDIR_def)

lemma maperror_table_dom: "map_of maperror_table rc = Some e \<Longrightarrow> 0 \<le> rc \<and> rc \<le> 66"
  by (auto simp: maperror_table_def split: if_splits)

lemma maperror_table_NO_ERROR: "map_of maperror_table rc = Some NO_ERROR \<longleftrightarrow> rc = 0"
  by (simp add: maperror_table_def)

text \<open>
  Success is reported for \<open>errno\<close> 0 and for no other value the C library can return: an unlisted
  value is shifted by 40000 and would have to be \<open>-40000\<close>.
\<close>

lemma maperror_zero_iff:
  "os2_codes code \<Longrightarrow> maperror code rc = 0 \<longleftrightarrow> rc = 0 \<or> rc = -40000"
  using maperror_table_NO_ERROR [of rc] maperror_table_dom [of rc]
  by (force simp: maperror_def os2_codes_def split: option.splits)

lemma maperror_unlisted:
  "rc < 0 \<or> 66 < rc \<or> rc \<in> {41..47} \<union> {59, 62} \<Longrightarrow> maperror code rc = rc + 40000"
  by (auto simp: maperror_def maperror_table_def split: option.splits)

subsection \<open>getlastslash\<close>

text \<open>
  The pointer walks down from the last character; the result is its offset in the string, or
  \<^term>\<open>None\<close> for NULL. The second argument counts the characters not yet looked at.
\<close>

definition is_slash :: "char \<Rightarrow> bool" where
  "is_slash c \<longleftrightarrow> c = backslash \<or> c = CHR ''/''"

fun getlastslash_loop :: "string \<Rightarrow> nat \<Rightarrow> nat option" where
  "getlastslash_loop path 0 = None"
| "getlastslash_loop path (Suc p) =
     (if is_slash (path ! p) then Some p else getlastslash_loop path p)"

definition getlastslash :: "string option \<Rightarrow> nat option" where
  "getlastslash path = (case path of None \<Rightarrow> None | Some s \<Rightarrow> getlastslash_loop s (length s))"

lemma getlastslash_loop_Some:
  "getlastslash_loop s n = Some i \<Longrightarrow>
     i < n \<and> is_slash (s ! i) \<and> (\<forall>j. i < j \<and> j < n \<longrightarrow> \<not> is_slash (s ! j))"
  by (induction n) (auto split: if_splits simp: less_Suc_eq)

lemma getlastslash_loop_None:
  "getlastslash_loop s n = None \<longleftrightarrow> (\<forall>j < n. \<not> is_slash (s ! j))"
  by (induction n) (auto simp: less_Suc_eq)

lemma getlastslash_NULL [simp]: "getlastslash None = None"
  by (simp add: getlastslash_def)

lemma getlastslash_Some:
  "getlastslash (Some s) = Some i \<Longrightarrow>
     i < length s \<and> is_slash (s ! i) \<and> (\<forall>j. i < j \<and> j < length s \<longrightarrow> \<not> is_slash (s ! j))"
  using getlastslash_loop_Some by (simp add: getlastslash_def)

lemma getlastslash_None: "getlastslash (Some s) = None \<longleftrightarrow> (\<forall>c \<in> set s. \<not> is_slash c)"
  by (simp add: getlastslash_def getlastslash_loop_None all_set_conv_all_nth)

text \<open>
  The reference reading: the string splits at the offset found into a directory part, a
  separator and a name without separators, and no other split does that.
\<close>

lemma getlastslash_split:
  "getlastslash (Some (d @ c # n)) = Some (length d)" if "is_slash c" "\<forall>x \<in> set n. \<not> is_slash x"
proof (cases "getlastslash (Some (d @ c # n))")
  case None
  then show ?thesis using that by (simp add: getlastslash_None)
next
  case (Some i)
  note G = getlastslash_Some [OF Some]
  have "\<not> i < length d" using G that(1) by (auto dest!: spec [of _ "length d"] simp: nth_append)
  moreover have "\<not> length d < i"
  proof
    assume "length d < i"
    then have "(d @ c # n) ! i \<in> set n" using G
      by (auto simp: nth_append nth_Cons' intro!: nth_mem)
    with that(2) G show False by blast
  qed
  ultimately show ?thesis using Some by simp
qed

end
