(* ===== verification/Helpers.thy ===== *)
theory Helpers
  imports Ndp_Prelude
begin

text \<open>
  The services of the NetDrive control program the plugin calls through the table
  \<open>PLUGINHELPERTABLE2L\<close> (\<open>ndextpl2.h\<close>). NetDrive is not part of the repository: the table is a
  record of parameters, and what a theorem needs of a service is a named hypothesis stating its
  documented behaviour. A position in a string stands for the pointer the service returns.
\<close>

record helpers =
  err :: err_code
  fsphStrICmp :: "string \<Rightarrow> string \<Rightarrow> int"
  fsphStrNICmp :: "string \<Rightarrow> string \<Rightarrow> nat \<Rightarrow> int"
  fsphStrNCmp :: "string \<Rightarrow> string \<Rightarrow> nat \<Rightarrow> int"
  fsphStrChr :: "string \<Rightarrow> char \<Rightarrow> nat option"
  fsphStrRChr :: "string \<Rightarrow> char \<Rightarrow> nat option"
  fsphWildMatch :: "string \<Rightarrow> string \<Rightarrow> int"
  fsphAttrMatch :: "u32 \<Rightarrow> u32 \<Rightarrow> int"
  fsphCreateMutex :: int
  fsphRequestMutex :: "u32 \<Rightarrow> nat \<Rightarrow> int"

subsection \<open>Documented behaviour\<close>

text \<open>
  The case-insensitive comparison is reflexive; where a theorem follows a path through several
  comparisons, it is an equivalence.
\<close>

definition icmp_refl :: "'a helpers_scheme \<Rightarrow> bool" where
  "icmp_refl E \<longleftrightarrow> (\<forall>s. fsphStrICmp E s s = 0)"

definition icmp_equiv :: "'a helpers_scheme \<Rightarrow> bool" where
  "icmp_equiv E \<longleftrightarrow> icmp_refl E \<and>
     (\<forall>s t. fsphStrICmp E s t = 0 \<longrightarrow> fsphStrICmp E t s = 0) \<and>
     (\<forall>s t u. fsphStrICmp E s t = 0 \<longrightarrow> fsphStrICmp E t u = 0 \<longrightarrow> fsphStrICmp E s u = 0)"

text \<open>The searches return a position of the character, the last one for \<open>fsphStrRChr\<close>.\<close>

definition strrchr_ok :: "'a helpers_scheme \<Rightarrow> bool" where
  "strrchr_ok E \<longleftrightarrow>
     (\<forall>d c n. c \<notin> set n \<longrightarrow> fsphStrRChr E (d @ c # n) c = Some (length d)) \<and>
     (\<forall>s c. c \<notin> set s \<longrightarrow> fsphStrRChr E s c = None)"

definition strchr_ok :: "'a helpers_scheme \<Rightarrow> bool" where
  "strchr_ok E \<longleftrightarrow>
     (\<forall>d c n. c \<notin> set d \<longrightarrow> fsphStrChr E (d @ c # n) c = Some (length d)) \<and>
     (\<forall>s c. c \<notin> set s \<longrightarrow> fsphStrChr E s c = None)"

lemma icmp_refl_simp [simp]: "icmp_refl E \<Longrightarrow> fsphStrICmp E s s = 0"
  by (simp add: icmp_refl_def)

lemma icmp_equiv_refl [simp]: "icmp_equiv E \<Longrightarrow> icmp_refl E"
  by (simp add: icmp_equiv_def)

lemma icmp_equiv_sym: "icmp_equiv E \<Longrightarrow> fsphStrICmp E s t = 0 \<longleftrightarrow> fsphStrICmp E t s = 0"
  unfolding icmp_equiv_def by metis

lemma icmp_equiv_trans:
  "icmp_equiv E \<Longrightarrow> fsphStrICmp E s t = 0 \<Longrightarrow> fsphStrICmp E t u = 0 \<Longrightarrow> fsphStrICmp E s u = 0"
  unfolding icmp_equiv_def by metis

lemma strrchr_split:
  "strrchr_ok E \<Longrightarrow> c \<notin> set n \<Longrightarrow> fsphStrRChr E (d @ c # n) c = Some (length d)"
  by (simp add: strrchr_ok_def)

lemma strrchr_none: "strrchr_ok E \<Longrightarrow> c \<notin> set s \<Longrightarrow> fsphStrRChr E s c = None"
  by (simp add: strrchr_ok_def)

lemma strchr_split:
  "strchr_ok E \<Longrightarrow> c \<notin> set d \<Longrightarrow> fsphStrChr E (d @ c # n) c = Some (length d)"
  by (simp add: strchr_ok_def)

lemma strchr_none: "strchr_ok E \<Longrightarrow> c \<notin> set s \<Longrightarrow> fsphStrChr E s c = None"
  by (simp add: strchr_ok_def)

lemma strchr_cases:
  assumes "strchr_ok E"
  obtains (none) "c \<notin> set s" "fsphStrChr E s c = None"
  | (some) d n where "s = d @ c # n" "c \<notin> set d" "fsphStrChr E s c = Some (length d)"
proof (cases "c \<in> set s")
  case True
  then obtain d n where "s = d @ c # n" "c \<notin> set d" by (blast dest: split_list_first)
  then show ?thesis using assms by (simp add: strchr_split that(2))
next
  case False
  with assms show ?thesis by (simp add: strchr_none that(1))
qed

lemma strrchr_cases:
  assumes "strrchr_ok E"
  obtains (none) "c \<notin> set s" "fsphStrRChr E s c = None"
  | (some) d n where "s = d @ c # n" "c \<notin> set n" "fsphStrRChr E s c = Some (length d)"
proof (cases "c \<in> set s")
  case True
  then obtain d n where "s = d @ c # n" "c \<notin> set n" by (blast dest: split_list_last)
  then show ?thesis using assms by (simp add: strrchr_split that(2))
next
  case False
  with assms show ?thesis by (simp add: strrchr_none that(1))
qed

subsection \<open>An instance of the services\<close>

text \<open>
  A table for a single-byte code page with ASCII case folding; the concrete examples of the
  development are evaluated with it. The numbers are those the OS/2 documentation gives for the
  codes that the program compares, and distinct positive numbers for the others.
\<close>

definition ascii_upper :: "char \<Rightarrow> char" where
  "ascii_upper c =
     (if byte_of CHR ''a'' \<le> byte_of c \<and> byte_of c \<le> byte_of CHR ''z''
      then char_of_byte (byte_of c - 32) else c)"

definition icmp0 :: "string \<Rightarrow> string \<Rightarrow> int" where
  "icmp0 s t = (if map ascii_upper s = map ascii_upper t then 0 else 1)"

fun strchr0 :: "string \<Rightarrow> char \<Rightarrow> nat option" where
  "strchr0 [] c = None"
| "strchr0 (x # s) c = (if x = c then Some 0 else map_option Suc (strchr0 s c))"

fun strrchr0 :: "string \<Rightarrow> char \<Rightarrow> nat option" where
  "strrchr0 [] c = None"
| "strrchr0 (x # s) c =
     (case strrchr0 s c of Some i \<Rightarrow> Some (Suc i) | None \<Rightarrow> if x = c then Some 0 else None)"

definition err0 :: err_code where
  "err0 e =
     (if e = NO_ERROR then 0 else if e = ERROR_INVALID_FUNCTION then 1
      else if e = ERROR_FILE_NOT_FOUND then 2 else if e = ERROR_PATH_NOT_FOUND then 3
      else if e = ERROR_TOO_MANY_OPEN_FILES then 4 else if e = ERROR_ACCESS_DENIED then 5
      else if e = ERROR_INVALID_HANDLE then 6 else if e = ERROR_NOT_ENOUGH_MEMORY then 8
      else if e = ERROR_WRITE_PROTECT then 19 else if e = ERROR_NOT_SUPPORTED then 50
      else if e = ERROR_REM_NOT_LIST then 51 else if e = ERROR_NETWORK_ACCESS_DENIED then 65
      else if e = ERROR_BAD_DEV_TYPE then 66 else if e = ERROR_INVALID_PARAMETER then 87
      else if e = ERROR_BUFFER_OVERFLOW then 111 else if e = ERROR_CANNOT_COPY then 266
      else if e = ERROR_EAS_NOT_SUPPORTED then 282 else 1000)"

definition helpers0 :: helpers where
  "helpers0 = \<lparr>err = err0, fsphStrICmp = icmp0,
     fsphStrNICmp = (\<lambda>s t n. icmp0 (take n s) (take n t)),
     fsphStrNCmp = (\<lambda>s t n. if take n s = take n t then 0 else 1),
     fsphStrChr = strchr0, fsphStrRChr = strrchr0,
     fsphWildMatch = (\<lambda>p s. 1), fsphAttrMatch = (\<lambda>p a. 1),
     fsphCreateMutex = 0, fsphRequestMutex = (\<lambda>t n. 0)\<rparr>"

lemmas helpers0_simps = helpers0_def err0_def icmp0_def ascii_upper_def byte_of_def char_of_byte_def

lemma os2_codes_err0: "os2_codes err0"
  by (simp add: os2_codes_def err0_def)

lemma strchr0_append: "c \<notin> set d \<Longrightarrow> strchr0 (d @ c # n) c = Some (length d)"
  by (induction d) auto

lemma strchr0_none: "c \<notin> set s \<Longrightarrow> strchr0 s c = None"
  by (induction s) auto

lemma strrchr0_none: "c \<notin> set s \<Longrightarrow> strrchr0 s c = None"
  by (induction s) auto

lemma strrchr0_append: "c \<notin> set n \<Longrightarrow> strrchr0 (d @ c # n) c = Some (length d)"
  by (induction d) (auto simp: strrchr0_none)

lemma helpers0_ok:
  "icmp_equiv helpers0" "strchr_ok helpers0" "strrchr_ok helpers0" "os2_codes (err helpers0)"
  by (simp_all add: helpers0_def icmp0_def icmp_equiv_def icmp_refl_def strchr_ok_def strrchr_ok_def
      strchr0_append strchr0_none strrchr0_append strrchr0_none os2_codes_err0)

end
