(* ===== verification/Dircache.thy ===== *)
theory Dircache
  imports Helpers
begin

text \<open>
  \<open>dircache.c\<close>: the cache of directory listings of a resource, as the code has it. Entries are
  heap nodes linked by \<open>pNext\<close> and \<open>pPrev\<close>; a cache holds head, tail and count. Memory is a map
  from addresses to nodes, freed addresses are unmapped and never handed out again, and the
  outcome of each \<open>malloc\<close> or \<open>realloc\<close> is read from the list \<open>mallocs\<close> (an exhausted list
  grants every request). An operation that dereferences NULL or a freed node, reads an element
  that was never written or does not return has the value \<^term>\<open>None\<close>.
\<close>

subsection \<open>Data\<close>

record smbwrp_fileinfo =
  fi_size :: u64
  fi_attr :: u32
  fi_btime :: u32
  fi_mtime :: u32
  fi_atime :: u32
  fi_ctime :: u32
  fi_easize :: int
  fi_fname :: string

text \<open>A zeroed structure.\<close>

definition fileinfo0 :: smbwrp_fileinfo where
  "fileinfo0 = \<lparr>fi_size = 0, fi_attr = 0, fi_btime = 0, fi_mtime = 0, fi_atime = 0, fi_ctime = 0,
     fi_easize = 0, fi_fname = []\<rparr>"

record DirectoryCacheEntry =
  pNext :: ptr
  pPrev :: ptr
  e_pdc :: nat
  aInfos :: "smbwrp_fileinfo option list"
  cInfos :: int
  cInfosAllocated :: int
  pszPath :: string
  ulHash :: u32
  ulLastUpdateTime :: u32
  fInvalid :: int

record DirectoryCache =
  dc_mutex :: nat
  pEntriesHead :: ptr
  pEntriesTail :: ptr
  cEntries :: int
  fEnabled :: int
  ulExpirationTime :: u32
  cMaxEntries :: int

record dcmem =
  dces :: "nat \<rightharpoonup> DirectoryCacheEntry"
  dcs :: "nat \<rightharpoonup> DirectoryCache"
  dc_next :: nat
  mallocs :: "bool list"

definition malloc :: "dcmem \<Rightarrow> bool \<times> dcmem" where
  "malloc m = (case mallocs m of [] \<Rightarrow> (True, m) | b # bs \<Rightarrow> (b, m\<lparr>mallocs := bs\<rparr>))"

definition upd_dce :: "dcmem \<Rightarrow> nat \<Rightarrow> (DirectoryCacheEntry \<Rightarrow> DirectoryCacheEntry) \<Rightarrow> dcmem option" where
  "upd_dce m a f = map_option (\<lambda>e. m\<lparr>dces := (dces m)(a \<mapsto> f e)\<rparr>) (dces m a)"

definition upd_dc :: "dcmem \<Rightarrow> nat \<Rightarrow> (DirectoryCache \<Rightarrow> DirectoryCache) \<Rightarrow> dcmem option" where
  "upd_dc m c f = map_option (\<lambda>d. m\<lparr>dcs := (dcs m)(c \<mapsto> f d)\<rparr>) (dcs m c)"

text \<open>An array resized by \<open>realloc\<close> keeps its elements up to the smaller size.\<close>

definition resize :: "nat \<Rightarrow> 'a option list \<Rightarrow> 'a option list" where
  "resize n xs = take n xs @ replicate (n - length xs) None"

subsection \<open>Static helpers\<close>

text \<open>The mutex of a cache: its hold count. Nothing looks at the result of the request.\<close>

definition lockRequest :: "'a helpers_scheme \<Rightarrow> dcmem \<Rightarrow> nat \<Rightarrow> dcmem option" where
  "lockRequest E m c =
     upd_dc m c (\<lambda>d. if fsphRequestMutex E 10000 (dc_mutex d) = err E NO_ERROR
                     then d\<lparr>dc_mutex := dc_mutex d + 1\<rparr> else d)"

definition lockRelease :: "dcmem \<Rightarrow> nat \<Rightarrow> dcmem option" where
  "lockRelease m c = upd_dc m c (\<lambda>d. d\<lparr>dc_mutex := dc_mutex d - 1\<rparr>)"

text \<open>The string hash: each character is added to the shifted value, the top nibble folded back.\<close>

definition hash_step :: "u32 \<Rightarrow> char \<Rightarrow> u32" where
  "hash_step h c =
     (let hash = push_bit 4 h + schar c;
          g = hash AND 0xf0000000
      in if g \<noteq> 0 then (hash XOR drop_bit 24 g) XOR g else hash)"

definition Hash :: "string \<Rightarrow> nat \<Rightarrow> u32" where
  "Hash pData ulLen = foldl hash_step 0 (take ulLen pData) mod 30031"

definition computehash :: "string option \<Rightarrow> u32" where
  "computehash s = (case s of Some s \<Rightarrow> Hash s (length s) | None \<Rightarrow> 0)"

subsection \<open>Cache entries\<close>

definition dceCreate ::
  "'a helpers_scheme \<Rightarrow> dcmem \<Rightarrow> nat \<Rightarrow> string \<Rightarrow> int \<Rightarrow> (int \<times> ptr \<times> dcmem) option" where
  "dceCreate E m pdc path cFiles =
     (let (ok, m) = malloc m in
      if \<not> ok then Some (err E ERROR_NOT_ENOUGH_MEMORY, None, m)
      else let (ok, m) = malloc m in
      if \<not> ok then Some (err E ERROR_NOT_ENOUGH_MEMORY, None, m)
      else let (ok, m) = malloc m in
      if \<not> ok then None
      else let a = dc_next m;
               e = \<lparr>pNext = None, pPrev = None, e_pdc = pdc,
                    aInfos = replicate (nat cFiles) None, cInfos = 0, cInfosAllocated = cFiles,
                    pszPath = path, ulHash = computehash (Some path), ulLastUpdateTime = 0,
                    fInvalid = 0\<rparr>
           in Some (err E NO_ERROR, Some a, m\<lparr>dces := (dces m)(a \<mapsto> e), dc_next := Suc a\<rparr>))"

definition dceDelete :: "dcmem \<Rightarrow> nat \<Rightarrow> dcmem option" where
  "dceDelete m a = do { e \<leftarrow> dces m a; Some (m\<lparr>dces := (dces m)(a := None)\<rparr>) }"

definition dceClear :: "dcmem \<Rightarrow> nat \<Rightarrow> dcmem option" where
  "dceClear m a = upd_dce m a (\<lambda>e. e\<lparr>cInfos := 0\<rparr>)"

text \<open>The store into \<open>aInfos[cInfos]\<close> is inside the allocated array or undefined.\<close>

definition dceStore :: "dcmem \<Rightarrow> nat \<Rightarrow> smbwrp_fileinfo \<Rightarrow> dcmem option" where
  "dceStore m a finfo =
     do { e \<leftarrow> dces m a;
          require (0 \<le> cInfos e \<and> nat (cInfos e) < length (aInfos e));
          upd_dce m a (\<lambda>e. e\<lparr>aInfos := (aInfos e)[nat (cInfos e) := Some finfo],
                             cInfos := cInfos e + 1\<rparr>) }"

definition dceWriteEntry :: "dcmem \<Rightarrow> nat \<Rightarrow> smbwrp_fileinfo \<Rightarrow> dcmem option" where
  "dceWriteEntry m a finfo =
     do { e \<leftarrow> dces m a;
          if cInfos e \<ge> cInfosAllocated e
          then let cNewAllocated = cInfosAllocated e + cdiv (cInfosAllocated e) 2 + 1;
                   (ok, m) = malloc m
               in if ok
                  then do { m \<leftarrow> upd_dce m a (\<lambda>e. e\<lparr>cInfosAllocated := cNewAllocated,
                                               aInfos := resize (nat cNewAllocated) (aInfos e)\<rparr>);
                            dceStore m a finfo }
                  else upd_dce m a (\<lambda>e. e\<lparr>fInvalid := 1\<rparr>)
          else dceStore m a finfo }"

text \<open>
  A \<open>realloc\<close> that fails keeps the old array, except for a request of 0 bytes: that one may free
  the array and return NULL, and the entry then has none.
\<close>

definition dceAdjust :: "dcmem \<Rightarrow> nat \<Rightarrow> dcmem option" where
  "dceAdjust m a =
     do { e \<leftarrow> dces m a;
          let cFree = cInfosAllocated e - cInfos e;
          if cFree > cdiv (cInfos e) 2
          then let cNewAllocated = cInfos e + cdiv cFree 2;
                   (ok, m) = malloc m
               in if ok
                  then upd_dce m a (\<lambda>e. e\<lparr>cInfosAllocated := cNewAllocated,
                                          aInfos := resize (nat cNewAllocated) (aInfos e)\<rparr>)
                  else if cNewAllocated = 0 then upd_dce m a (\<lambda>e. e\<lparr>aInfos := []\<rparr>)
                  else Some m
          else Some m }"

definition dcePathEqualsTo :: "'a helpers_scheme \<Rightarrow> DirectoryCacheEntry \<Rightarrow> string \<Rightarrow> bool" where
  "dcePathEqualsTo E e path \<longleftrightarrow> fsphStrICmp E path (pszPath e) = 0"

definition dcePathPrefixedWith :: "'a helpers_scheme \<Rightarrow> DirectoryCacheEntry \<Rightarrow> string \<Rightarrow> bool" where
  "dcePathPrefixedWith E e path \<longleftrightarrow> fsphStrNICmp E path (pszPath e) (length path) = 0"

definition dceExpired :: "u32 \<Rightarrow> DirectoryCacheEntry \<Rightarrow> u32 \<Rightarrow> bool" where
  "dceExpired timesec e expirationTime \<longleftrightarrow> timesec - ulLastUpdateTime e \<ge> expirationTime"

text \<open>What the code reads from \<open>aInfos[0 .. cInfos - 1]\<close>.\<close>

definition dceInfos :: "DirectoryCacheEntry \<Rightarrow> smbwrp_fileinfo list option" where
  "dceInfos e =
     (if nat (cInfos e) \<le> length (aInfos e) then those (take (nat (cInfos e)) (aInfos e)) else None)"

subsection \<open>The list of entries\<close>

definition dceMatches ::
  "'a helpers_scheme \<Rightarrow> bool \<Rightarrow> u32 \<Rightarrow> string \<Rightarrow> DirectoryCacheEntry \<Rightarrow> bool" where
  "dceMatches E fPrefix hash path e \<longleftrightarrow>
     (if fPrefix then dcePathPrefixedWith E e path
      else ulHash e = hash \<and> dcePathEqualsTo E e path)"

partial_function (option) dcFind_loop ::
  "'a helpers_scheme \<Rightarrow> dcmem \<Rightarrow> ptr \<Rightarrow> bool \<Rightarrow> u32 \<Rightarrow> string \<Rightarrow> ptr option" where
  "dcFind_loop E m iter fPrefix hash path =
     (case iter of None \<Rightarrow> Some None
      | Some a \<Rightarrow> do { e \<leftarrow> dces m a;
                       if dceMatches E fPrefix hash path e then Some (Some a)
                       else dcFind_loop E m (pNext e) fPrefix hash path })"

definition dcFindDirCache ::
  "'a helpers_scheme \<Rightarrow> dcmem \<Rightarrow> nat \<Rightarrow> string \<Rightarrow> bool \<Rightarrow> ptr option" where
  "dcFindDirCache E m pdc path fPrefix =
     do { d \<leftarrow> dcs m pdc;
          dcFind_loop E m (pEntriesHead d) fPrefix (computehash (Some path)) path }"

text \<open>The field \<open>cMaxEntries\<close> of a new cache is whatever the memory held.\<close>

definition dcCreate :: "'a helpers_scheme \<Rightarrow> dcmem \<Rightarrow> int \<Rightarrow> int \<times> ptr \<times> dcmem" where
  "dcCreate E m junk =
     (let (ok, m) = malloc m in
      if \<not> ok then (err E ERROR_NOT_ENOUGH_MEMORY, None, m)
      else let rc = fsphCreateMutex E in
      if rc \<noteq> err E NO_ERROR then (rc, None, m)
      else let c = dc_next m;
               d = \<lparr>dc_mutex = 0, pEntriesHead = None, pEntriesTail = None, cEntries = 0,
                    fEnabled = 0, ulExpirationTime = -1, cMaxEntries = junk\<rparr>
           in (err E NO_ERROR, Some c, m\<lparr>dcs := (dcs m)(c \<mapsto> d), dc_next := Suc c\<rparr>))"

partial_function (option) dcDelete_loop :: "dcmem \<Rightarrow> ptr \<Rightarrow> dcmem option" where
  "dcDelete_loop m iter =
     (case iter of None \<Rightarrow> Some m
      | Some a \<Rightarrow> do { e \<leftarrow> dces m a;
                       m \<leftarrow> dceDelete m a;
                       dcDelete_loop m (pNext e) })"

definition dcDelete :: "dcmem \<Rightarrow> nat \<Rightarrow> dcmem option" where
  "dcDelete m pdc =
     do { d \<leftarrow> dcs m pdc;
          m \<leftarrow> dcDelete_loop m (pEntriesHead d);
          d \<leftarrow> dcs m pdc;
          Some (m\<lparr>dcs := (dcs m)(pdc := None)\<rparr>) }"

definition dcRemoveEntry :: "dcmem \<Rightarrow> nat \<Rightarrow> dcmem option" where
  "dcRemoveEntry m a =
     do { e \<leftarrow> dces m a;
          let pdc = e_pdc e;
          m \<leftarrow> (case pNext e of
                 Some n \<Rightarrow> upd_dce m n (\<lambda>x. x\<lparr>pPrev := pPrev e\<rparr>)
               | None \<Rightarrow> upd_dc m pdc (\<lambda>d. d\<lparr>pEntriesTail := pPrev e\<rparr>));
          e \<leftarrow> dces m a;
          m \<leftarrow> (case pPrev e of
                 Some p \<Rightarrow> upd_dce m p (\<lambda>x. x\<lparr>pNext := pNext e\<rparr>)
               | None \<Rightarrow> upd_dc m pdc (\<lambda>d. d\<lparr>pEntriesHead := pNext e\<rparr>));
          m \<leftarrow> upd_dce m a (\<lambda>x. x\<lparr>pNext := None, pPrev := None\<rparr>);
          upd_dc m pdc (\<lambda>d. d\<lparr>cEntries := cEntries d - 1\<rparr>) }"

definition dcInsertEntry :: "dcmem \<Rightarrow> nat \<Rightarrow> dcmem option" where
  "dcInsertEntry m a =
     do { e \<leftarrow> dces m a;
          let pdc = e_pdc e;
          d \<leftarrow> dcs m pdc;
          m \<leftarrow> upd_dce m a (\<lambda>x. x\<lparr>pNext := pEntriesHead d\<rparr>);
          m \<leftarrow> (case pEntriesHead d of
                 Some h \<Rightarrow> upd_dce m h (\<lambda>x. x\<lparr>pPrev := Some a\<rparr>)
               | None \<Rightarrow> upd_dc m pdc (\<lambda>d. d\<lparr>pEntriesTail := Some a\<rparr>));
          upd_dc m pdc (\<lambda>d. d\<lparr>pEntriesHead := Some a, cEntries := cEntries d + 1\<rparr>) }"

definition dcEnable :: "dcmem \<Rightarrow> nat \<Rightarrow> int \<Rightarrow> u32 \<Rightarrow> int \<Rightarrow> dcmem option" where
  "dcEnable m pdc fEnable expirationTime maxEntries =
     upd_dc m pdc (\<lambda>d. d\<lparr>fEnabled := fEnable, ulExpirationTime := expirationTime,
                         cMaxEntries := maxEntries\<rparr>)"

subsection \<open>Operations of the cache\<close>

datatype cache_rc = CacheFault | CacheOk

definition dcExistsInCache :: "'a helpers_scheme \<Rightarrow> dcmem \<Rightarrow> nat \<Rightarrow> string \<Rightarrow> cache_rc option" where
  "dcExistsInCache E m pdc path =
     do { d \<leftarrow> dcs m pdc;
          if fEnabled d \<noteq> 0
          then do { p \<leftarrow> dcFindDirCache E m pdc path False;
                    Some (if p \<noteq> None then CacheOk else CacheFault) }
          else Some CacheFault }"

text \<open>
  The callback \<open>fn\<close> is called once for each element, in order; the list of elements it receives
  is the second component of the result, the third is the value stored through
  \<open>ptotal_received\<close>, if one is.
\<close>

definition dcRead ::
  "'a helpers_scheme \<Rightarrow> u32 \<Rightarrow> dcmem \<Rightarrow> nat \<Rightarrow> string \<Rightarrow> bool \<Rightarrow>
     (cache_rc \<times> smbwrp_fileinfo list \<times> int option \<times> dcmem) option" where
  "dcRead E timesec m pdc path fForceCache =
     do { d \<leftarrow> dcs m pdc;
          if fEnabled d \<noteq> 0
          then do { p \<leftarrow> dcFindDirCache E m pdc path False;
                    case p of None \<Rightarrow> Some (CacheFault, [], None, m)
                    | Some a \<Rightarrow>
                        do { e \<leftarrow> dces m a;
                             if fForceCache \<or> \<not> dceExpired timesec e (ulExpirationTime d)
                             then do { infos \<leftarrow> dceInfos e;
                                       Some (CacheOk, infos, Some (cInfos e), m) }
                             else do { m \<leftarrow> dcRemoveEntry m a;
                                       m \<leftarrow> dceDelete m a;
                                       Some (CacheFault, [], None, m) } } }
          else Some (CacheFault, [], None, m) }"

definition dcWriteBegin ::
  "'a helpers_scheme \<Rightarrow> u32 \<Rightarrow> dcmem \<Rightarrow> nat \<Rightarrow> string \<Rightarrow> int \<Rightarrow> (ptr \<times> dcmem) option" where
  "dcWriteBegin E timesec m pdc path cFiles =
     do { d \<leftarrow> dcs m pdc;
          if fEnabled d \<noteq> 0
          then do { p \<leftarrow> dcFindDirCache E m pdc path False;
                    (p, m) \<leftarrow> (case p of
                        None \<Rightarrow> do { (rc, p, m) \<leftarrow> dceCreate E m pdc path cFiles; Some (p, m) }
                      | Some a \<Rightarrow> do { m \<leftarrow> dceClear m a;
                                       m \<leftarrow> dcRemoveEntry m a;
                                       Some (Some a, m) });
                    case p of None \<Rightarrow> Some (None, m)
                    | Some a \<Rightarrow> do { m \<leftarrow> upd_dce m a (\<lambda>e. e\<lparr>ulLastUpdateTime := timesec\<rparr>);
                                     Some (Some a, m) } }
          else Some (None, m) }"

partial_function (option) dcInvalidate ::
  "'a helpers_scheme \<Rightarrow> dcmem \<Rightarrow> nat \<Rightarrow> string \<Rightarrow> bool \<Rightarrow> dcmem option" where
  "dcInvalidate E m pdc path fPrefix =
     do { p \<leftarrow> dcFindDirCache E m pdc path fPrefix;
          case p of None \<Rightarrow> Some m
          | Some a \<Rightarrow> do { m \<leftarrow> dcRemoveEntry m a;
                           m \<leftarrow> dceDelete m a;
                           dcInvalidate E m pdc path fPrefix } }"

partial_function (option) dcFindPath_loop ::
  "'a helpers_scheme \<Rightarrow> u32 \<Rightarrow> dcmem \<Rightarrow> ptr \<Rightarrow> u32 \<Rightarrow> string \<Rightarrow> string \<Rightarrow>
     (smbwrp_fileinfo \<times> u32) option option" where
  "dcFindPath_loop E timesec m iter hash parent name =
     (case iter of None \<Rightarrow> Some None
      | Some a \<Rightarrow>
          do { e \<leftarrow> dces m a;
               if ulHash e = hash \<and> dcePathEqualsTo E e parent
               then do { infos \<leftarrow> dceInfos e;
                         case List.find (\<lambda>i. fsphStrICmp E (fi_fname i) name = 0) infos of
                           Some i \<Rightarrow> Some (Some (i, timesec - ulLastUpdateTime e))
                         | None \<Rightarrow> dcFindPath_loop E timesec m (pNext e) hash parent name }
               else dcFindPath_loop E timesec m (pNext e) hash parent name })"

definition dcFindPath ::
  "'a helpers_scheme \<Rightarrow> u32 \<Rightarrow> dcmem \<Rightarrow> nat \<Rightarrow> string \<Rightarrow> string \<Rightarrow>
     (smbwrp_fileinfo \<times> u32) option option" where
  "dcFindPath E timesec m pdc parent name =
     do { d \<leftarrow> dcs m pdc;
          dcFindPath_loop E timesec m (pEntriesHead d) (computehash (Some parent)) parent name }"

text \<open>
  The directory of a listing is the path given to the plugin without the mask and the slash
  before it; the result is \<^term>\<open>None\<close> where the code returns 0.
\<close>

definition dcCreateDirPath :: "string \<Rightarrow> string \<Rightarrow> string option" where
  "dcCreateDirPath fullpath dir_mask =
     (let cbPath = int (length fullpath) + 1;
          cbMask = int (length dir_mask) + 1
      in if cbMask > cbPath then None
         else let cbDir = cbPath - cbMask
              in if cbDir > 0 then Some (take (nat (cbDir - 1)) fullpath) else Some [])"

subsection \<open>Public interface\<close>

definition dircache_create ::
  "'a helpers_scheme \<Rightarrow> dcmem \<Rightarrow> int \<Rightarrow> u32 \<Rightarrow> int \<Rightarrow> (int \<times> ptr \<times> dcmem) option" where
  "dircache_create E m junk expirationTime maxEntries =
     (let (rc, p, m) = dcCreate E m junk in
      if rc = err E NO_ERROR
      then (case p of None \<Rightarrow> None
            | Some c \<Rightarrow> do { m \<leftarrow> dcEnable m c 1 expirationTime maxEntries; Some (rc, p, m) })
      else Some (rc, p, m))"

definition dircache_delete :: "dcmem \<Rightarrow> ptr \<Rightarrow> dcmem option" where
  "dircache_delete m pdc = (case pdc of None \<Rightarrow> Some m | Some c \<Rightarrow> dcDelete m c)"

definition dircache_list_files ::
  "'a helpers_scheme \<Rightarrow> u32 \<Rightarrow> dcmem \<Rightarrow> ptr \<Rightarrow> string \<Rightarrow> string \<Rightarrow>
     (bool \<times> smbwrp_fileinfo list \<times> int option \<times> dcmem) option" where
  "dircache_list_files E timesec m pdc fullpath dir_mask =
     (case dcCreateDirPath fullpath dir_mask of
        None \<Rightarrow> Some (False, [], None, m)
      | Some path \<Rightarrow>
          (case pdc of
             None \<Rightarrow> Some (False, [], None, m)
           | Some c \<Rightarrow>
               do { m \<leftarrow> lockRequest E m c;
                    (rc, infos, total, m) \<leftarrow> dcRead E timesec m c path False;
                    m \<leftarrow> lockRelease m c;
                    Some (rc = CacheOk, infos, total, m) }))"

definition dircache_write_begin ::
  "'a helpers_scheme \<Rightarrow> u32 \<Rightarrow> dcmem \<Rightarrow> ptr \<Rightarrow> string \<Rightarrow> string \<Rightarrow> int \<Rightarrow> (ptr \<times> dcmem) option" where
  "dircache_write_begin E timesec m pdc fullpath dir_mask cFiles =
     (case dcCreateDirPath fullpath dir_mask of
        None \<Rightarrow> Some (None, m)
      | Some path \<Rightarrow>
          (case pdc of
             None \<Rightarrow> Some (None, m)
           | Some c \<Rightarrow>
               do { m \<leftarrow> lockRequest E m c;
                    d \<leftarrow> dcs m c;
                    m \<leftarrow> (if cEntries d \<ge> cMaxEntries d
                          then do { a \<leftarrow> pEntriesTail d;
                                    m \<leftarrow> dcRemoveEntry m a;
                                    dceDelete m a }
                          else Some m);
                    (p, m) \<leftarrow> dcWriteBegin E timesec m c path cFiles;
                    m \<leftarrow> lockRelease m c;
                    Some (p, m) }))"

definition dircache_write_entry ::
  "'a helpers_scheme \<Rightarrow> dcmem \<Rightarrow> ptr \<Rightarrow> smbwrp_fileinfo \<Rightarrow> dcmem option" where
  "dircache_write_entry E m ctx finfo =
     (case ctx of None \<Rightarrow> Some m
      | Some a \<Rightarrow> do { e \<leftarrow> dces m a;
                       m \<leftarrow> lockRequest E m (e_pdc e);
                       m \<leftarrow> dceWriteEntry m a finfo;
                       lockRelease m (e_pdc e) })"

text \<open>The log statement at the start reads \<open>pdce->cInfos\<close> before the test for NULL.\<close>

definition dircache_write_end :: "'a helpers_scheme \<Rightarrow> dcmem \<Rightarrow> ptr \<Rightarrow> dcmem option" where
  "dircache_write_end E m ctx =
     do { a \<leftarrow> ctx;
          e \<leftarrow> dces m a;
          let pdc = e_pdc e;
          m \<leftarrow> lockRequest E m pdc;
          e \<leftarrow> dces m a;
          m \<leftarrow> (if fInvalid e \<noteq> 0
                then dceDelete m a
                else do { m \<leftarrow> dceAdjust m a; dcInsertEntry m a });
          lockRelease m pdc }"

definition dircache_invalidate ::
  "'a helpers_scheme \<Rightarrow> dcmem \<Rightarrow> ptr \<Rightarrow> string \<Rightarrow> bool \<Rightarrow> dcmem option" where
  "dircache_invalidate E m pdc path fParent =
     (case pdc of None \<Rightarrow> Some m
      | Some c \<Rightarrow>
          do { m \<leftarrow> lockRequest E m c;
               m \<leftarrow> (if fParent
                     then (case fsphStrRChr E path backslash of
                             Some lastSlash \<Rightarrow> dcInvalidate E m c (take lastSlash path) False
                           | None \<Rightarrow> dcInvalidate E m c [] False)
                     else dcInvalidate E m c path False);
               lockRelease m c })"

definition dircache_find_path ::
  "'a helpers_scheme \<Rightarrow> u32 \<Rightarrow> dcmem \<Rightarrow> ptr \<Rightarrow> string \<Rightarrow>
     ((smbwrp_fileinfo \<times> u32) option \<times> dcmem) option" where
  "dircache_find_path E timesec m pdc path =
     (case pdc of None \<Rightarrow> Some (None, m)
      | Some c \<Rightarrow>
          if fsphStrChr E path CHR ''*'' \<noteq> None \<or> fsphStrChr E path CHR ''?'' \<noteq> None
          then Some (None, m)
          else do { m \<leftarrow> lockRequest E m c;
                    r \<leftarrow> (case fsphStrRChr E path backslash of
                            Some lastSlash \<Rightarrow>
                              dcFindPath E timesec m c (take lastSlash path)
                                (drop (lastSlash + 1) path)
                          | None \<Rightarrow> dcFindPath E timesec m c [] path);
                    m \<leftarrow> lockRelease m c;
                    Some (r, m) })"

end
