(* ===== verification/Dircache_List.thy ===== *)
theory Dircache_List
  imports Dircache
begin

text \<open>
  The doubly linked list of a cache and its operations, refined to lists of addresses.
  \<open>cache_rep m c as\<close> says that the entries of cache \<open>c\<close> are the nodes \<open>as\<close>, head first, with
  consistent links in both directions, a correct tail and count, and well-formed contents.
  Every list operation of the code is shown to succeed on such a memory and to act on \<open>as\<close> as
  the corresponding list function does; what it leaves alone is said by \<open>same_outside\<close>.
\<close>

subsection \<open>Segments\<close>

definition lastp :: "ptr \<Rightarrow> nat list \<Rightarrow> ptr" where
  "lastp p as = (if as = [] then p else Some (last as))"

lemma lastp_simps [simp]:
  "lastp p [] = p" "lastp p (a # as) = lastp (Some a) as"
  "lastp p (as @ bs) = lastp (lastp p as) bs"
  by (auto simp: lastp_def)

lemma lastp_nonempty [simp]: "as \<noteq> [] \<Longrightarrow> lastp (Some a) as = lastp None as"
  by (simp add: lastp_def)

fun dseg :: "(nat \<rightharpoonup> DirectoryCacheEntry) \<Rightarrow> ptr \<Rightarrow> ptr \<Rightarrow> nat list \<Rightarrow> ptr \<Rightarrow> bool" where
  "dseg h prev p [] nxt \<longleftrightarrow> p = nxt"
| "dseg h prev p (a # as) nxt \<longleftrightarrow>
     p = Some a \<and> (\<exists>e. h a = Some e \<and> pPrev e = prev \<and> dseg h (Some a) (pNext e) as nxt)"

lemma dseg_append:
  "dseg h prev p (as @ bs) nxt \<longleftrightarrow> (\<exists>q. dseg h prev p as q \<and> dseg h (lastp prev as) q bs nxt)"
  by (induction as arbitrary: prev p) auto

lemma dseg_other [simp]: "u \<notin> set as \<Longrightarrow> dseg (h(u := x)) prev p as nxt = dseg h prev p as nxt"
  by (induction as arbitrary: prev p) auto

lemma dseg_cong:
  "(\<And>a. a \<in> set as \<Longrightarrow> h a = h' a) \<Longrightarrow> dseg h prev p as nxt = dseg h' prev p as nxt"
  by (induction as arbitrary: prev p) auto

lemma dseg_set_prev:
  "dseg h prev p (a # as) nxt \<Longrightarrow> a \<notin> set as \<Longrightarrow> h a = Some e \<Longrightarrow>
     dseg (h(a \<mapsto> e\<lparr>pPrev := q\<rparr>)) q p (a # as) nxt"
  by auto

lemma dseg_set_next:
  "dseg h prev p (as @ [z]) nxt \<Longrightarrow> z \<notin> set as \<Longrightarrow> h z = Some e \<Longrightarrow>
     dseg (h(z \<mapsto> e\<lparr>pNext := q\<rparr>)) prev p (as @ [z]) q"
  by (auto simp: dseg_append)

lemma dseg_mem: "dseg h prev p as nxt \<Longrightarrow> a \<in> set as \<Longrightarrow> \<exists>e. h a = Some e"
  by (induction as arbitrary: prev p) auto

text \<open>A change of contents that keeps the links does not matter for the shape.\<close>

lemma dseg_data:
  assumes "dseg h prev p as nxt" "h a = Some e" "pNext e' = pNext e" "pPrev e' = pPrev e"
  shows "dseg (h(a \<mapsto> e')) prev p as nxt"
  using assms by (induction as arbitrary: prev p) auto

subsection \<open>Well-formed entries and caches\<close>

definition dce_ok :: "DirectoryCacheEntry \<Rightarrow> bool" where
  "dce_ok e \<longleftrightarrow> 0 \<le> cInfos e \<and> cInfos e \<le> cInfosAllocated e \<and>
     int (length (aInfos e)) = cInfosAllocated e \<and>
     (\<forall>x \<in> set (take (nat (cInfos e)) (aInfos e)). x \<noteq> None) \<and>
     ulHash e = computehash (Some (pszPath e))"

definition node_ok :: "dcmem \<Rightarrow> nat \<Rightarrow> nat \<Rightarrow> bool" where
  "node_ok m c a \<longleftrightarrow> (\<exists>e. dces m a = Some e \<and> e_pdc e = c \<and> dce_ok e \<and> fInvalid e = 0)"

definition cache_rep :: "dcmem \<Rightarrow> nat \<Rightarrow> nat list \<Rightarrow> bool" where
  "cache_rep m c as \<longleftrightarrow>
     (\<exists>d. dcs m c = Some d \<and> dseg (dces m) None (pEntriesHead d) as None \<and>
          pEntriesTail d = lastp None as \<and> cEntries d = int (length as)) \<and>
     distinct as \<and> (\<forall>a \<in> set as. node_ok m c a)"

text \<open>What a step may not touch: other caches, and the nodes outside the given set.\<close>

definition dc_settings :: "DirectoryCache \<Rightarrow> int \<times> u32 \<times> int \<times> nat" where
  "dc_settings d = (fEnabled d, ulExpirationTime d, cMaxEntries d, dc_mutex d)"

definition same_outside :: "nat \<Rightarrow> nat set \<Rightarrow> dcmem \<Rightarrow> dcmem \<Rightarrow> bool" where
  "same_outside c A m m' \<longleftrightarrow>
     (\<forall>c'. c' \<noteq> c \<longrightarrow> dcs m' c' = dcs m c') \<and> (\<forall>a. a \<notin> A \<longrightarrow> dces m' a = dces m a) \<and>
     map_option dc_settings (dcs m' c) = map_option dc_settings (dcs m c)"

lemma same_outside_refl [simp]: "same_outside c A m m"
  by (simp add: same_outside_def)

lemma same_outside_trans:
  "same_outside c A m m' \<Longrightarrow> same_outside c B m' m'' \<Longrightarrow> same_outside c (A \<union> B) m m''"
  by (simp add: same_outside_def)

lemma same_outside_mono: "same_outside c A m m' \<Longrightarrow> A \<subseteq> B \<Longrightarrow> same_outside c B m m'"
  unfolding same_outside_def by blast

lemma cache_rep_dc: "cache_rep m c as \<Longrightarrow> \<exists>d. dcs m c = Some d"
  by (auto simp: cache_rep_def)

lemma cache_rep_node: "cache_rep m c as \<Longrightarrow> a \<in> set as \<Longrightarrow>
    \<exists>e. dces m a = Some e \<and> e_pdc e = c \<and> dce_ok e \<and> fInvalid e = 0"
  by (auto simp: cache_rep_def node_ok_def)

text \<open>The nodes of two caches are disjoint, because a node names its cache.\<close>

lemma cache_rep_disjoint:
  "cache_rep m c as \<Longrightarrow> cache_rep m c' bs \<Longrightarrow> c \<noteq> c' \<Longrightarrow> set as \<inter> set bs = {}"
  using cache_rep_node [of m c as] cache_rep_node [of m c' bs] by fastforce

lemma cache_rep_other:
  assumes "cache_rep m c' bs" "same_outside c A m m'" "c' \<noteq> c" "set bs \<inter> A = {}"
  shows "cache_rep m' c' bs"
proof -
  have "dces m' a = dces m a" if "a \<in> set bs" for a
    using assms(2,4) that by (auto simp: same_outside_def)
  then have "dseg (dces m') p q bs n = dseg (dces m) p q bs n" for p q n
    by (intro dseg_cong) auto
  moreover have "dcs m' c' = dcs m c'" using assms(2,3) by (simp add: same_outside_def)
  ultimately show ?thesis
    using assms(1) \<open>\<And>a. a \<in> set bs \<Longrightarrow> dces m' a = dces m a\<close>
    by (auto simp: cache_rep_def node_ok_def)
qed

lemma upd_dce_Some [mem_simps]:
  "dces m a = Some e \<Longrightarrow> upd_dce m a f = Some (m\<lparr>dces := (dces m)(a \<mapsto> f e)\<rparr>)"
  by (simp add: upd_dce_def)

lemma upd_dc_Some [mem_simps]:
  "dcs m c = Some d \<Longrightarrow> upd_dc m c f = Some (m\<lparr>dcs := (dcs m)(c \<mapsto> f d)\<rparr>)"
  by (simp add: upd_dc_def)

text \<open>Entries that differ in their links only.\<close>

definition same_data :: "DirectoryCacheEntry \<Rightarrow> DirectoryCacheEntry \<Rightarrow> bool" where
  "same_data x y \<longleftrightarrow> y\<lparr>pNext := None, pPrev := None\<rparr> = x\<lparr>pNext := None, pPrev := None\<rparr>"

lemma same_data_intros [simp]:
  "same_data x x" "same_data x (y\<lparr>pNext := p\<rparr>) = same_data x y"
  "same_data x (y\<lparr>pPrev := p\<rparr>) = same_data x y"
  by (simp_all add: same_data_def)

lemma same_data_fields:
  assumes "same_data x y"
  shows "e_pdc y = e_pdc x" "aInfos y = aInfos x" "cInfos y = cInfos x"
    "cInfosAllocated y = cInfosAllocated x" "pszPath y = pszPath x" "ulHash y = ulHash x"
    "ulLastUpdateTime y = ulLastUpdateTime x" "fInvalid y = fInvalid x"
  using assms by (cases x; cases y; simp add: same_data_def)+

lemma same_data_ok: "same_data x y \<Longrightarrow> dce_ok y = dce_ok x"
  by (simp add: dce_ok_def same_data_fields)

subsection \<open>Removal\<close>

text \<open>The node keeps its contents; its links become NULL.\<close>

lemma dcRemoveEntry_rep:
  assumes rep: "cache_rep m c (ls @ a # rs)"
  obtains m' e where "dcRemoveEntry m a = Some m'" "cache_rep m' c (ls @ rs)"
    "dces m a = Some e" "dces m' a = Some (e\<lparr>pNext := None, pPrev := None\<rparr>)"
    "same_outside c (set (ls @ a # rs)) m m'"
    "\<forall>b \<in> set (ls @ rs). rel_option same_data (dces m b) (dces m' b)"
    "dc_next m' = dc_next m" "mallocs m' = mallocs m"
proof -
  from rep obtain d where d: "dcs m c = Some d"
    and seg: "dseg (dces m) None (pEntriesHead d) (ls @ a # rs) None"
    and tail: "pEntriesTail d = lastp None (ls @ a # rs)"
    and cnt: "cEntries d = int (length (ls @ a # rs))"
    and dist: "distinct (ls @ a # rs)" and nodes: "\<forall>b \<in> set (ls @ a # rs). node_ok m c b"
    by (auto simp: cache_rep_def)
  from seg obtain e where e: "dces m a = Some e" and prev: "pPrev e = lastp None ls"
    and segl: "dseg (dces m) None (pEntriesHead d) ls (Some a)"
    and segr: "dseg (dces m) (Some a) (pNext e) rs None"
    by (auto simp: dseg_append)
  have pdc: "e_pdc e = c" using nodes e by (auto simp: node_ok_def)
  define h1 where "h1 = (case rs of [] \<Rightarrow> dces m
     | r # _ \<Rightarrow> (dces m)(r \<mapsto> (the (dces m r))\<lparr>pPrev := lastp None ls\<rparr>))"
  define h2 where "h2 = (if ls = [] then h1
     else h1(last ls \<mapsto> (the (h1 (last ls)))\<lparr>pNext := pNext e\<rparr>))"
  define h3 where "h3 = h2(a \<mapsto> e\<lparr>pNext := None, pPrev := None\<rparr>)"
  define d' where "d' = d\<lparr>pEntriesTail := (if rs = [] then lastp None ls else pEntriesTail d),
     pEntriesHead := (if ls = [] then pNext e else pEntriesHead d),
     cEntries := cEntries d - 1\<rparr>"
  define m' where "m' = m\<lparr>dces := h3, dcs := (dcs m)(c \<mapsto> d')\<rparr>"
  have rh: "rs = r # rs' \<Longrightarrow> pNext e = Some r \<and> (\<exists>x. dces m r = Some x)" for r rs'
    using segr by auto
  have rn: "rs = [] \<Longrightarrow> pNext e = None" using segr by auto
  have lh: "ls \<noteq> [] \<Longrightarrow> \<exists>x. dces m (last ls) = Some x" using segl last_in_set dseg_mem by blast
  have h1l: "ls \<noteq> [] \<Longrightarrow> h1 (last ls) = dces m (last ls)"
    using dist last_in_set [of ls] by (auto simp: h1_def split: list.splits)
  have h1a: "h1 a = Some e" using dist e by (auto simp: h1_def split: list.splits)
  have la: "ls \<noteq> [] \<Longrightarrow> last ls \<noteq> a" using dist last_in_set [of ls] by auto
  have h2a: "h2 a = Some e" using dist h1a last_in_set [of ls] by (auto simp: h2_def)
  have run: "dcRemoveEntry m a = Some m'"
  proof (cases rs)
    case Nil
    then show ?thesis
      using e d prev rn lh la
      by (cases "ls = []") (auto simp: dcRemoveEntry_def mem_simps pdc m'_def h3_def h2_def h1_def d'_def
          lastp_def fun_upd_twist)
  next
    case (Cons r rs')
    then obtain x where "pNext e = Some r" "dces m r = Some x" using rh by blast
    with Cons dist e d prev lh la h1l h1a h2a show ?thesis
      by (cases "ls = []") (auto simp: dcRemoveEntry_def mem_simps pdc m'_def h3_def h2_def h1_def d'_def
          lastp_def)
  qed
  have r1: "dseg h1 (lastp None ls) (pNext e) rs None"
    using segr dist by (auto simp: h1_def split: list.splits)
  have l1: "dseg h1 None (pEntriesHead d) ls (Some a)"
    using segl dist by (auto simp: h1_def split: list.splits)
  have lr: "ls \<noteq> [] \<Longrightarrow> last ls \<notin> set rs" using dist last_in_set [of ls] by (auto simp: disjoint_iff)
  have r2: "dseg h2 (lastp None ls) (pNext e) rs None"
    using r1 lr by (cases "ls = []") (simp_all add: h2_def)
  have l2: "dseg h2 None (if ls = [] then pNext e else pEntriesHead d) ls (pNext e)"
  proof (cases ls rule: rev_cases)
    case (snoc zs z)
    then show ?thesis using l1 dist h1l lh
      by (auto simp: h2_def intro!: dseg_set_next)
  qed (use l1 in simp)
  have "dseg h3 None (pEntriesHead d') (ls @ rs) None"
    using l2 r2 dist by (auto simp: h3_def d'_def dseg_append)
  moreover have "pEntriesTail d' = lastp None (ls @ rs)"
    using tail by (auto simp: d'_def lastp_def)
  moreover have same: "\<exists>x y. dces m b = Some x \<and> h3 b = Some y \<and> same_data x y"
    if b: "b \<in> set (ls @ rs)" for b
  proof -
    obtain x where x: "dces m b = Some x" using nodes b by (auto simp: node_ok_def)
    have "\<exists>y. h1 b = Some y \<and> same_data x y"
      using x by (auto simp: h1_def split: list.splits if_splits)
    then have "\<exists>z. h2 b = Some z \<and> same_data x z"
      by (auto simp: h2_def)
    with x b dist show ?thesis by (auto simp: h3_def)
  qed
  moreover have "node_ok m' c b" if "b \<in> set (ls @ rs)" for b
  proof -
    from same [OF that] obtain x y where "dces m b = Some x" "h3 b = Some y"
      and xy: "same_data x y" by blast
    moreover have "node_ok m c b" using nodes that by auto
    ultimately show ?thesis
      by (simp add: node_ok_def m'_def same_data_ok [OF xy] same_data_fields [OF xy])
  qed
  ultimately have "cache_rep m' c (ls @ rs)"
    using dist cnt by (simp add: cache_rep_def m'_def) (simp add: d'_def)
  moreover have "same_outside c (set (ls @ a # rs)) m m'"
    using d last_in_set [of ls]
    by (auto simp: same_outside_def m'_def h3_def h2_def h1_def d'_def dc_settings_def
        split: list.splits)
  ultimately show thesis
    using run e same by (intro that) (fastforce simp: m'_def h3_def)+
qed

subsection \<open>Insertion and deletion\<close>

lemma cache_rep_upd_outside [simp]:
  "a \<notin> set as \<Longrightarrow> cache_rep (m\<lparr>dces := (dces m)(a := x)\<rparr>) c as = cache_rep m c as"
  by (auto simp: cache_rep_def node_ok_def)

lemma cache_rep_alloc [simp]:
  "cache_rep (m\<lparr>mallocs := bs\<rparr>) c as = cache_rep m c as"
  "cache_rep (m\<lparr>dc_next := n\<rparr>) c as = cache_rep m c as"
  by (simp_all add: cache_rep_def node_ok_def)

lemma dcInsertEntry_rep:
  assumes rep: "cache_rep m c as" and e: "dces m a = Some e"
    and ok: "e_pdc e = c" "dce_ok e" "fInvalid e = 0" "pPrev e = None" and a: "a \<notin> set as"
  obtains m' e' where "dcInsertEntry m a = Some m'" "cache_rep m' c (a # as)"
    "dces m' a = Some e'" "same_data e e'" "same_outside c (set (a # as)) m m'"
    "\<forall>b \<in> set as. rel_option same_data (dces m b) (dces m' b)"
    "dc_next m' = dc_next m" "mallocs m' = mallocs m"
proof -
  from rep obtain d where d: "dcs m c = Some d"
    and seg: "dseg (dces m) None (pEntriesHead d) as None"
    and tail: "pEntriesTail d = lastp None as" and cnt: "cEntries d = int (length as)"
    and dist: "distinct as" and nodes: "\<forall>b \<in> set as. node_ok m c b"
    by (auto simp: cache_rep_def)
  define e' where "e' = e\<lparr>pNext := pEntriesHead d\<rparr>"
  define h where "h = (dces m)(a \<mapsto> e')"
  define h' where "h' = (case as of [] \<Rightarrow> h | x # _ \<Rightarrow> h(x \<mapsto> (the (dces m x))\<lparr>pPrev := Some a\<rparr>))"
  define d' where "d' = d\<lparr>pEntriesTail := (if as = [] then Some a else pEntriesTail d),
     pEntriesHead := Some a, cEntries := cEntries d + 1\<rparr>"
  define m' where "m' = m\<lparr>dces := h', dcs := (dcs m)(c \<mapsto> d')\<rparr>"
  have hd: "as = x # xs \<Longrightarrow> pEntriesHead d = Some x \<and> (\<exists>y. dces m x = Some y) \<and> x \<noteq> a" for x xs
    using seg a by auto
  have run: "dcInsertEntry m a = Some m'"
    using e d ok seg hd
    by (cases as) (auto simp: dcInsertEntry_def mem_simps m'_def h'_def h_def e'_def d'_def Let_def)
  have "dseg h' None (Some a) (a # as) None"
    using seg a ok(4) dist by (cases as) (auto simp: h'_def h_def e'_def)
  moreover have "h' a = Some e'" using a by (cases as) (auto simp: h'_def h_def)
  moreover have same: "\<exists>x y. dces m b = Some x \<and> h' b = Some y \<and> same_data x y"
    if b: "b \<in> set as" for b
  proof -
    obtain x where "dces m b = Some x" using nodes b by (auto simp: node_ok_def)
    then show ?thesis using a b by (auto simp: h'_def h_def split: list.splits)
  qed
  moreover have "node_ok m' c b" if "b \<in> set as" for b
  proof -
    from same [OF that] obtain x y where "dces m b = Some x" "h' b = Some y"
      and xy: "same_data x y" by blast
    moreover have "node_ok m c b" using nodes that by auto
    ultimately show ?thesis
      by (simp add: node_ok_def m'_def same_data_ok [OF xy] same_data_fields [OF xy])
  qed
  moreover have "node_ok m' c a"
    using \<open>h' a = Some e'\<close> ok by (simp add: node_ok_def m'_def e'_def dce_ok_def)
  ultimately have "cache_rep m' c (a # as)"
    using dist a cnt tail by (auto simp: cache_rep_def m'_def d'_def)
  moreover have "same_outside c (set (a # as)) m m'"
    using d by (auto simp: same_outside_def m'_def h'_def h_def d'_def dc_settings_def
        split: list.splits)
  ultimately show thesis
    using run same \<open>h' a = Some e'\<close>
    by (intro that [of m' e']) (fastforce simp: m'_def e'_def)+
qed

lemma dceDelete_rep:
  assumes "cache_rep m c as" "dces m a = Some e" "a \<notin> set as"
  shows "dceDelete m a = Some (m\<lparr>dces := (dces m)(a := None)\<rparr>)"
    "cache_rep (m\<lparr>dces := (dces m)(a := None)\<rparr>) c as"
  using assms by (simp_all add: dceDelete_def)

text \<open>An entry taken out of the list and freed.\<close>

lemma remove_delete_rep:
  assumes rep: "cache_rep m c (ls @ a # rs)"
  obtains m1 m' where "dcRemoveEntry m a = Some m1" "dceDelete m1 a = Some m'"
    "cache_rep m' c (ls @ rs)" "dces m' a = None" "same_outside c (set (ls @ a # rs)) m m'"
    "\<forall>b \<in> set (ls @ rs). rel_option same_data (dces m b) (dces m' b)"
    "dc_next m' = dc_next m" "mallocs m' = mallocs m"
proof -
  from rep have dist: "distinct (ls @ a # rs)" by (simp add: cache_rep_def)
  from dcRemoveEntry_rep [OF rep] obtain m1 e where m1: "dcRemoveEntry m a = Some m1"
    "cache_rep m1 c (ls @ rs)" "dces m1 a = Some (e\<lparr>pNext := None, pPrev := None\<rparr>)"
    "same_outside c (set (ls @ a # rs)) m m1"
    "\<forall>b \<in> set (ls @ rs). rel_option same_data (dces m b) (dces m1 b)"
    "dc_next m1 = dc_next m" "mallocs m1 = mallocs m" by metis
  let ?m' = "m1\<lparr>dces := (dces m1)(a := None)\<rparr>"
  have a: "a \<notin> set (ls @ rs)" using dist by auto
  note del = dceDelete_rep [OF m1(2,3) a]
  have "same_outside c (set (ls @ a # rs)) m ?m'"
    using m1(4) by (auto simp: same_outside_def)
  with m1 del a show thesis by (intro that [of m1 ?m']) auto
qed

subsection \<open>Search\<close>

text \<open>Whether the node at an address is the one a search looks for.\<close>

definition hits :: "'a helpers_scheme \<Rightarrow> dcmem \<Rightarrow> bool \<Rightarrow> string \<Rightarrow> nat \<Rightarrow> bool" where
  "hits E m fPrefix path a \<longleftrightarrow>
     (\<exists>e. dces m a = Some e \<and> dceMatches E fPrefix (computehash (Some path)) path e)"

lemma dcFind_loop_seg:
  "dseg (dces m) prev p as None \<Longrightarrow>
     dcFind_loop E m p fPrefix (computehash (Some path)) path
       = Some (List.find (hits E m fPrefix path) as)"
proof (induction as arbitrary: prev p)
  case Nil
  then show ?case by (subst dcFind_loop.simps) simp
next
  case (Cons a as)
  then obtain e where e: "p = Some a" "dces m a = Some e" "dseg (dces m) (Some a) (pNext e) as None"
    by auto
  then have "hits E m fPrefix path a \<longleftrightarrow> dceMatches E fPrefix (computehash (Some path)) path e"
    by (simp add: hits_def)
  with e Cons.IH [OF e(3)] show ?case by (subst dcFind_loop.simps) simp
qed

lemma dcFindDirCache_rep:
  "cache_rep m c as \<Longrightarrow>
     dcFindDirCache E m c path fPrefix = Some (List.find (hits E m fPrefix path) as)"
  by (auto simp: dcFindDirCache_def cache_rep_def dcFind_loop_seg)

lemma dceMatches_same_data:
  "same_data x y \<Longrightarrow> dceMatches E fPrefix hash path y = dceMatches E fPrefix hash path x"
  by (simp add: dceMatches_def dcePathEqualsTo_def dcePathPrefixedWith_def same_data_fields)

lemma hits_same_data:
  "rel_option same_data (dces m b) (dces m' b) \<Longrightarrow> hits E m' fPrefix path b = hits E m fPrefix path b"
  by (auto simp: hits_def option_rel_Some1 option_rel_Some2 dceMatches_same_data)

lemma same_data_trans: "same_data x y \<Longrightarrow> same_data y z \<Longrightarrow> same_data x z"
  by (simp add: same_data_def)

lemma rel_same_data_trans:
  "rel_option same_data p q \<Longrightarrow> rel_option same_data q r \<Longrightarrow> rel_option same_data p r"
  by (auto simp: option_rel_Some1 option_rel_Some2 elim!: option.rel_cases intro: same_data_trans)

subsection \<open>Invalidation\<close>

text \<open>The loop of \<open>dcInvalidate\<close> ends and removes exactly the nodes that match.\<close>

lemma dcInvalidate_rep:
  assumes "cache_rep m c as"
  shows "\<exists>m'. dcInvalidate E m c path fPrefix = Some m' \<and>
     cache_rep m' c (filter (\<lambda>a. \<not> hits E m fPrefix path a) as) \<and> same_outside c (set as) m m' \<and>
     (\<forall>b \<in> set as. \<not> hits E m fPrefix path b \<longrightarrow> rel_option same_data (dces m b) (dces m' b)) \<and>
     (\<forall>b \<in> set as. hits E m fPrefix path b \<longrightarrow> dces m' b = None) \<and>
     dc_next m' = dc_next m \<and> mallocs m' = mallocs m"
  using assms
proof (induction "length as" arbitrary: m as)
  case 0
  then show ?case
    by (subst dcInvalidate.simps) (simp add: dcFindDirCache_rep)
next
  case (Suc n)
  note rep = Suc.prems
  show ?case
  proof (cases "List.find (hits E m fPrefix path) as")
    case None
    then have none: "\<forall>a \<in> set as. \<not> hits E m fPrefix path a" by (simp add: find_None_iff)
    then have "filter (\<lambda>a. \<not> hits E m fPrefix path a) as = as" by simp
    moreover have "rel_option same_data (dces m b) (dces m b)" for b
      by (simp add: option.rel_refl)
    ultimately show ?thesis using rep None none
      by (subst dcInvalidate.simps) (simp add: dcFindDirCache_rep)
  next
    case (Some a)
    then obtain ls rs where as: "as = ls @ a # rs" and hit: "hits E m fPrefix path a"
      by (rule find_split)
    from rep have dist: "distinct as" by (simp add: cache_rep_def)
    from remove_delete_rep rep obtain m1 m2 where step: "dcRemoveEntry m a = Some m1"
      "dceDelete m1 a = Some m2" and rep2: "cache_rep m2 c (ls @ rs)" and freed: "dces m2 a = None"
      and out2: "same_outside c (set (ls @ a # rs)) m m2"
      and same2: "\<forall>b \<in> set (ls @ rs). rel_option same_data (dces m b) (dces m2 b)"
      and rest: "dc_next m2 = dc_next m" "mallocs m2 = mallocs m"
      unfolding as by metis
    have hits2: "hits E m2 fPrefix path b = hits E m fPrefix path b" if "b \<in> set (ls @ rs)" for b
      using same2 that by (intro hits_same_data) blast
    have "n = length (ls @ rs)" using Suc.hyps(2) as by simp
    from Suc.hyps(1) [OF this rep2] obtain m' where IH: "dcInvalidate E m2 c path fPrefix = Some m'"
      "cache_rep m' c (filter (\<lambda>a. \<not> hits E m2 fPrefix path a) (ls @ rs))"
      "same_outside c (set (ls @ rs)) m2 m'"
      "\<forall>b \<in> set (ls @ rs). \<not> hits E m2 fPrefix path b \<longrightarrow> rel_option same_data (dces m2 b) (dces m' b)"
      "\<forall>b \<in> set (ls @ rs). hits E m2 fPrefix path b \<longrightarrow> dces m' b = None"
      "dc_next m' = dc_next m2" "mallocs m' = mallocs m2" by blast
    have "filter (\<lambda>a. \<not> hits E m2 fPrefix path a) (ls @ rs) =
        filter (\<lambda>a. \<not> hits E m fPrefix path a) (ls @ rs)"
      using hits2 by (intro filter_cong) auto
    also have "\<dots> = filter (\<lambda>a. \<not> hits E m fPrefix path a) as"
      using as hit by simp
    finally have flt: "filter (\<lambda>a. \<not> hits E m2 fPrefix path a) (ls @ rs) =
        filter (\<lambda>a. \<not> hits E m fPrefix path a) as" .
    have "same_outside c (set as) m m'"
      using same_outside_trans [OF out2 IH(3)] by (rule same_outside_mono) (auto simp: as)
    moreover have "a \<notin> set (ls @ rs)" using dist as by auto
    then have "dces m' a = None" using IH(3) freed by (simp add: same_outside_def)
    moreover have "\<forall>b \<in> set (ls @ rs). \<not> hits E m fPrefix path b \<longrightarrow>
        rel_option same_data (dces m b) (dces m' b)"
      using IH(4) same2 hits2 rel_same_data_trans by blast
    moreover have "\<forall>b \<in> set (ls @ rs). hits E m fPrefix path b \<longrightarrow> dces m' b = None"
      using IH(5) hits2 by blast
    moreover have "dcInvalidate E m c path fPrefix = Some m'"
      using rep Some step IH(1) by (subst dcInvalidate.simps) (simp add: dcFindDirCache_rep)
    ultimately show ?thesis
      using IH(2) flt rest IH(6,7) hit as by auto
  qed
qed

subsection \<open>Deletion of the cache\<close>

lemma dcDelete_loop_seg:
  "dseg (dces m) prev p as None \<Longrightarrow> distinct as \<Longrightarrow>
     \<exists>m'. dcDelete_loop m p = Some m' \<and> dcs m' = dcs m \<and> dc_next m' = dc_next m \<and> mallocs m' = mallocs m \<and>
       dces m' = (\<lambda>a. if a \<in> set as then None else dces m a)"
proof (induction as arbitrary: m prev p)
  case Nil
  then show ?case by (subst dcDelete_loop.simps) simp
next
  case (Cons a as)
  then obtain e where e: "p = Some a" "dces m a = Some e"
    "dseg (dces m) (Some a) (pNext e) as None" by auto
  let ?m = "m\<lparr>dces := (dces m)(a := None)\<rparr>"
  have "dseg (dces ?m) (Some a) (pNext e) as None" using e(3) Cons.prems(2) by simp
  from Cons.IH [OF this] Cons.prems(2) obtain m' where
    "dcDelete_loop ?m (pNext e) = Some m'" "dcs m' = dcs m" "dc_next m' = dc_next m" "mallocs m' = mallocs m"
    "dces m' = (\<lambda>b. if b \<in> set as then None else dces ?m b)" by auto
  with e show ?case
    by (subst dcDelete_loop.simps) (auto simp: dceDelete_def fun_eq_iff)
qed

lemma dcDelete_rep:
  assumes "cache_rep m c as"
  shows "\<exists>m'. dcDelete m c = Some m' \<and> dcs m' = (dcs m)(c := None) \<and> dc_next m' = dc_next m \<and>
     mallocs m' = mallocs m \<and> dces m' = (\<lambda>a. if a \<in> set as then None else dces m a)"
proof -
  from assms obtain d where d: "dcs m c = Some d"
    "dseg (dces m) None (pEntriesHead d) as None" "distinct as" by (auto simp: cache_rep_def)
  from dcDelete_loop_seg [OF d(2,3)] obtain m' where "dcDelete_loop m (pEntriesHead d) = Some m'"
    "dcs m' = dcs m" "dc_next m' = dc_next m" "mallocs m' = mallocs m" "dces m' = (\<lambda>a. if a \<in> set as then None else dces m a)" by auto
  with d(1) show ?thesis by (auto simp: dcDelete_def)
qed

end
