(* ===== verification/Dircache_Spec.thy ===== *)
theory Dircache_Spec
  imports Dircache_List
begin

text \<open>
  What the cache promises: a list of directory listings, newest first, bounded in number. A view
  of a cache is its settings and the listings; the listings being written are kept apart. Every
  operation of the public interface is shown to run without undefined behaviour on a memory that
  represents a view, and to change the view as its specification function does.
\<close>

subsection \<open>Views\<close>

record listing =
  l_path :: string
  l_time :: u32
  l_infos :: "smbwrp_fileinfo list"

record view =
  v_enabled :: int
  v_exp :: u32
  v_max :: int
  v_mutex :: nat
  v_list :: "listing list"

definition abs_dce :: "DirectoryCacheEntry \<Rightarrow> listing" where
  "abs_dce e = \<lparr>l_path = pszPath e, l_time = ulLastUpdateTime e,
                l_infos = map the (take (nat (cInfos e)) (aInfos e))\<rparr>"

definition abs_node :: "dcmem \<Rightarrow> nat \<Rightarrow> listing" where
  "abs_node m a = abs_dce (the (dces m a))"

lemma abs_dce_links [simp]:
  "abs_dce (e\<lparr>pNext := p\<rparr>) = abs_dce e" "abs_dce (e\<lparr>pPrev := p\<rparr>) = abs_dce e"
  by (simp_all add: abs_dce_def)

lemma abs_dce_same_data: "same_data x y \<Longrightarrow> abs_dce y = abs_dce x"
  by (simp add: abs_dce_def same_data_fields)

lemma abs_node_same_data:
  "rel_option same_data (dces m a) (dces m' a) \<Longrightarrow> abs_node m' a = abs_node m a"
  by (auto simp: abs_node_def abs_dce_same_data elim!: option.rel_cases)

lemma dceInfos_ok:
  assumes "dce_ok e" shows "dceInfos e = Some (l_infos (abs_dce e))"
proof -
  let ?xs = "take (nat (cInfos e)) (aInfos e)"
  have "map Some (map the ?xs) = ?xs"
    using assms by (auto simp: dce_ok_def intro!: map_idI)
  then have "those ?xs = Some (map the ?xs)" by (simp only: those_Some_iff)
  moreover have "nat (cInfos e) \<le> length (aInfos e)" using assms by (auto simp: dce_ok_def)
  ultimately show ?thesis by (simp add: dceInfos_def abs_dce_def)
qed

lemma dce_ok_cInfos: "dce_ok e \<Longrightarrow> cInfos e = int (length (l_infos (abs_dce e)))"
  by (auto simp: dce_ok_def abs_dce_def)

text \<open>
  A listing that is being written: a node outside the list. The flag says that the entry was
  marked invalid because its array could not grow.
\<close>

type_synonym writers = "nat \<rightharpoonup> listing \<times> bool"

definition pending :: "dcmem \<Rightarrow> nat \<Rightarrow> nat \<Rightarrow> listing \<Rightarrow> bool \<Rightarrow> bool" where
  "pending m c a l bad \<longleftrightarrow> (\<exists>e. dces m a = Some e \<and> e_pdc e = c \<and> dce_ok e \<and> pPrev e = None \<and>
     abs_dce e = l \<and> (fInvalid e \<noteq> 0) = bad)"

definition fresh_from :: "dcmem \<Rightarrow> bool" where
  "fresh_from m \<longleftrightarrow> (\<forall>a \<ge> dc_next m. dces m a = None \<and> dcs m a = None)"

definition represents_at :: "dcmem \<Rightarrow> nat \<Rightarrow> nat list \<Rightarrow> view \<Rightarrow> writers \<Rightarrow> bool" where
  "represents_at m c as v P \<longleftrightarrow> cache_rep m c as \<and> fresh_from m \<and>
     map_option dc_settings (dcs m c) = Some (v_enabled v, v_exp v, v_max v, v_mutex v) \<and>
     v_list v = map (abs_node m) as \<and> dom P \<inter> set as = {} \<and>
     (\<forall>a l bad. P a = Some (l, bad) \<longrightarrow> pending m c a l bad)"

definition represents :: "dcmem \<Rightarrow> nat \<Rightarrow> view \<Rightarrow> writers \<Rightarrow> bool" where
  "represents m c v P \<longleftrightarrow> (\<exists>as. represents_at m c as v P)"

lemma representsI: "represents_at m c as v P \<Longrightarrow> represents m c v P"
  by (auto simp: represents_def)

lemma represents_at_dc:
  "represents_at m c as v P \<Longrightarrow> \<exists>d. dcs m c = Some d \<and> fEnabled d = v_enabled v \<and>
     ulExpirationTime d = v_exp v \<and> cMaxEntries d = v_max v \<and> dc_mutex d = v_mutex v \<and>
     cEntries d = int (length (v_list v)) \<and> pEntriesTail d = lastp None as"
  by (auto simp: represents_at_def cache_rep_def dc_settings_def)

lemma represents_at_node:
  "represents_at m c as v P \<Longrightarrow> a \<in> set as \<Longrightarrow>
     \<exists>e. dces m a = Some e \<and> e_pdc e = c \<and> dce_ok e \<and> fInvalid e = 0 \<and> abs_node m a = abs_dce e"
  using cache_rep_node [of m c as a] by (auto simp: represents_at_def abs_node_def)

text \<open>
  Several caches share one memory. A change that is apart from all caches but one leaves the others,
  and the nodes that belong to them, as they were.
\<close>

definition apart :: "ptr \<Rightarrow> dcmem \<Rightarrow> dcmem \<Rightarrow> bool" where
  "apart p m m' \<longleftrightarrow> (\<forall>c. p \<noteq> Some c \<longrightarrow> dcs m' c = dcs m c) \<and>
     (\<forall>a e. dces m a = Some e \<longrightarrow> p \<noteq> Some (e_pdc e) \<longrightarrow> dces m' a = Some e) \<and>
     (fresh_from m \<longrightarrow> fresh_from m')"

lemma apart_refl [simp]: "apart p m m"
  by (simp add: apart_def)

lemma apart_trans [trans]: "apart p m m' \<Longrightarrow> apart p m' m'' \<Longrightarrow> apart p m m''"
  by (simp add: apart_def)

lemma apart_mallocs [simp]:
  "apart p m (m'\<lparr>mallocs := bs\<rparr>) = apart p m m'" "apart p (m\<lparr>mallocs := bs\<rparr>) m' = apart p m m'"
  by (simp_all add: apart_def fresh_from_def)

lemma apart_set_dc:
  assumes "dcs m c \<noteq> None" shows "apart (Some c) m (m\<lparr>dcs := (dcs m)(c \<mapsto> d)\<rparr>)"
  using assms by (auto simp: apart_def fresh_from_def not_le intro: leI)

lemma apart_set_dce:
  assumes "dces m a = Some e" shows "apart (Some (e_pdc e)) m (m\<lparr>dces := (dces m)(a := x)\<rparr>)"
  using assms by (auto simp: apart_def fresh_from_def)

lemma apart_new_dce:
  assumes "fresh_from m"
  shows "apart p m (m\<lparr>dces := (dces m)(dc_next m \<mapsto> e), dc_next := Suc (dc_next m)\<rparr>)"
  using assms by (auto simp: apart_def fresh_from_def)

lemma apart_outside:
  assumes "same_outside c A m m'" "\<And>a. a \<in> A \<Longrightarrow> \<exists>e. dces m a = Some e \<and> e_pdc e = c"
    "dcs m c \<noteq> None" "dc_next m' = dc_next m"
  shows "apart (Some c) m m'"
proof -
  have out: "dces m' a = dces m a" if "a \<notin> A" for a using assms(1) that by (simp add: same_outside_def)
  have "dces m' a = Some e" if "dces m a = Some e" "e_pdc e \<noteq> c" for a e
    using assms(2) [of a] out [of a] that by (cases "a \<in> A") auto
  moreover have "dces m' a = None" if "dces m a = None" for a
    using assms(2) [of a] out [of a] that by (cases "a \<in> A") auto
  moreover have "dcs m' b = None" if "dcs m b = None" for b
    using assms(1,3) that by (metis same_outside_def)
  ultimately show ?thesis using assms(1,4) by (auto simp: apart_def fresh_from_def same_outside_def)
qed

text \<open>Another cache is represented as before.\<close>

lemma represents_at_apart:
  assumes "represents_at m c as v P" "apart p m m'" "p \<noteq> Some c"
  shows "represents_at m' c as v P"
proof -
  have node: "dces m' a = dces m a" if "a \<in> set as" for a
    using assms that cache_rep_node [of m c as a] by (auto simp: represents_at_def apart_def)
  have pend: "pending m' c a l bad" if "pending m c a l bad" for a l bad
    using assms(2,3) that by (auto simp: pending_def apart_def)
  have "map (abs_node m') as = map (abs_node m) as" using node by (auto simp: abs_node_def)
  moreover have "cache_rep m' c as"
    using assms node dseg_cong [of as "dces m" "dces m'"]
    by (auto simp: represents_at_def cache_rep_def node_ok_def apart_def)
  ultimately show ?thesis using assms pend by (auto simp: represents_at_def apart_def)
qed

lemma represents_apart:
  "represents m c v P \<Longrightarrow> apart p m m' \<Longrightarrow> p \<noteq> Some c \<Longrightarrow> represents m' c v P"
  by (auto simp: represents_def dest: represents_at_apart)

lemma represents_fresh: "represents m c v P \<Longrightarrow> fresh_from m"
  by (auto simp: represents_def represents_at_def)

text \<open>The frame of an operation on the nodes of the list: the writers are not touched.\<close>

lemma represents_at_step:
  assumes "represents_at m c as v P" "cache_rep m' c bs" "set bs \<subseteq> set as"
    "same_outside c (set as) m m'" "v_list v' = map (abs_node m') bs"
    "v_enabled v' = v_enabled v" "v_exp v' = v_exp v" "v_max v' = v_max v" "v_mutex v' = v_mutex v"
    "dc_next m' = dc_next m" "\<forall>a \<ge> dc_next m. dces m' a = None"
  shows "represents_at m' c bs v' P"
proof -
  have "dces m' a = dces m a" if "P a = Some x" for a x
    using assms(1,4) that by (auto simp: represents_at_def same_outside_def)
  then have "pending m' c a l bad" if "P a = Some (l, bad)" for a l bad
    using assms(1) that by (auto simp: represents_at_def pending_def)
  moreover have "dcs m' b = None" if "b \<ge> dc_next m" for b
  proof -
    have "dcs m b = None" using assms(1) that by (auto simp: represents_at_def fresh_from_def)
    moreover have "b \<noteq> c" using assms(1) calculation cache_rep_dc by (auto simp: represents_at_def)
    ultimately show ?thesis using assms(4) by (simp add: same_outside_def)
  qed
  ultimately show ?thesis
    using assms by (auto simp: represents_at_def fresh_from_def same_outside_def)
qed

subsection \<open>Specification functions\<close>

definition s_matches :: "'a helpers_scheme \<Rightarrow> string \<Rightarrow> listing \<Rightarrow> bool" where
  "s_matches E path l \<longleftrightarrow> computehash (Some (l_path l)) = computehash (Some path) \<and>
     fsphStrICmp E path (l_path l) = 0"

fun remove_first :: "('a \<Rightarrow> bool) \<Rightarrow> 'a list \<Rightarrow> 'a list" where
  "remove_first P [] = []"
| "remove_first P (x # xs) = (if P x then xs else x # remove_first P xs)"

lemma remove_first_split:
  "P x \<Longrightarrow> \<forall>y \<in> set ls. \<not> P y \<Longrightarrow> remove_first P (ls @ x # rs) = ls @ rs"
  by (induction ls) auto

lemma remove_first_set: "set (remove_first P xs) \<subseteq> set xs"
  by (induction xs) auto

lemma remove_first_length: "length (remove_first P xs) \<le> length xs"
  by (induction xs) auto

definition s_lock :: "'a helpers_scheme \<Rightarrow> view \<Rightarrow> view" where
  "s_lock E v = (if fsphRequestMutex E 10000 (v_mutex v) = err E NO_ERROR
     then v\<lparr>v_mutex := v_mutex v + 1\<rparr> else v)"

definition s_unlock :: "view \<Rightarrow> view" where
  "s_unlock v = v\<lparr>v_mutex := v_mutex v - 1\<rparr>"

definition s_read :: "'a helpers_scheme \<Rightarrow> u32 \<Rightarrow> view \<Rightarrow> string \<Rightarrow> smbwrp_fileinfo list option \<times> view" where
  "s_read E timesec v path =
     (if v_enabled v = 0 then (None, v)
      else case List.find (s_matches E path) (v_list v) of
        None \<Rightarrow> (None, v)
      | Some l \<Rightarrow> if timesec - l_time l \<ge> v_exp v
                  then (None, v\<lparr>v_list := remove_first (s_matches E path) (v_list v)\<rparr>)
                  else (Some (l_infos l), v))"

definition s_evict :: "view \<Rightarrow> view" where
  "s_evict v = (if int (length (v_list v)) \<ge> v_max v then v\<lparr>v_list := butlast (v_list v)\<rparr> else v)"

definition s_write_begin :: "'a helpers_scheme \<Rightarrow> u32 \<Rightarrow> view \<Rightarrow> string \<Rightarrow> listing option \<times> view" where
  "s_write_begin E timesec v path =
     (if v_enabled v = 0 then (None, v)
      else case List.find (s_matches E path) (v_list v) of
        None \<Rightarrow> (Some \<lparr>l_path = path, l_time = timesec, l_infos = []\<rparr>, v)
      | Some l \<Rightarrow> (Some (l\<lparr>l_time := timesec, l_infos := []\<rparr>),
                   v\<lparr>v_list := remove_first (s_matches E path) (v_list v)\<rparr>))"

definition s_invalidate :: "'a helpers_scheme \<Rightarrow> view \<Rightarrow> string \<Rightarrow> view" where
  "s_invalidate E v path = v\<lparr>v_list := filter (\<lambda>l. \<not> s_matches E path l) (v_list v)\<rparr>"

definition s_insert :: "view \<Rightarrow> listing \<Rightarrow> view" where
  "s_insert v l = v\<lparr>v_list := l # v_list v\<rparr>"

subsection \<open>Locks and searches\<close>

lemma set_dc_at:
  assumes "represents_at m c as v P" "dcs m c = Some d" "pEntriesHead d' = pEntriesHead d"
    "pEntriesTail d' = pEntriesTail d" "cEntries d' = cEntries d" "v_list v' = v_list v"
    "dc_settings d' = (v_enabled v', v_exp v', v_max v', v_mutex v')"
  shows "represents_at (m\<lparr>dcs := (dcs m)(c \<mapsto> d')\<rparr>) c as v' P"
proof -
  have "c < dc_next m" using assms(1,2) by (metis fresh_from_def leI option.distinct(1) represents_at_def)
  with assms show ?thesis
    by (simp add: represents_at_def cache_rep_def node_ok_def pending_def fresh_from_def abs_node_def)
qed

lemma lock_at:
  assumes "represents_at m c as v P"
  obtains m' where "lockRequest E m c = Some m'" "represents_at m' c as (s_lock E v) P"
    "mallocs m' = mallocs m" "dc_next m' = dc_next m" "dces m' = dces m" "apart (Some c) m m'"
proof -
  from represents_at_dc [OF assms] obtain d where d: "dcs m c = Some d" "fEnabled d = v_enabled v"
    "ulExpirationTime d = v_exp v" "cMaxEntries d = v_max v" "dc_mutex d = v_mutex v" by blast
  define d' where "d' = (if fsphRequestMutex E 10000 (dc_mutex d) = err E NO_ERROR then d\<lparr>dc_mutex := dc_mutex d + 1\<rparr> else d)"
  have run: "lockRequest E m c = Some (m\<lparr>dcs := (dcs m)(c \<mapsto> d')\<rparr>)"
    using d(1) by (simp add: lockRequest_def upd_dc_Some d'_def)
  have "represents_at (m\<lparr>dcs := (dcs m)(c \<mapsto> d')\<rparr>) c as (s_lock E v) P"
    using d(2-) by (intro set_dc_at [OF assms d(1)])
      (auto simp: s_lock_def d'_def dc_settings_def)
  then show thesis using run d(1) by (rule_tac that [rotated]) (simp_all add: apart_set_dc)
qed

lemma unlock_at:
  assumes "represents_at m c as v P"
  obtains m' where "lockRelease m c = Some m'" "represents_at m' c as (s_unlock v) P"
    "mallocs m' = mallocs m" "dc_next m' = dc_next m" "dces m' = dces m" "apart (Some c) m m'"
proof -
  from represents_at_dc [OF assms] obtain d where d: "dcs m c = Some d" "fEnabled d = v_enabled v"
    "ulExpirationTime d = v_exp v" "cMaxEntries d = v_max v" "dc_mutex d = v_mutex v" by blast
  define d' where "d' = (d\<lparr>dc_mutex := dc_mutex d - 1\<rparr>)"
  have run: "lockRelease m c = Some (m\<lparr>dcs := (dcs m)(c \<mapsto> d')\<rparr>)"
    using d(1) by (simp add: lockRelease_def upd_dc_Some d'_def)
  have "represents_at (m\<lparr>dcs := (dcs m)(c \<mapsto> d')\<rparr>) c as (s_unlock v) P"
    using d(2-) by (intro set_dc_at [OF assms d(1)])
      (auto simp: s_unlock_def d'_def dc_settings_def)
  then show thesis using run d(1) by (rule_tac that [rotated]) (simp_all add: apart_set_dc)
qed

lemma hits_at:
  "represents_at m c as v P \<Longrightarrow> a \<in> set as \<Longrightarrow>
     hits E m False path a = s_matches E path (abs_node m a)"
  using represents_at_node [of m c as v P a]
  by (auto simp: hits_def s_matches_def dceMatches_def dcePathEqualsTo_def abs_dce_def dce_ok_def)

lemma find_map: "List.find P (map f xs) = map_option f (List.find (P \<circ> f) xs)"
  by (induction xs) auto

lemma find_cong_on: "(\<And>x. x \<in> set xs \<Longrightarrow> P x = Q x) \<Longrightarrow> List.find P xs = List.find Q xs"
  by (induction xs) auto

lemma find_at:
  assumes "represents_at m c as v P"
  shows "dcFindDirCache E m c path False = Some (List.find (hits E m False path) as)"
    "List.find (s_matches E path) (v_list v) =
       map_option (abs_node m) (List.find (hits E m False path) as)"
proof -
  show "dcFindDirCache E m c path False = Some (List.find (hits E m False path) as)"
    using assms dcFindDirCache_rep by (auto simp: represents_at_def)
  have "List.find (hits E m False path) as = List.find (s_matches E path \<circ> abs_node m) as"
    using hits_at [OF assms] by (intro find_cong_on) auto
  then show "List.find (s_matches E path) (v_list v) =
       map_option (abs_node m) (List.find (hits E m False path) as)"
    using assms by (simp add: represents_at_def find_map)
qed

text \<open>A node that a search found, and where it lies in the list.\<close>

lemma find_at_split:
  assumes R: "represents_at m c as v P" and f: "List.find (hits E m False path) as = Some a"
  obtains ls rs where "as = ls @ a # rs" "v_list v = map (abs_node m) ls @ abs_node m a # map (abs_node m) rs"
    "remove_first (s_matches E path) (v_list v) = map (abs_node m) (ls @ rs)"
proof -
  from f obtain ls rs where as: "as = ls @ a # rs" "hits E m False path a"
    "\<forall>b \<in> set ls. \<not> hits E m False path b" by (rule find_split)
  then have "s_matches E path (abs_node m a)" "\<forall>y \<in> set (map (abs_node m) ls). \<not> s_matches E path y"
    using hits_at [OF R] by auto
  note rf = remove_first_split [OF this]
  have "v_list v = map (abs_node m) ls @ abs_node m a # map (abs_node m) rs"
    using R as(1) by (simp add: represents_at_def)
  with as(1) rf show thesis by (intro that) simp_all
qed

subsection \<open>Changes of the list\<close>

lemma map_abs_same:
  "\<forall>b \<in> set bs. rel_option same_data (dces m b) (dces m' b) \<Longrightarrow>
     map (abs_node m') bs = map (abs_node m) bs"
  using abs_node_same_data by auto

lemma fresh_same_outside:
  assumes "fresh_from m" "same_outside c A m m'" "\<forall>a \<in> A. a < dc_next m" 
  shows "\<forall>a \<ge> dc_next m. dces m' a = None"
proof (intro allI impI)
  fix a assume "dc_next m \<le> a"
  with assms have "a \<notin> A" "dces m a = None" by (auto simp: fresh_from_def not_less)
  with assms(2) show "dces m' a = None" by (simp add: same_outside_def)
qed

lemma list_below_next:
  assumes "represents_at m c as v P" shows "\<forall>a \<in> set as. a < dc_next m"
proof
  fix a assume "a \<in> set as"
  with represents_at_node [OF assms] have "dces m a \<noteq> None" by blast
  with assms show "a < dc_next m"
    by (metis fresh_from_def leI represents_at_def)
qed

lemma list_apart:
  assumes "represents_at m c as v P" "same_outside c (set as) m m'" "dc_next m' = dc_next m"
  shows "apart (Some c) m m'"
proof (rule apart_outside [OF assms(2) _ _ assms(3)])
  show "\<exists>e. dces m a = Some e \<and> e_pdc e = c" if "a \<in> set as" for a
    using represents_at_node [OF assms(1) that] by auto
  show "dcs m c \<noteq> None" using represents_at_dc [OF assms(1)] by auto
qed

lemma remove_delete_at:
  assumes R: "represents_at m c (ls @ a # rs) v P"
  obtains m1 m' where "dcRemoveEntry m a = Some m1" "dceDelete m1 a = Some m'"
    "represents_at m' c (ls @ rs) (v\<lparr>v_list := map (abs_node m) (ls @ rs)\<rparr>) P"
    "mallocs m' = mallocs m" "apart (Some c) m m'"
proof -
  have rep: "cache_rep m c (ls @ a # rs)" and fr: "fresh_from m"
    using R by (auto simp: represents_at_def)
  from remove_delete_rep [OF rep] obtain m1 m' where step: "dcRemoveEntry m a = Some m1"
    "dceDelete m1 a = Some m'" and rep': "cache_rep m' c (ls @ rs)"
    and out: "same_outside c (set (ls @ a # rs)) m m'"
    and same: "\<forall>b \<in> set (ls @ rs). rel_option same_data (dces m b) (dces m' b)"
    and rest: "dc_next m' = dc_next m" "mallocs m' = mallocs m" by metis
  have "represents_at m' c (ls @ rs) (v\<lparr>v_list := map (abs_node m) (ls @ rs)\<rparr>) P"
    using rest fresh_same_outside [OF fr out list_below_next [OF R]] map_abs_same [OF same]
    by (intro represents_at_step [OF R rep' _ out]) auto
  with step rest list_apart [OF R out] show thesis by (intro that)
qed

lemma invalidate_at:
  assumes R: "represents_at m c as v P"
  obtains m' bs where "dcInvalidate E m c path False = Some m'"
    "represents_at m' c bs (s_invalidate E v path) P" "mallocs m' = mallocs m" "apart (Some c) m m'"
proof -
  have rep: "cache_rep m c as" and fr: "fresh_from m" and vl: "v_list v = map (abs_node m) as"
    using R by (auto simp: represents_at_def)
  let ?bs = "filter (\<lambda>a. \<not> hits E m False path a) as"
  from dcInvalidate_rep [OF rep] obtain m' where run: "dcInvalidate E m c path False = Some m'"
    and rep': "cache_rep m' c ?bs" and out: "same_outside c (set as) m m'"
    and same: "\<forall>b \<in> set as. \<not> hits E m False path b \<longrightarrow> rel_option same_data (dces m b) (dces m' b)"
    and rest: "dc_next m' = dc_next m" "mallocs m' = mallocs m" by blast
  have "map (abs_node m') ?bs = map (abs_node m) ?bs"
    using same by (intro map_abs_same) auto
  also have "\<dots> = filter (\<lambda>l. \<not> s_matches E path l) (v_list v)"
    unfolding vl filter_map using hits_at [OF R, of _ E path]
    by (auto intro!: arg_cong [where f = "map _"] filter_cong)
  finally have "represents_at m' c ?bs (s_invalidate E v path) P"
    using rest fresh_same_outside [OF fr out list_below_next [OF R]]
    by (intro represents_at_step [OF R rep' _ out]) (auto simp: s_invalidate_def)
  with run rest list_apart [OF R out] show thesis by (intro that)
qed

subsection \<open>Writers\<close>

lemma represents_at_pending:
  "represents_at m c as v P \<Longrightarrow> P a = Some (l, bad) \<Longrightarrow> pending m c a l bad \<and> a \<notin> set as"
  by (auto simp: represents_at_def)

lemma add_writer_at:
  "represents_at m c as v P \<Longrightarrow> pending m c a l bad \<Longrightarrow> a \<notin> set as \<Longrightarrow>
     represents_at m c as v (P(a \<mapsto> (l, bad)))"
  by (auto simp: represents_at_def)

lemma set_outside_at:
  assumes "represents_at m c as v P" "a \<notin> set as" "a < dc_next m"
  shows "represents_at (m\<lparr>dces := (dces m)(a := x)\<rparr>) c as v (P(a := None))"
  using assms by (auto simp: represents_at_def pending_def fresh_from_def abs_node_def)

lemma represents_at_below: "represents_at m c as v P \<Longrightarrow> dces m a = Some e \<Longrightarrow> a < dc_next m"
  by (metis fresh_from_def leI option.distinct(1) represents_at_def)

lemma set_writer_at:
  assumes R: "represents_at m c as v P" and "dces m a = Some e" "a \<notin> set as" and
    "e_pdc e' = c" "dce_ok e'" "pPrev e' = None"
  shows "represents_at (m\<lparr>dces := (dces m)(a \<mapsto> e')\<rparr>) c as v (P(a \<mapsto> (abs_dce e', fInvalid e' \<noteq> 0)))"
proof -
  let ?m = "m\<lparr>dces := (dces m)(a \<mapsto> e')\<rparr>"
  have "represents_at ?m c as v (P(a := None))"
    using assms represents_at_below [OF R] by (intro set_outside_at) auto
  moreover have "pending ?m c a (abs_dce e') (fInvalid e' \<noteq> 0)"
    using assms by (simp add: pending_def)
  ultimately have "represents_at ?m c as v ((P(a := None))(a \<mapsto> (abs_dce e', fInvalid e' \<noteq> 0)))"
    using assms(3) by (intro add_writer_at)
  then show ?thesis by simp
qed

lemma set_alloc_at:
  "represents_at m c as v P \<Longrightarrow> represents_at (m\<lparr>mallocs := bs\<rparr>) c as v P"
  by (auto simp: represents_at_def fresh_from_def pending_def abs_node_def)

lemma malloc_cases:
  obtains bs where "malloc m = (True, m\<lparr>mallocs := bs\<rparr>)" | bs where "malloc m = (False, m\<lparr>mallocs := bs\<rparr>)"
proof (cases "mallocs m")
  case Nil
  then have "malloc m = (True, m\<lparr>mallocs := []\<rparr>)" by (simp add: malloc_def)
  then show thesis by (rule that(1))
next
  case (Cons b bs)
  then show thesis using that by (cases b) (auto simp: malloc_def)
qed

lemma malloc_granted [simp]: "mallocs m = [] \<Longrightarrow> malloc m = (True, m)"
  by (simp add: malloc_def)

text \<open>The store appends an element to the listing that is being written.\<close>

lemma take_Suc_update:
  "n < length xs \<Longrightarrow> take (Suc n) (xs[n := x]) = take n xs @ [x]"
  by (simp add: take_Suc_conv_app_nth)

lemma dceStore_at:
  assumes R: "represents_at m c as v P" and P: "P a = Some (l, bad)"
    and e: "dces m a = Some e" "cInfos e < cInfosAllocated e"
  obtains m' where "dceStore m a f = Some m'"
    "represents_at m' c as v (P(a \<mapsto> (l\<lparr>l_infos := l_infos l @ [f]\<rparr>, bad)))"
    "mallocs m' = mallocs m" "apart (Some c) m m'"
proof -
  from represents_at_pending [OF R P] e(1) have W: "e_pdc e = c" "dce_ok e" "pPrev e = None"
    "abs_dce e = l" "(fInvalid e \<noteq> 0) = bad" "a \<notin> set as" by (auto simp: pending_def)
  define e' where "e' = e\<lparr>aInfos := (aInfos e)[nat (cInfos e) := Some f], cInfos := cInfos e + 1\<rparr>"
  from W(2) e(2) have n: "0 \<le> cInfos e" "nat (cInfos e) < length (aInfos e)"
    and n1: "nat (cInfos e + 1) = Suc (nat (cInfos e))"
    by (auto simp: dce_ok_def)
  have "dce_ok e'" using W(2) n e(2) n1 by (auto simp: dce_ok_def e'_def take_Suc_update)
  moreover have "abs_dce e' = l\<lparr>l_infos := l_infos l @ [f]\<rparr>"
    using n n1 by (simp add: W(4) [symmetric] abs_dce_def e'_def take_Suc_update)
  ultimately have "represents_at (m\<lparr>dces := (dces m)(a \<mapsto> e')\<rparr>) c as v
      (P(a \<mapsto> (l\<lparr>l_infos := l_infos l @ [f]\<rparr>, bad)))"
    using set_writer_at [OF R e(1) W(6), of e'] W by (simp add: e'_def)
  moreover have "dceStore m a f = Some (m\<lparr>dces := (dces m)(a \<mapsto> e')\<rparr>)"
    using n e(1) by (simp add: dceStore_def upd_dce_Some e'_def)
  ultimately show thesis using apart_set_dce [OF e(1), of "Some e'"] W(1)
    by (intro that [of "m\<lparr>dces := (dces m)(a \<mapsto> e')\<rparr>"]) simp_all
qed

lemma dce_ok_grow:
  assumes "dce_ok e" "cInfos e \<le> n"
  shows "dce_ok (e\<lparr>cInfosAllocated := n, aInfos := resize (nat n) (aInfos e)\<rparr>)"
    "abs_dce (e\<lparr>cInfosAllocated := n, aInfos := resize (nat n) (aInfos e)\<rparr>) = abs_dce e"
proof -
  have "take (nat (cInfos e)) (resize (nat n) (aInfos e)) = take (nat (cInfos e)) (aInfos e)"
    using assms by (auto simp: dce_ok_def resize_def min_def)
  then show "dce_ok (e\<lparr>cInfosAllocated := n, aInfos := resize (nat n) (aInfos e)\<rparr>)"
    "abs_dce (e\<lparr>cInfosAllocated := n, aInfos := resize (nat n) (aInfos e)\<rparr>) = abs_dce e"
    using assms by (auto simp: dce_ok_def abs_dce_def resize_def)
qed

text \<open>
  An element is appended, after the array has grown when it is full; when it cannot grow the
  entry is marked invalid and keeps its elements.
\<close>

lemma dceWriteEntry_at:
  assumes R: "represents_at m c as v P" and P: "P a = Some (l, bad)"
  obtains (stored) m' where "dceWriteEntry m a f = Some m'"
    "represents_at m' c as v (P(a \<mapsto> (l\<lparr>l_infos := l_infos l @ [f]\<rparr>, bad)))"
    "mallocs m = [] \<longrightarrow> mallocs m' = []" "apart (Some c) m m'"
  | (full) m' where "dceWriteEntry m a f = Some m'" "represents_at m' c as v (P(a \<mapsto> (l, True)))"
    "mallocs m \<noteq> []" "apart (Some c) m m'"
proof -
  from represents_at_pending [OF R P] obtain e where e: "dces m a = Some e"
    and W: "e_pdc e = c" "dce_ok e" "pPrev e = None" "abs_dce e = l" "(fInvalid e \<noteq> 0) = bad"
    "a \<notin> set as" by (auto simp: pending_def)
  show thesis
  proof (cases "cInfos e \<ge> cInfosAllocated e")
    case False
    from dceStore_at [OF R P e, of f] False obtain m' where "dceStore m a f = Some m'"
      "represents_at m' c as v (P(a \<mapsto> (l\<lparr>l_infos := l_infos l @ [f]\<rparr>, bad)))"
      "mallocs m' = mallocs m" "apart (Some c) m m'" by auto
    with False e show thesis by (intro stored [of m']) (auto simp: dceWriteEntry_def)
  next
    case full': True
    let ?n = "cInfosAllocated e + cdiv (cInfosAllocated e) 2 + 1"
    have "0 \<le> cInfos e" "cInfos e \<le> cInfosAllocated e" using W(2) by (auto simp: dce_ok_def)
    then have n: "cInfos e < ?n" by simp
    show thesis
    proof (cases m rule: malloc_cases)
      case (1 bs)
      let ?m = "m\<lparr>mallocs := bs\<rparr>"
      define e' where "e' = e\<lparr>cInfosAllocated := ?n, aInfos := resize (nat ?n) (aInfos e)\<rparr>"
      let ?m' = "?m\<lparr>dces := (dces m)(a \<mapsto> e')\<rparr>"
      have e'_ok: "dce_ok e'" "abs_dce e' = l" "e_pdc e' = c" "pPrev e' = None" "fInvalid e' = fInvalid e"
        using dce_ok_grow [OF W(2), of ?n] n W by (simp_all add: e'_def)
      have "represents_at ?m' c as v (P(a \<mapsto> (l, bad)))"
        using set_writer_at [OF set_alloc_at [OF R, of bs], of a e e'] e e'_ok W(5,6) by simp
      from dceStore_at [OF this, of a l bad e' f] obtain m' where "dceStore ?m' a f = Some m'"
        "represents_at m' c as v (P(a \<mapsto> (l\<lparr>l_infos := l_infos l @ [f]\<rparr>, bad)))"
        "mallocs m' = bs" "apart (Some c) ?m' m'" using n by (auto simp: e'_def)
      moreover from this(1) have "dceWriteEntry m a f = Some m'"
        using full' e 1 by (simp add: dceWriteEntry_def upd_dce_Some e'_def)
      moreover have "mallocs m = [] \<longrightarrow> bs = []"
        using 1 malloc_granted [of m] by (metis dcmem.select_convs(4) dcmem.surjective dcmem.update_convs(4) prod.inject)
      moreover have "apart (Some c) m ?m'"
        using apart_set_dce [of ?m a e "Some e'"] e W(1) by simp
      ultimately show thesis by (intro stored [of m']) (auto intro: apart_trans)
    next
      case (2 bs)
      let ?m = "m\<lparr>mallocs := bs\<rparr>"
      have "represents_at (?m\<lparr>dces := (dces m)(a \<mapsto> e\<lparr>fInvalid := 1\<rparr>)\<rparr>) c as v (P(a \<mapsto> (l, True)))"
        using set_writer_at [OF set_alloc_at [OF R, of bs], of a e "e\<lparr>fInvalid := 1\<rparr>"] e W
        by (simp add: dce_ok_def abs_dce_def)
      moreover have "dceWriteEntry m a f = Some (?m\<lparr>dces := (dces m)(a \<mapsto> e\<lparr>fInvalid := 1\<rparr>)\<rparr>)"
        using full' e 2 by (simp add: dceWriteEntry_def upd_dce_Some)
      moreover have "mallocs m \<noteq> []" using 2 malloc_granted [of m] by auto
      moreover have "apart (Some c) m (?m\<lparr>dces := (dces m)(a \<mapsto> e\<lparr>fInvalid := 1\<rparr>)\<rparr>)"
        using apart_set_dce [of ?m a e "Some (e\<lparr>fInvalid := 1\<rparr>)"] e W(1) by simp
      ultimately show thesis by (intro full)
    qed
  qed
qed

lemma dceAdjust_at:
  assumes R: "represents_at m c as v P" and P: "P a = Some (l, bad)" and M: "mallocs m = []"
  obtains m' where "dceAdjust m a = Some m'" "represents_at m' c as v P" "mallocs m' = []" "apart (Some c) m m'"
proof -
  from represents_at_pending [OF R P] obtain e where e: "dces m a = Some e"
    and W: "e_pdc e = c" "dce_ok e" "pPrev e = None" "abs_dce e = l" "(fInvalid e \<noteq> 0) = bad"
    "a \<notin> set as" by (auto simp: pending_def)
  show thesis
  proof (cases "cInfosAllocated e - cInfos e > cdiv (cInfos e) 2")
    case False
    then show thesis using R M e by (intro that [of m]) (auto simp: dceAdjust_def)
  next
    case True
    let ?n = "cInfos e + cdiv (cInfosAllocated e - cInfos e) 2"
    define e' where "e' = e\<lparr>cInfosAllocated := ?n, aInfos := resize (nat ?n) (aInfos e)\<rparr>"
    let ?m = "m\<lparr>dces := (dces m)(a \<mapsto> e')\<rparr>"
    have n: "cInfos e \<le> ?n" using W(2) by (simp add: dce_ok_def)
    from dce_ok_grow [OF W(2) n] W have "dce_ok e'" "abs_dce e' = l" "e_pdc e' = c" "pPrev e' = None"
      "(fInvalid e' \<noteq> 0) = bad" by (simp_all add: e'_def)
    with set_writer_at [OF R e W(6), of e'] P have "represents_at ?m c as v P"
      by (simp add: map_upd_triv)
    moreover have "dceAdjust m a = Some ?m"
      using True e M by (simp add: dceAdjust_def upd_dce_Some e'_def Let_def)
    ultimately show thesis using M apart_set_dce [OF e, of "Some e'"] W(1) by (intro that [of ?m]) simp_all
  qed
qed

lemma dceDelete_writer_at:
  assumes R: "represents_at m c as v P" and P: "P a = Some (l, bad)"
  obtains m' where "dceDelete m a = Some m'" "represents_at m' c as v (P(a := None))"
    "mallocs m' = mallocs m" "apart (Some c) m m'"
proof -
  from represents_at_pending [OF R P] obtain e where e: "dces m a = Some e" "a \<notin> set as" "e_pdc e = c"
    by (auto simp: pending_def)
  then show thesis
    using set_outside_at [OF R e(2) represents_at_below [OF R e(1)], of None] apart_set_dce [OF e(1), of None]
    by (intro that [of "m\<lparr>dces := (dces m)(a := None)\<rparr>"]) (simp_all add: dceDelete_def)
qed

lemma dcInsertEntry_at:
  assumes R: "represents_at m c as v P" and P: "P a = Some (l, False)"
  obtains m' where "dcInsertEntry m a = Some m'"
    "represents_at m' c (a # as) (s_insert v l) (P(a := None))" "mallocs m' = mallocs m" "apart (Some c) m m'"
proof -
  from represents_at_pending [OF R P] obtain e where e: "dces m a = Some e"
    and W: "e_pdc e = c" "dce_ok e" "fInvalid e = 0" "pPrev e = None" "a \<notin> set as"
    and l: "abs_dce e = l" by (auto simp: pending_def)
  have rep: "cache_rep m c as" and fr: "fresh_from m" using R by (auto simp: represents_at_def)
  from dcInsertEntry_rep [OF rep e W] obtain m' e' where run: "dcInsertEntry m a = Some m'"
    and rep': "cache_rep m' c (a # as)" and e': "dces m' a = Some e'" "same_data e e'"
    and out: "same_outside c (set (a # as)) m m'"
    and same: "\<forall>b \<in> set as. rel_option same_data (dces m b) (dces m' b)"
    and rest: "dc_next m' = dc_next m" "mallocs m' = mallocs m" by metis
  have below: "\<forall>b \<in> set (a # as). b < dc_next m"
    using list_below_next [OF R] represents_at_below [OF R e] by simp
  have dc: "dcs m' b = None" if "b \<ge> dc_next m" for b
  proof -
    have "dcs m b = None" using fr that by (simp add: fresh_from_def)
    moreover from this have "b \<noteq> c" using cache_rep_dc [OF rep] by auto
    ultimately show ?thesis using out by (simp add: same_outside_def)
  qed
  have "fresh_from m'"
    using fresh_same_outside [OF fr out below] dc rest(1) by (simp add: fresh_from_def)
  moreover have "abs_node m' a = l" using e' l abs_dce_same_data by (simp add: abs_node_def)
  moreover have "pending m' c b k bad" if "(P(a := None)) b = Some (k, bad)" for b k bad
  proof -
    have b: "P b = Some (k, bad)" "b \<noteq> a" using that by (auto split: if_splits)
    with R have "b \<notin> set as" "pending m c b k bad" by (auto simp: represents_at_def)
    moreover have "dces m' b = dces m b" using out b(2) calculation(1) by (simp add: same_outside_def)
    ultimately show ?thesis by (simp add: pending_def)
  qed
  ultimately have "represents_at m' c (a # as) (s_insert v l) (P(a := None))"
    using R rep' out map_abs_same [OF same]
    by (auto simp: represents_at_def s_insert_def same_outside_def)
  moreover have "apart (Some c) m m'"
    using represents_at_node [OF R] represents_at_dc [OF R] e W(1) rest(1) by (intro apart_outside [OF out]) auto
  ultimately show thesis using run rest by (intro that)
qed

text \<open>An entry of the list is emptied and taken out, to be written anew.\<close>

lemma reuse_at:
  assumes R: "represents_at m c (ls @ a # rs) v P"
  obtains m1 m' where "dceClear m a = Some m1" "dcRemoveEntry m1 a = Some m'"
    "represents_at m' c (ls @ rs) (v\<lparr>v_list := map (abs_node m) (ls @ rs)\<rparr>)
       (P(a \<mapsto> ((abs_node m a)\<lparr>l_infos := []\<rparr>, False)))"
    "mallocs m' = mallocs m" "apart (Some c) m m'"
proof -
  have rep: "cache_rep m c (ls @ a # rs)" and fr: "fresh_from m" and dist: "distinct (ls @ a # rs)"
    using R by (auto simp: represents_at_def cache_rep_def)
  from represents_at_node [OF R, of a] obtain e where e: "dces m a = Some e" "e_pdc e = c"
    "dce_ok e" "fInvalid e = 0" "abs_node m a = abs_dce e" by auto
  define e1 where "e1 = e\<lparr>cInfos := 0\<rparr>"
  let ?m1 = "m\<lparr>dces := (dces m)(a \<mapsto> e1)\<rparr>"
  have e1: "dce_ok e1" "abs_dce e1 = (abs_node m a)\<lparr>l_infos := []\<rparr>" "e_pdc e1 = c" "fInvalid e1 = 0"
    using e by (auto simp: e1_def dce_ok_def abs_dce_def)
  have "dseg (dces ?m1) None p (ls @ a # rs) None" if "dseg (dces m) None p (ls @ a # rs) None" for p
    using dseg_data [OF that e(1), of e1] by (simp add: e1_def)
  then have rep1: "cache_rep ?m1 c (ls @ a # rs)"
    using rep e1 dist by (auto simp: cache_rep_def node_ok_def)
  from dcRemoveEntry_rep [OF rep1] obtain m' e2 where run: "dcRemoveEntry ?m1 a = Some m'"
    and rep': "cache_rep m' c (ls @ rs)" and "dces ?m1 a = Some e2"
    and e': "dces m' a = Some (e2\<lparr>pNext := None, pPrev := None\<rparr>)"
    and out: "same_outside c (set (ls @ a # rs)) ?m1 m'"
    and same: "\<forall>b \<in> set (ls @ rs). rel_option same_data (dces ?m1 b) (dces m' b)"
    and rest: "dc_next m' = dc_next ?m1" "mallocs m' = mallocs ?m1" by metis
  then have e2: "e2 = e1" by simp
  have out': "same_outside c (set (ls @ a # rs)) m m'"
    using out by (auto simp: same_outside_def)
  have "map (abs_node m') (ls @ rs) = map (abs_node ?m1) (ls @ rs)" by (rule map_abs_same [OF same])
  also have "\<dots> = map (abs_node m) (ls @ rs)" using dist by (auto simp: abs_node_def)
  finally have "represents_at m' c (ls @ rs) (v\<lparr>v_list := map (abs_node m) (ls @ rs)\<rparr>) P"
    using rest fresh_same_outside [OF fr out' list_below_next [OF R]]
    by (intro represents_at_step [OF R rep' _ out']) auto
  moreover have "pending m' c a ((abs_node m a)\<lparr>l_infos := []\<rparr>) False"
    using e' e1 e2 by (simp add: pending_def dce_ok_def abs_dce_def)
  moreover have "a \<notin> set (ls @ rs)" using dist by auto
  ultimately have "represents_at m' c (ls @ rs) (v\<lparr>v_list := map (abs_node m) (ls @ rs)\<rparr>)
       (P(a \<mapsto> ((abs_node m a)\<lparr>l_infos := []\<rparr>, False)))" by (intro add_writer_at)
  moreover have "dceClear m a = Some ?m1" using e by (simp add: dceClear_def upd_dce_Some e1_def)
  ultimately show thesis using run rest list_apart [OF R out'] by (intro that [of ?m1 m']) simp_all
qed

text \<open>A new entry.\<close>

lemma dceCreate_at:
  assumes R: "represents_at m c as v P" and M: "mallocs m = []" and n: "0 \<le> n"
  obtains a m' where "dceCreate E m c path n = Some (err E NO_ERROR, Some a, m')" "P a = None"
    "represents_at m' c as v (P(a \<mapsto> (\<lparr>l_path = path, l_time = 0, l_infos = []\<rparr>, False)))"
    "mallocs m' = []" "a \<notin> set as" "dces m a = None" "apart (Some c) m m'"
proof -
  define a where "a = dc_next m"
  define e where "e = \<lparr>pNext = None, pPrev = None, e_pdc = c, aInfos = replicate (nat n) None,
    cInfos = 0, cInfosAllocated = n, pszPath = path, ulHash = computehash (Some path),
    ulLastUpdateTime = 0, fInvalid = 0\<rparr>"
  let ?m = "m\<lparr>dces := (dces m)(a \<mapsto> e), dc_next := Suc a\<rparr>"
  have "dces m a = None" using R by (simp add: represents_at_def fresh_from_def a_def)
  then have a: "a \<notin> set as" "P a = None" "dces m a = None"
    using represents_at_node [OF R, of a] R by (auto simp: represents_at_def pending_def)
      (metis not_None_eq option.distinct(1) surj_pair)
  have R1: "represents_at (m\<lparr>dc_next := Suc a\<rparr>) c as v P"
    using R by (auto simp: represents_at_def fresh_from_def pending_def abs_node_def a_def)
  have "represents_at ?m c as v (P(a := None))"
    using set_outside_at [OF R1 a(1), of "Some e"] by (cases m) simp
  moreover have "pending ?m c a \<lparr>l_path = path, l_time = 0, l_infos = []\<rparr> False"
    using n by (simp add: pending_def e_def dce_ok_def abs_dce_def)
  ultimately have "represents_at ?m c as v ((P(a := None))(a \<mapsto> (\<lparr>l_path = path, l_time = 0, l_infos = []\<rparr>, False)))"
    using a(1) by (intro add_writer_at)
  moreover have "dceCreate E m c path n = Some (err E NO_ERROR, Some a, ?m)"
    using M by (simp add: dceCreate_def e_def a_def Let_def)
  moreover have "apart (Some c) m ?m" using R by (simp add: a_def apart_new_dce represents_at_def)
  ultimately show thesis using a M by (intro that [of a ?m]) simp_all
qed

end
