(* ===== verification/Dircache_Ops.thy ===== *)
theory Dircache_Ops
  imports Dircache_Spec
begin

text \<open>
  The public interface of \<open>dircache.c\<close> against its specification: each operation, called on a
  memory that represents a view, returns (no undefined behaviour, no endless loop), the new memory
  represents the view the specification gives, and the result is the one the specification gives.
\<close>

subsection \<open>Reading\<close>

lemma dcRead_at:
  assumes R: "represents_at m c as v P"
  obtains m' bs where "dcRead E timesec m c path False =
      Some (case fst (s_read E timesec v path) of
              None \<Rightarrow> (CacheFault, [], None, m')
            | Some infos \<Rightarrow> (CacheOk, infos, Some (int (length infos)), m'))"
    "represents_at m' c bs (snd (s_read E timesec v path)) P" "mallocs m' = mallocs m" "apart (Some c) m m'"
proof -
  from represents_at_dc [OF R] obtain d where d: "dcs m c = Some d" "fEnabled d = v_enabled v"
    "ulExpirationTime d = v_exp v" by blast
  note F = find_at [OF R, of E path]
  show thesis
  proof (cases "v_enabled v = 0")
    case True
    then show ?thesis using d R by (intro that [of m as]) (simp_all add: dcRead_def s_read_def)
  next
    case on: False
    show ?thesis
    proof (cases "List.find (hits E m False path) as")
      case None
      then show ?thesis using d R F on
        by (intro that [of m as]) (simp_all add: dcRead_def s_read_def)
    next
      case (Some a)
      from find_at_split [OF R Some] obtain ls rs where as: "as = ls @ a # rs"
        and rf: "remove_first (s_matches E path) (v_list v) = map (abs_node m) (ls @ rs)" by metis
      from represents_at_node [OF R, of a] as obtain e where e: "dces m a = Some e" "dce_ok e"
        "abs_node m a = abs_dce e" by auto
      have t: "l_time (abs_dce e) = ulLastUpdateTime e" by (simp add: abs_dce_def)
      show ?thesis
      proof (cases "dceExpired timesec e (ulExpirationTime d)")
        case False
        then show ?thesis using d R F on Some e t
          by (intro that [of m as]) (simp_all add: dcRead_def s_read_def dceExpired_def dceInfos_ok dce_ok_cInfos)
      next
        case True
        from R as have "represents_at m c (ls @ a # rs) v P" by simp
        from remove_delete_at [OF this] obtain m1 m' where "dcRemoveEntry m a = Some m1"
          "dceDelete m1 a = Some m'" "mallocs m' = mallocs m" "apart (Some c) m m'"
          "represents_at m' c (ls @ rs) (v\<lparr>v_list := map (abs_node m) (ls @ rs)\<rparr>) P" by metis
        then show ?thesis using True d F on Some e t rf
          by (intro that [of m' "ls @ rs"]) (simp_all add: dcRead_def s_read_def dceExpired_def)
      qed
    qed
  qed
qed

text \<open>What \<open>dircache_list_files\<close> answers, and the view afterwards.\<close>

definition s_list_files ::
  "'a helpers_scheme \<Rightarrow> u32 \<Rightarrow> view \<Rightarrow> string \<Rightarrow> smbwrp_fileinfo list option \<times> view" where
  "s_list_files E timesec v path =
     (let (r, v') = s_read E timesec (s_lock E v) path in (r, s_unlock v'))"

lemma list_files_rep:
  assumes "represents m c v P" "dcCreateDirPath fullpath dir_mask = Some path"
  shows "\<exists>m'. represents m' c (snd (s_list_files E timesec v path)) P \<and> mallocs m' = mallocs m \<and>
     apart (Some c) m m' \<and> dircache_list_files E timesec m (Some c) fullpath dir_mask =
       Some (case fst (s_list_files E timesec v path) of
               None \<Rightarrow> (False, [], None, m')
             | Some infos \<Rightarrow> (True, infos, Some (int (length infos)), m'))"
proof -
  from assms(1) obtain as where R: "represents_at m c as v P" by (auto simp: represents_def)
  from lock_at [OF R] obtain m1 where m1: "lockRequest E m c = Some m1"
    "represents_at m1 c as (s_lock E v) P" "mallocs m1 = mallocs m" "apart (Some c) m m1" by metis
  obtain m2 bs where m2: "dcRead E timesec m1 c path False =
      Some (case fst (s_read E timesec (s_lock E v) path) of
              None \<Rightarrow> (CacheFault, [], None, m2)
            | Some infos \<Rightarrow> (CacheOk, infos, Some (int (length infos)), m2))"
    "represents_at m2 c bs (snd (s_read E timesec (s_lock E v) path)) P" "mallocs m2 = mallocs m1"
    "apart (Some c) m1 m2" by (rule dcRead_at [OF m1(2), of E timesec path])
  from unlock_at [OF m2(2)] obtain m3 where m3: "lockRelease m2 c = Some m3"
    "represents_at m3 c bs (s_unlock (snd (s_read E timesec (s_lock E v) path))) P"
    "mallocs m3 = mallocs m2" "apart (Some c) m2 m3" by metis
  have rep: "represents m3 c (snd (s_list_files E timesec v path)) P"
    using representsI [OF m3(2)] by (simp add: s_list_files_def split_beta)
  have res: "fst (s_list_files E timesec v path) = fst (s_read E timesec (s_lock E v) path)"
    by (simp add: s_list_files_def split_beta)
  have "dircache_list_files E timesec m (Some c) fullpath dir_mask =
       Some (case fst (s_list_files E timesec v path) of
               None \<Rightarrow> (False, [], None, m3)
             | Some infos \<Rightarrow> (True, infos, Some (int (length infos)), m3))"
    unfolding res using assms(2) m1(1) m2(1) m3(1)
    by (cases "fst (s_read E timesec (s_lock E v) path)") (simp_all add: dircache_list_files_def)
  with rep m1(3) m2(3) m3(3) apart_trans [OF apart_trans [OF m1(4) m2(4)] m3(4)] show ?thesis by auto
qed

subsection \<open>Writing\<close>

lemma dcWriteBegin_at:
  assumes R: "represents_at m c as v P" and M: "mallocs m = []" and n: "0 \<le> n"
  obtains p m' bs where "dcWriteBegin E timesec m c path n = Some (p, m')" "mallocs m' = []" "apart (Some c) m m'"
    "case fst (s_write_begin E timesec v path) of
       None \<Rightarrow> p = None \<and> represents_at m' c bs (snd (s_write_begin E timesec v path)) P
     | Some l \<Rightarrow> \<exists>a. p = Some a \<and> P a = None \<and>
         represents_at m' c bs (snd (s_write_begin E timesec v path)) (P(a \<mapsto> (l, False)))"
proof -
  from represents_at_dc [OF R] obtain d where d: "dcs m c = Some d" "fEnabled d = v_enabled v"
    by blast
  note F = find_at [OF R, of E path]
  show thesis
  proof (cases "v_enabled v = 0")
    case True
    then show ?thesis using d R M
      by (intro that [of None m as]) (simp_all add: dcWriteBegin_def s_write_begin_def)
  next
    case on: False
    note result = that
    text \<open>The entry to write, emptied or new, then gets its time.\<close>
    have stamp: thesis
      if "represents_at m1 c bs (snd (s_write_begin E timesec v path)) (P(a \<mapsto> (l, False)))" "P a = None"
        "mallocs m1 = []" "apart (Some c) m m1" "fst (s_write_begin E timesec v path) = Some (l\<lparr>l_time := timesec\<rparr>)"
        "dcWriteBegin E timesec m c path n =
           do { m \<leftarrow> upd_dce m1 a (\<lambda>e. e\<lparr>ulLastUpdateTime := timesec\<rparr>); Some (Some a, m) }"
      for a m1 l bs
    proof -
      from represents_at_pending [OF that(1), of a l False] obtain e where
        e: "dces m1 a = Some e" "e_pdc e = c" "dce_ok e" "pPrev e = None" "abs_dce e = l"
        "fInvalid e = 0" "a \<notin> set bs" by (auto simp: pending_def)
      define e' where "e' = e\<lparr>ulLastUpdateTime := timesec\<rparr>"
      have e': "e_pdc e' = c" "dce_ok e'" "pPrev e' = None" "abs_dce e' = l\<lparr>l_time := timesec\<rparr>"
        "fInvalid e' = 0" using e by (auto simp: e'_def dce_ok_def abs_dce_def)
      have "represents_at (m1\<lparr>dces := (dces m1)(a \<mapsto> e')\<rparr>) c bs (snd (s_write_begin E timesec v path))
          (P(a \<mapsto> (l\<lparr>l_time := timesec\<rparr>, False)))"
        using set_writer_at [OF that(1) e(1) e(7) e'(1-3)] e'(4,5) by simp
      moreover from apart_set_dce [OF e(1), of "Some e'"] that(4)
      have "apart (Some c) m (m1\<lparr>dces := (dces m1)(a \<mapsto> e')\<rparr>)" by (auto simp: e(2) intro: apart_trans)
      ultimately show thesis using that(2-6) e(1)
        by (intro result [of "Some a" "m1\<lparr>dces := (dces m1)(a \<mapsto> e')\<rparr>" bs])
          (simp_all add: upd_dce_Some e'_def)
    qed
    show ?thesis
    proof (cases "List.find (hits E m False path) as")
      case None
      from dceCreate_at [OF R M n, of E path] obtain a m1 where
        m1: "dceCreate E m c path n = Some (err E NO_ERROR, Some a, m1)" "P a = None" "mallocs m1 = []" "apart (Some c) m m1"
        "represents_at m1 c as v (P(a \<mapsto> (\<lparr>l_path = path, l_time = 0, l_infos = []\<rparr>, False)))" by metis
      with None F d on show ?thesis
        by (intro stamp [of m1 as a "\<lparr>l_path = path, l_time = 0, l_infos = []\<rparr>"])
          (simp_all add: s_write_begin_def dcWriteBegin_def)
    next
      case (Some a)
      from find_at_split [OF R Some] obtain ls rs where as: "as = ls @ a # rs"
        and rf: "remove_first (s_matches E path) (v_list v) = map (abs_node m) (ls @ rs)" by metis
      from R as have R': "represents_at m c (ls @ a # rs) v P" by simp
      from reuse_at [OF R'] obtain m1 m2 where m2: "dceClear m a = Some m1" "dcRemoveEntry m1 a = Some m2"
        "represents_at m2 c (ls @ rs) (v\<lparr>v_list := map (abs_node m) (ls @ rs)\<rparr>)
           (P(a \<mapsto> ((abs_node m a)\<lparr>l_infos := []\<rparr>, False)))" "mallocs m2 = mallocs m" "apart (Some c) m m2" by metis
      have "P a = None" using R' by (cases "P a") (auto simp: represents_at_def)
      with m2 Some F d on rf M show ?thesis
        by (intro stamp [of m2 "ls @ rs" a "(abs_node m a)\<lparr>l_infos := []\<rparr>"])
          (simp_all add: s_write_begin_def dcWriteBegin_def)
    qed
  qed
qed

text \<open>
  What \<open>dircache_write_begin\<close> does to the view: the oldest listing is evicted when the cache is
  full, then the listing of the path is taken out of the list.
\<close>

definition s_begin :: "'a helpers_scheme \<Rightarrow> u32 \<Rightarrow> view \<Rightarrow> string \<Rightarrow> listing option \<times> view" where
  "s_begin E timesec v path =
     (let (l, v') = s_write_begin E timesec (s_evict (s_lock E v)) path in (l, s_unlock v'))"

lemma evict_at:
  assumes R: "represents_at m c as v P" and ne: "as \<noteq> [] \<or> v_max v > 0" and d: "dcs m c = Some d"
  obtains m' bs where
    "(if cEntries d \<ge> cMaxEntries d
      then do { a \<leftarrow> pEntriesTail d; m \<leftarrow> dcRemoveEntry m a; dceDelete m a } else Some m) = Some m'"
    "represents_at m' c bs (s_evict v) P" "mallocs m' = mallocs m" "apart (Some c) m m'"
proof -
  from represents_at_dc [OF R] d have D: "cMaxEntries d = v_max v"
    "cEntries d = int (length (v_list v))" "pEntriesTail d = lastp None as" by auto
  have vl: "v_list v = map (abs_node m) as" using R by (simp add: represents_at_def)
  show thesis
  proof (cases "cEntries d \<ge> cMaxEntries d")
    case False
    then show ?thesis using R D by (intro that [of m as]) (simp_all add: s_evict_def)
  next
    case True
    with ne D vl have "as \<noteq> []" by auto
    then obtain ls a where as: "as = ls @ [a]" by (metis rev_exhaust)
    from R have R': "represents_at m c (ls @ a # []) v P" by (simp add: as)
    from remove_delete_at [OF R'] obtain m1 m' where "dcRemoveEntry m a = Some m1"
      "dceDelete m1 a = Some m'" "mallocs m' = mallocs m" "apart (Some c) m m'"
      "represents_at m' c (ls @ []) (v\<lparr>v_list := map (abs_node m) (ls @ [])\<rparr>) P" by metis
    then show ?thesis using True D vl as
      by (intro that [of m' ls]) (simp_all add: s_evict_def lastp_def)
  qed
qed

lemma write_begin_rep:
  assumes "represents m c v P" "dcCreateDirPath fullpath dir_mask = Some path"
    "mallocs m = []" "0 \<le> n" "v_list v \<noteq> [] \<or> v_max v > 0"
  shows "\<exists>p m'. dircache_write_begin E timesec m (Some c) fullpath dir_mask n = Some (p, m') \<and>
     mallocs m' = [] \<and> apart (Some c) m m' \<and>
     (case fst (s_begin E timesec v path) of
       None \<Rightarrow> p = None \<and> represents m' c (snd (s_begin E timesec v path)) P
     | Some l \<Rightarrow> \<exists>a. p = Some a \<and> P a = None \<and>
         represents m' c (snd (s_begin E timesec v path)) (P(a \<mapsto> (l, False))))"
proof -
  from assms(1) obtain as where R: "represents_at m c as v P" by (auto simp: represents_def)
  from lock_at [OF R] obtain m1 where m1: "lockRequest E m c = Some m1"
    "represents_at m1 c as (s_lock E v) P" "mallocs m1 = mallocs m" "apart (Some c) m m1" by metis
  from represents_at_dc [OF m1(2)] obtain d where d: "dcs m1 c = Some d" by blast
  have vl: "v_list v = map (abs_node m) as" using R by (simp add: represents_at_def)
  have ne: "as \<noteq> [] \<or> v_max (s_lock E v) > 0" using assms(5) vl by (auto simp: s_lock_def)
  obtain m2 bs where m2:
    "(if cEntries d \<ge> cMaxEntries d
      then do { a \<leftarrow> pEntriesTail d; m \<leftarrow> dcRemoveEntry m1 a; dceDelete m a } else Some m1) = Some m2"
    "represents_at m2 c bs (s_evict (s_lock E v)) P" "mallocs m2 = mallocs m1" "apart (Some c) m1 m2"
    by (rule evict_at [OF m1(2) ne d])
  let ?w = "s_write_begin E timesec (s_evict (s_lock E v)) path"
  have M2: "mallocs m2 = []" using assms(3) m1(3) m2(3) by simp
  obtain p m3 cs where
    m3: "dcWriteBegin E timesec m2 c path n = Some (p, m3)" "mallocs m3 = []" "apart (Some c) m2 m3"
    "case fst ?w of None \<Rightarrow> p = None \<and> represents_at m3 c cs (snd ?w) P
     | Some l \<Rightarrow> \<exists>a. p = Some a \<and> P a = None \<and> represents_at m3 c cs (snd ?w) (P(a \<mapsto> (l, False)))"
    by (rule dcWriteBegin_at [OF m2(2) M2 assms(4), of E timesec path])
  then obtain P' where P': "represents_at m3 c cs (snd ?w) P'"
    "case fst ?w of None \<Rightarrow> p = None \<and> P' = P
     | Some l \<Rightarrow> \<exists>a. p = Some a \<and> P a = None \<and> P' = P(a \<mapsto> (l, False))"
    by (cases "fst ?w") auto
  from unlock_at [OF P'(1)] obtain m4 where m4: "lockRelease m3 c = Some m4"
    "represents_at m4 c cs (s_unlock (snd ?w)) P'" "mallocs m4 = mallocs m3" "apart (Some c) m3 m4" by metis
  have "dircache_write_begin E timesec m (Some c) fullpath dir_mask n = Some (p, m4)"
    using assms(2) m1(1) d m2(1) m3(1) m4(1) by (simp add: dircache_write_begin_def)
  moreover have "mallocs m4 = []" using m3(2) m4(3) by simp
  moreover have "apart (Some c) m m4"
    using m1(4) m2(4) m3(3) m4(4) by (blast intro: apart_trans)
  moreover have view: "snd (s_begin E timesec v path) = s_unlock (snd ?w)"
    and res: "fst (s_begin E timesec v path) = fst ?w" by (simp_all add: s_begin_def split_beta)
  moreover have "case fst ?w of
       None \<Rightarrow> p = None \<and> represents m4 c (s_unlock (snd ?w)) P
     | Some l \<Rightarrow> \<exists>a. p = Some a \<and> P a = None \<and> represents m4 c (s_unlock (snd ?w)) (P(a \<mapsto> (l, False)))"
    using P'(2) representsI [OF m4(2)] by (cases "fst ?w") auto
  ultimately show ?thesis unfolding view res by blast
qed

lemma write_entry_rep:
  assumes "represents m c v P" "P a = Some (l, bad)"
  shows "\<exists>m'. dircache_write_entry E m (Some a) finfo = Some m' \<and> apart (Some c) m m' \<and>
     (represents m' c (s_unlock (s_lock E v)) (P(a \<mapsto> (l\<lparr>l_infos := l_infos l @ [finfo]\<rparr>, bad))) \<and>
        (mallocs m = [] \<longrightarrow> mallocs m' = []) \<or>
      mallocs m \<noteq> [] \<and> represents m' c (s_unlock (s_lock E v)) (P(a \<mapsto> (l, True))))"
proof -
  from assms(1) obtain as where R: "represents_at m c as v P" by (auto simp: represents_def)
  from represents_at_pending [OF R assms(2)] obtain e where e: "dces m a = Some e" "e_pdc e = c"
    by (auto simp: pending_def)
  from lock_at [OF R] obtain m1 where m1: "lockRequest E m c = Some m1"
    "represents_at m1 c as (s_lock E v) P" "mallocs m1 = mallocs m" "dces m1 = dces m"
    "apart (Some c) m m1" by metis
  show ?thesis
  proof (rule dceWriteEntry_at [OF m1(2) assms(2), of finfo])
    fix m2 assume m2: "dceWriteEntry m1 a finfo = Some m2" "mallocs m1 = [] \<longrightarrow> mallocs m2 = []" "apart (Some c) m1 m2"
      "represents_at m2 c as (s_lock E v) (P(a \<mapsto> (l\<lparr>l_infos := l_infos l @ [finfo]\<rparr>, bad)))"
    from unlock_at [OF m2(4)] obtain m3 where m3: "lockRelease m2 c = Some m3"
      "represents_at m3 c as (s_unlock (s_lock E v)) (P(a \<mapsto> (l\<lparr>l_infos := l_infos l @ [finfo]\<rparr>, bad)))"
      "mallocs m3 = mallocs m2" "apart (Some c) m2 m3" by metis
    have "dircache_write_entry E m (Some a) finfo = Some m3"
      using e m1(1) m2(1) m3(1) by (simp add: dircache_write_entry_def)
    with representsI [OF m3(2)] m3(3) m2(2) m1(3) apart_trans [OF apart_trans [OF m1(5) m2(3)] m3(4)]
    show ?thesis by auto
  next
    fix m2 assume m2: "dceWriteEntry m1 a finfo = Some m2" "mallocs m1 \<noteq> []" "apart (Some c) m1 m2"
      "represents_at m2 c as (s_lock E v) (P(a \<mapsto> (l, True)))"
    from unlock_at [OF m2(4)] obtain m3 where m3: "lockRelease m2 c = Some m3"
      "represents_at m3 c as (s_unlock (s_lock E v)) (P(a \<mapsto> (l, True)))"
      "mallocs m3 = mallocs m2" "apart (Some c) m2 m3" by metis
    have "dircache_write_entry E m (Some a) finfo = Some m3"
      using e m1(1) m2(1) m3(1) by (simp add: dircache_write_entry_def)
    with representsI [OF m3(2)] m3(3) m2(2) m1(3) apart_trans [OF apart_trans [OF m1(5) m2(3)] m3(4)]
    show ?thesis by auto
  qed
qed

definition s_end :: "'a helpers_scheme \<Rightarrow> view \<Rightarrow> listing \<Rightarrow> bool \<Rightarrow> view" where
  "s_end E v l bad = s_unlock (if bad then s_lock E v else s_insert (s_lock E v) l)"

lemma write_end_rep:
  assumes "represents m c v P" "P a = Some (l, bad)" "mallocs m = []"
  shows "\<exists>m'. dircache_write_end E m (Some a) = Some m' \<and> mallocs m' = [] \<and> apart (Some c) m m' \<and>
     represents m' c (s_end E v l bad) (P(a := None))"
proof -
  from assms(1) obtain as where R: "represents_at m c as v P" by (auto simp: represents_def)
  from represents_at_pending [OF R assms(2)] obtain e where e: "dces m a = Some e" "e_pdc e = c"
    "(fInvalid e \<noteq> 0) = bad" by (auto simp: pending_def)
  from lock_at [OF R] obtain m1 where m1: "lockRequest E m c = Some m1"
    "represents_at m1 c as (s_lock E v) P" "mallocs m1 = mallocs m" "dces m1 = dces m"
    "apart (Some c) m m1" by metis
  show ?thesis
  proof (cases bad)
    case True
    from dceDelete_writer_at [OF m1(2) assms(2)] obtain m2 where m2: "dceDelete m1 a = Some m2"
      "represents_at m2 c as (s_lock E v) (P(a := None))" "mallocs m2 = mallocs m1" "apart (Some c) m1 m2" by metis
    from unlock_at [OF m2(2)] obtain m3 where "lockRelease m2 c = Some m3" "mallocs m3 = mallocs m2"
      "represents_at m3 c as (s_unlock (s_lock E v)) (P(a := None))" "apart (Some c) m2 m3" by metis
    moreover from this(4) m1(5) m2(4) have "apart (Some c) m m3" by (blast intro: apart_trans)
    moreover from \<open>lockRelease m2 c = Some m3\<close> have "dircache_write_end E m (Some a) = Some m3"
      using True e m1(1,4) m2(1) by (simp add: dircache_write_end_def)
    ultimately show ?thesis using True m1(3) m2(3) assms(3) representsI by (auto simp: s_end_def)
  next
    case False
    have M1: "mallocs m1 = []" using m1(3) assms(3) by simp
    from dceAdjust_at [OF m1(2) assms(2) M1] obtain m2 where m2: "dceAdjust m1 a = Some m2"
      "represents_at m2 c as (s_lock E v) P" "mallocs m2 = []" "apart (Some c) m1 m2" by metis
    from assms(2) False have "P a = Some (l, False)" by simp
    from dcInsertEntry_at [OF m2(2) this] obtain m3 where m3: "dcInsertEntry m2 a = Some m3"
      "represents_at m3 c (a # as) (s_insert (s_lock E v) l) (P(a := None))" "mallocs m3 = mallocs m2"
      "apart (Some c) m2 m3" by metis
    from unlock_at [OF m3(2)] obtain m4 where "lockRelease m3 c = Some m4" "mallocs m4 = mallocs m3"
      "represents_at m4 c (a # as) (s_unlock (s_insert (s_lock E v) l)) (P(a := None))" "apart (Some c) m3 m4" by metis
    moreover from this(4) m1(5) m2(4) m3(4) have "apart (Some c) m m4" by (blast intro: apart_trans)
    moreover from \<open>lockRelease m3 c = Some m4\<close> have "dircache_write_end E m (Some a) = Some m4"
      using False e m1(1,4) m2(1) m3(1) by (simp add: dircache_write_end_def)
    ultimately show ?thesis using False m2(3) m3(3) representsI by (auto simp: s_end_def)
  qed
qed

subsection \<open>Invalidation\<close>

definition parent_of :: "'a helpers_scheme \<Rightarrow> string \<Rightarrow> string" where
  "parent_of E path = (case fsphStrRChr E path backslash of Some i \<Rightarrow> take i path | None \<Rightarrow> [])"

lemma invalidate_parent:
  "dircache_invalidate E m p path True = dircache_invalidate E m p (parent_of E path) False"
  by (auto simp: dircache_invalidate_def parent_of_def split: option.split)

lemma invalidate_rep:
  assumes "represents m c v P"
  shows "\<exists>m'. dircache_invalidate E m (Some c) path fParent = Some m' \<and> mallocs m' = mallocs m \<and> apart (Some c) m m' \<and>
     represents m' c (s_unlock (s_invalidate E (s_lock E v) (if fParent then parent_of E path else path))) P"
proof -
  let ?path = "if fParent then parent_of E path else path"
  from assms(1) obtain as where R: "represents_at m c as v P" by (auto simp: represents_def)
  from lock_at [OF R] obtain m1 where m1: "lockRequest E m c = Some m1"
    "represents_at m1 c as (s_lock E v) P" "mallocs m1 = mallocs m" "dces m1 = dces m"
    "apart (Some c) m m1" by metis
  from invalidate_at [OF m1(2), of E ?path] obtain m2 bs where m2:
    "dcInvalidate E m1 c ?path False = Some m2" "mallocs m2 = mallocs m1" "apart (Some c) m1 m2"
    "represents_at m2 c bs (s_invalidate E (s_lock E v) ?path) P" by metis
  from unlock_at [OF m2(4)] obtain m3 where "lockRelease m2 c = Some m3" "mallocs m3 = mallocs m2"
    "represents_at m3 c bs (s_unlock (s_invalidate E (s_lock E v) ?path)) P" "apart (Some c) m2 m3" by metis
  moreover from this(4) m1(5) m2(3) have "apart (Some c) m m3" by (blast intro: apart_trans)
  moreover from \<open>lockRelease m2 c = Some m3\<close> have "dircache_invalidate E m (Some c) path fParent = Some m3"
    using m1(1) m2(1) by (cases "fsphStrRChr E path backslash"; cases fParent)
      (simp_all add: dircache_invalidate_def parent_of_def)
  ultimately show ?thesis using m1(3) m2(2) representsI by auto
qed

subsection \<open>Search for a file\<close>

text \<open>The first element of a matching listing that has the name; expiry plays no part.\<close>

fun s_find_in :: "'a helpers_scheme \<Rightarrow> u32 \<Rightarrow> listing list \<Rightarrow> string \<Rightarrow> string \<Rightarrow>
    (smbwrp_fileinfo \<times> u32) option" where
  "s_find_in E timesec [] parent name = None"
| "s_find_in E timesec (l # ls) parent name =
     (case (if s_matches E parent l
            then List.find (\<lambda>i. fsphStrICmp E (fi_fname i) name = 0) (l_infos l) else None) of
        Some i \<Rightarrow> Some (i, timesec - l_time l)
      | None \<Rightarrow> s_find_in E timesec ls parent name)"

lemma dcFindPath_loop_seg:
  assumes "dseg (dces m) prev p as None" "\<forall>a \<in> set as. node_ok m c a"
  shows "dcFindPath_loop E timesec m p (computehash (Some parent)) parent name
    = Some (s_find_in E timesec (map (abs_node m) as) parent name)"
  using assms
proof (induction as arbitrary: prev p)
  case Nil
  then show ?case by (subst dcFindPath_loop.simps) simp
next
  case (Cons a as)
  then obtain e where e: "p = Some a" "dces m a = Some e" "dseg (dces m) (Some a) (pNext e) as None"
    "dce_ok e" by (auto simp: node_ok_def)
  have IH: "dcFindPath_loop E timesec m (pNext e) (computehash (Some parent)) parent name
      = Some (s_find_in E timesec (map (abs_node m) as) parent name)"
    using Cons.IH [OF e(3)] Cons.prems(2) by simp
  have match: "s_matches E parent (abs_node m a) \<longleftrightarrow>
      ulHash e = computehash (Some parent) \<and> dcePathEqualsTo E e parent"
    using e(2,4) by (simp add: s_matches_def abs_node_def abs_dce_def dcePathEqualsTo_def dce_ok_def)
  have "abs_node m a = abs_dce e" "l_time (abs_dce e) = ulLastUpdateTime e"
    using e(2) by (simp_all add: abs_node_def abs_dce_def)
  then show ?case using e IH match
    by (subst dcFindPath_loop.simps) (simp add: dceInfos_ok split: option.split)
qed

definition s_find_path ::
  "'a helpers_scheme \<Rightarrow> u32 \<Rightarrow> view \<Rightarrow> string \<Rightarrow> (smbwrp_fileinfo \<times> u32) option" where
  "s_find_path E timesec v path =
     (if fsphStrChr E path CHR ''*'' \<noteq> None \<or> fsphStrChr E path CHR ''?'' \<noteq> None then None
      else s_find_in E timesec (v_list v) (parent_of E path)
        (case fsphStrRChr E path backslash of Some i \<Rightarrow> drop (i + 1) path | None \<Rightarrow> path))"

definition has_wildcard :: "'a helpers_scheme \<Rightarrow> string \<Rightarrow> bool" where
  "has_wildcard E path \<longleftrightarrow> fsphStrChr E path CHR ''*'' \<noteq> None \<or> fsphStrChr E path CHR ''?'' \<noteq> None"

lemma find_path_rep:
  assumes "represents m c v P"
  shows "\<exists>m'. dircache_find_path E timesec m (Some c) path = Some (s_find_path E timesec v path, m') \<and>
     mallocs m' = mallocs m \<and> apart (Some c) m m' \<and>
     represents m' c (if has_wildcard E path then v else s_unlock (s_lock E v)) P"
proof (cases "has_wildcard E path")
  case True
  then show ?thesis using assms
    by (simp add: dircache_find_path_def has_wildcard_def s_find_path_def)
next
  case False
  from assms(1) obtain as where R: "represents_at m c as v P" by (auto simp: represents_def)
  from lock_at [OF R] obtain m1 where m1: "lockRequest E m c = Some m1"
    "represents_at m1 c as (s_lock E v) P" "mallocs m1 = mallocs m" "dces m1 = dces m"
    "apart (Some c) m m1" by metis
  from unlock_at [OF m1(2)] obtain m2 where m2: "lockRelease m1 c = Some m2" "mallocs m2 = mallocs m1"
    "represents_at m2 c as (s_unlock (s_lock E v)) P" "apart (Some c) m1 m2" by metis
  have vl: "v_list v = map (abs_node m1) as"
    using R m1(4) by (simp add: represents_at_def abs_node_def)
  have "dcFindPath E timesec m1 c parent name = Some (s_find_in E timesec (v_list v) parent name)"
    for parent name
    using m1(2) by (auto simp: represents_at_def cache_rep_def dcFindPath_def dcFindPath_loop_seg vl)
  then have "dircache_find_path E timesec m (Some c) path = Some (s_find_path E timesec v path, m2)"
    using False m1(1) m2(1)
    by (cases "fsphStrRChr E path backslash")
      (simp_all add: dircache_find_path_def has_wildcard_def s_find_path_def parent_of_def)
  with False m1(3) m2(2) representsI [OF m2(3)] apart_trans [OF m1(5) m2(4)] show ?thesis by auto
qed

subsection \<open>Creation and deletion\<close>

lemma create_rep:
  assumes "fresh_from m" "mallocs m = []" "fsphCreateMutex E = err E NO_ERROR"
  shows "\<exists>c m'. dircache_create E m junk expiration maxEntries = Some (err E NO_ERROR, Some c, m') \<and>
     mallocs m' = [] \<and> dcs m c = None \<and> apart (Some c) m m' \<and>
     represents m' c \<lparr>v_enabled = 1, v_exp = expiration, v_max = maxEntries, v_mutex = 0, v_list = []\<rparr> Map.empty"
proof -
  let ?c = "dc_next m"
  let ?d = "\<lparr>dc_mutex = 0, pEntriesHead = None, pEntriesTail = None, cEntries = 0,
             fEnabled = 1, ulExpirationTime = expiration, cMaxEntries = maxEntries\<rparr>"
  let ?m = "m\<lparr>dcs := (dcs m)(?c \<mapsto> ?d), dc_next := Suc ?c\<rparr>"
  have "dircache_create E m junk expiration maxEntries = Some (err E NO_ERROR, Some ?c, ?m)"
    using assms by (simp add: dircache_create_def dcCreate_def dcEnable_def upd_dc_def Let_def)
  moreover have "represents_at ?m ?c []
      \<lparr>v_enabled = 1, v_exp = expiration, v_max = maxEntries, v_mutex = 0, v_list = []\<rparr> Map.empty"
    using assms(1) by (simp add: represents_at_def cache_rep_def fresh_from_def dc_settings_def)
  moreover have "dcs m ?c = None" using assms(1) by (simp add: fresh_from_def)
  moreover have "apart (Some ?c) m ?m" using assms(1) by (auto simp: apart_def fresh_from_def)
  ultimately show ?thesis using assms(2) representsI by (intro exI [of _ ?c] exI [of _ ?m]) simp
qed

lemma delete_rep:
  assumes "represents m c v P"
  shows "\<exists>m' as. dircache_delete m (Some c) = Some m' \<and> dcs m' = (dcs m)(c := None) \<and>
     apart (Some c) m m' \<and> mallocs m' = mallocs m \<and>
     v_list v = map (abs_node m) as \<and> dces m' = (\<lambda>a. if a \<in> set as then None else dces m a)"
proof -
  from assms obtain as where R: "represents_at m c as v P" by (auto simp: represents_def)
  then have as: "cache_rep m c as" "v_list v = map (abs_node m) as" by (auto simp: represents_at_def)
  from dcDelete_rep [OF as(1)] obtain m' where m': "dcDelete m c = Some m'" "dcs m' = (dcs m)(c := None)"
    "dc_next m' = dc_next m" "mallocs m' = mallocs m" "dces m' = (\<lambda>a. if a \<in> set as then None else dces m a)" by blast
  have "apart (Some c) m m'"
    using m'(2,3,5) by (auto simp: apart_def fresh_from_def dest: represents_at_node [OF R])
  with m' as(2) show ?thesis by (auto simp: dircache_delete_def)
qed

end
