(* ===== verification/Dircache_Theorems.thy ===== *)
theory Dircache_Theorems
  imports Dircache_Ops
begin

text \<open>
  What follows for the users of \<open>dircache.c\<close>: a simulation of the whole public interface by the
  specification, safety of every sequence of calls that keeps the protocol, the round trip from
  writing a listing to reading it, the bound on the number of listings, and the behaviour of the
  code outside the protocol.
\<close>

subsection \<open>Calls of the public interface\<close>

datatype (plugins only: size) dc_call =
    CallList string string | CallBegin string string int | CallEntry nat smbwrp_fileinfo
  | CallEnd nat | CallInvalidate string bool | CallFind string

datatype (plugins only: size) dc_answer =
    AnsList bool "smbwrp_fileinfo list" "int option" | AnsCtx ptr | AnsVoid
  | AnsFind "(smbwrp_fileinfo \<times> u32) option"

definition dc_run ::
  "'a helpers_scheme \<Rightarrow> u32 \<Rightarrow> nat \<Rightarrow> dc_call \<Rightarrow> dcmem \<Rightarrow> (dc_answer \<times> dcmem) option" where
  "dc_run E timesec c call m =
     (case call of
        CallList f d \<Rightarrow> do { (hit, infos, total, m) \<leftarrow> dircache_list_files E timesec m (Some c) f d;
                            Some (AnsList hit infos total, m) }
      | CallBegin f d n \<Rightarrow> do { (p, m) \<leftarrow> dircache_write_begin E timesec m (Some c) f d n;
                               Some (AnsCtx p, m) }
      | CallEntry a i \<Rightarrow> do { m \<leftarrow> dircache_write_entry E m (Some a) i; Some (AnsVoid, m) }
      | CallEnd a \<Rightarrow> do { m \<leftarrow> dircache_write_end E m (Some a); Some (AnsVoid, m) }
      | CallInvalidate p par \<Rightarrow> do { m \<leftarrow> dircache_invalidate E m (Some c) p par; Some (AnsVoid, m) }
      | CallFind p \<Rightarrow> do { (r, m) \<leftarrow> dircache_find_path E timesec m (Some c) p; Some (AnsFind r, m) })"

text \<open>The specification of a call: the answers it may give and the views they lead to.\<close>

inductive spec_step ::
  "'a helpers_scheme \<Rightarrow> u32 \<Rightarrow> dc_call \<Rightarrow> view \<times> writers \<Rightarrow> dc_answer \<Rightarrow> view \<times> writers \<Rightarrow> bool"
  for E timesec where
  list_hit: "dcCreateDirPath f d = Some path \<Longrightarrow> s_list_files E timesec v path = (Some infos, v') \<Longrightarrow>
     spec_step E timesec (CallList f d) (v, P) (AnsList True infos (Some (int (length infos)))) (v', P)"
| list_miss: "dcCreateDirPath f d = Some path \<Longrightarrow> s_list_files E timesec v path = (None, v') \<Longrightarrow>
     spec_step E timesec (CallList f d) (v, P) (AnsList False [] None) (v', P)"
| list_nodir: "dcCreateDirPath f d = None \<Longrightarrow>
     spec_step E timesec (CallList f d) (v, P) (AnsList False [] None) (v, P)"
| opened: "dcCreateDirPath f d = Some path \<Longrightarrow> s_begin E timesec v path = (Some l, v') \<Longrightarrow> P a = None \<Longrightarrow>
     spec_step E timesec (CallBegin f d n) (v, P) (AnsCtx (Some a)) (v', P(a \<mapsto> (l, False)))"
| opened_off: "dcCreateDirPath f d = Some path \<Longrightarrow> s_begin E timesec v path = (None, v') \<Longrightarrow>
     spec_step E timesec (CallBegin f d n) (v, P) (AnsCtx None) (v', P)"
| opened_nodir: "dcCreateDirPath f d = None \<Longrightarrow>
     spec_step E timesec (CallBegin f d n) (v, P) (AnsCtx None) (v, P)"
| entry: "P a = Some (l, bad) \<Longrightarrow>
     spec_step E timesec (CallEntry a i) (v, P) AnsVoid
       (s_unlock (s_lock E v), P(a \<mapsto> (l\<lparr>l_infos := l_infos l @ [i]\<rparr>, bad)))"
| close: "P a = Some (l, bad) \<Longrightarrow>
     spec_step E timesec (CallEnd a) (v, P) AnsVoid (s_end E v l bad, P(a := None))"
| invalidate: "spec_step E timesec (CallInvalidate p par) (v, P) AnsVoid
     (s_unlock (s_invalidate E (s_lock E v) (if par then parent_of E p else p)), P)"
| search: "spec_step E timesec (CallFind p) (v, P) (AnsFind (s_find_path E timesec v p))
     (if has_wildcard E p then v else s_unlock (s_lock E v), P)"

text \<open>
  The protocol of the callers: contexts come from \<open>dircache_write_begin\<close> and are used until they
  are ended. A new listing needs a cache that can hold one.
\<close>

definition permitted :: "nat set \<Rightarrow> dc_call \<Rightarrow> bool" where
  "permitted W call = (case call of CallEntry a i \<Rightarrow> a \<in> W | CallEnd a \<Rightarrow> a \<in> W
     | CallBegin f d n \<Rightarrow> 0 \<le> n | _ \<Rightarrow> True)"

definition after :: "dc_call \<Rightarrow> dc_answer \<Rightarrow> nat set \<Rightarrow> nat set" where
  "after call ans W = (case call of CallEnd a \<Rightarrow> W - {a}
     | _ \<Rightarrow> (case ans of AnsCtx (Some a) \<Rightarrow> insert a W | _ \<Rightarrow> W))"

lemma s_lock_fields [simp]:
  "v_list (s_lock E v) = v_list v" "v_max (s_lock E v) = v_max v"
  "v_enabled (s_lock E v) = v_enabled v" "v_exp (s_lock E v) = v_exp v"
  by (simp_all add: s_lock_def)

lemma s_unlock_fields [simp]:
  "v_list (s_unlock v) = v_list v" "v_max (s_unlock v) = v_max v"
  "v_enabled (s_unlock v) = v_enabled v" "v_exp (s_unlock v) = v_exp v"
  by (simp_all add: s_unlock_def)

lemma simulation_step:
  assumes R: "represents m c v P" and M: "mallocs m = []" and perm: "permitted (dom P) call"
    and room: "v_list v \<noteq> [] \<or> v_max v > 0"
  obtains ans m' v' P' where "dc_run E timesec c call m = Some (ans, m')" "mallocs m' = []"
    "spec_step E timesec call (v, P) ans (v', P')" "represents m' c v' P'"
proof (cases call)
  case (CallList f d)
  show ?thesis
  proof (cases "dcCreateDirPath f d")
    case None
    then show ?thesis using R M
      by (intro that [of _ m v P]) (auto simp: CallList dc_run_def dircache_list_files_def intro: list_nodir)
  next
    case (Some path)
    from list_files_rep [OF R Some, of E timesec] obtain m' where
      m': "represents m' c (snd (s_list_files E timesec v path)) P" "mallocs m' = mallocs m"
      "dircache_list_files E timesec m (Some c) f d =
         Some (case fst (s_list_files E timesec v path) of
               None \<Rightarrow> (False, [], None, m')
             | Some infos \<Rightarrow> (True, infos, Some (int (length infos)), m'))" by blast
    show ?thesis
    proof (cases "fst (s_list_files E timesec v path)")
      case None
      with m' M show ?thesis
        by (intro that [of "AnsList False [] None" m' "snd (s_list_files E timesec v path)" P])
          (auto simp: CallList dc_run_def intro!: list_miss [OF Some] prod_eqI)
    next
      case (Some infos)
      with m' M show ?thesis
        by (intro that [of "AnsList True infos (Some (int (length infos)))" m'
              "snd (s_list_files E timesec v path)" P])
          (auto simp: CallList dc_run_def intro!: list_hit [OF \<open>dcCreateDirPath f d = Some path\<close>] prod_eqI)
    qed
  qed
next
  case (CallBegin f d n)
  then have n: "0 \<le> n" using perm by (simp add: permitted_def)
  show ?thesis
  proof (cases "dcCreateDirPath f d")
    case None
    then show ?thesis using R M
      by (intro that [of _ m v P]) (auto simp: CallBegin dc_run_def dircache_write_begin_def intro: opened_nodir)
  next
    case (Some path)
    from write_begin_rep [OF R Some M n room, of E timesec] obtain p m' where
      m': "dircache_write_begin E timesec m (Some c) f d n = Some (p, m')" "mallocs m' = []"
      "case fst (s_begin E timesec v path) of
         None \<Rightarrow> p = None \<and> represents m' c (snd (s_begin E timesec v path)) P
       | Some l \<Rightarrow> \<exists>a. p = Some a \<and> P a = None \<and>
           represents m' c (snd (s_begin E timesec v path)) (P(a \<mapsto> (l, False)))" by blast
    show ?thesis
    proof (cases "fst (s_begin E timesec v path)")
      case None
      with m' show ?thesis
        by (intro that [of "AnsCtx None" m' "snd (s_begin E timesec v path)" P])
          (auto simp: CallBegin dc_run_def intro!: opened_off [OF Some] prod_eqI)
    next
      case l: (Some l)
      with m' obtain a where "p = Some a" "P a = None"
        "represents m' c (snd (s_begin E timesec v path)) (P(a \<mapsto> (l, False)))" by auto
      with m' l show ?thesis
        by (intro that [of "AnsCtx (Some a)" m' "snd (s_begin E timesec v path)" "P(a \<mapsto> (l, False))"])
          (auto simp: CallBegin dc_run_def intro!: opened [OF Some] prod_eqI)
    qed
  qed
next
  case (CallEntry a i)
  then obtain l bad where P: "P a = Some (l, bad)" using perm by (auto simp: permitted_def)
  from write_entry_rep [OF R P, of E i] M obtain m' where "dircache_write_entry E m (Some a) i = Some m'"
    "represents m' c (s_unlock (s_lock E v)) (P(a \<mapsto> (l\<lparr>l_infos := l_infos l @ [i]\<rparr>, bad)))"
    "mallocs m' = []" by auto
  then show ?thesis using entry [of P a l bad, OF P]
    by (intro that [of AnsVoid m']) (simp_all add: CallEntry dc_run_def)
next
  case (CallEnd a)
  then obtain l bad where P: "P a = Some (l, bad)" using perm by (auto simp: permitted_def)
  from write_end_rep [OF R P M, of E] obtain m' where "dircache_write_end E m (Some a) = Some m'"
    "mallocs m' = []" "represents m' c (s_end E v l bad) (P(a := None))" by blast
  then show ?thesis using close [of P a l bad, OF P]
    by (intro that [of AnsVoid m']) (simp_all add: CallEnd dc_run_def)
next
  case (CallInvalidate p par)
  from invalidate_rep [OF R, of E p par] obtain m' where
    "dircache_invalidate E m (Some c) p par = Some m'" "mallocs m' = mallocs m"
    "represents m' c (s_unlock (s_invalidate E (s_lock E v) (if par then parent_of E p else p))) P"
    by blast
  then show ?thesis using invalidate [of E timesec p par v P] M
    by (intro that [of AnsVoid m']) (simp_all only: CallInvalidate dc_run_def dc_call.case bind.simps)
next
  case (CallFind p)
  from find_path_rep [OF R, of E timesec p] obtain m' where
    "dircache_find_path E timesec m (Some c) p = Some (s_find_path E timesec v p, m')"
    "mallocs m' = mallocs m"
    "represents m' c (if has_wildcard E p then v else s_unlock (s_lock E v)) P" by blast
  then show ?thesis using search [of E timesec p v P] M
    by (intro that [of "AnsFind (s_find_path E timesec v p)" m'
          "if has_wildcard E p then v else s_unlock (s_lock E v)" P])
      (simp_all only: CallFind dc_run_def dc_call.case bind.simps prod.case)
qed

subsection \<open>Sequences of calls\<close>

text \<open>
  The memories a cache can have, with the contexts that are open: it is created, and then used by
  permitted calls at any time. Memory does not run out.
\<close>

inductive cache_reachable :: "'a helpers_scheme \<Rightarrow> nat \<Rightarrow> dcmem \<Rightarrow> nat set \<Rightarrow> bool"
  for E c where
  created: "fresh_from m \<Longrightarrow> mallocs m = [] \<Longrightarrow> maxEntries > 0 \<Longrightarrow>
     fsphCreateMutex E = err E NO_ERROR \<Longrightarrow>
     dircache_create E m junk expiration maxEntries = Some (rc, Some c, m') \<Longrightarrow>
     cache_reachable E c m' {}"
| called: "cache_reachable E c m W \<Longrightarrow> permitted W call \<Longrightarrow>
     dc_run E timesec c call m = Some (ans, m') \<Longrightarrow> cache_reachable E c m' (after call ans W)"

inductive_cases spec_stepE: "spec_step E timesec call (v, P) ans vP"

lemma s_read_fields: "v_max (snd (s_read E timesec v path)) = v_max v"
  by (simp add: s_read_def split: option.split)

lemma s_evict_fields [simp]: "v_max (s_evict v) = v_max v" "v_enabled (s_evict v) = v_enabled v"
  "v_exp (s_evict v) = v_exp v"
  by (simp_all add: s_evict_def)

lemma s_write_begin_fields: "v_max (snd (s_write_begin E timesec v path)) = v_max v"
  by (simp add: s_write_begin_def split: option.split)

lemma s_list_files_max: "s_list_files E timesec v path = (r, v') \<Longrightarrow> v_max v' = v_max v"
  using s_read_fields [of E timesec "s_lock E v" path] by (auto simp: s_list_files_def split_beta)

lemma s_begin_max: "s_begin E timesec v path = (r, v') \<Longrightarrow> v_max v' = v_max v"
  using s_write_begin_fields [of E timesec "s_evict (s_lock E v)" path]
  by (auto simp: s_begin_def split_beta)

lemma spec_step_max:
  "spec_step E timesec call (v, P) ans (v', P') \<Longrightarrow> v_max v' = v_max v"
  by (erule spec_stepE)
    (auto simp: s_end_def s_insert_def s_invalidate_def dest: s_list_files_max s_begin_max)

lemma spec_step_writers:
  "spec_step E timesec call (v, P) ans (v', P') \<Longrightarrow> dom P' = after call ans (dom P)"
  by (erule spec_stepE) (auto simp: after_def dom_def)

lemma cache_reachable_inv:
  "cache_reachable E c m W \<Longrightarrow>
     \<exists>v P. represents m c v P \<and> dom P = W \<and> v_max v > 0 \<and> mallocs m = []"
proof (induction rule: cache_reachable.induct)
  case (created m maxEntries junk expiration rc m')
  then show ?case
    using create_rep [of m E junk expiration maxEntries]
    by (intro exI [of _ "\<lparr>v_enabled = 1, v_exp = expiration, v_max = maxEntries, v_mutex = 0, v_list = []\<rparr>"]
        exI [of _ Map.empty]) auto
next
  case (called m W call timesec ans m')
  then obtain v P where R: "represents m c v P" and W: "dom P = W" "v_max v > 0" and M: "mallocs m = []"
    by blast
  from called.hyps(2) W(1) have perm: "permitted (dom P) call" by simp
  from W(2) have room: "v_list v \<noteq> [] \<or> v_max v > 0" by simp
  from simulation_step [OF R M perm room] called.hyps(3) obtain v' P' where
    "mallocs m' = []" and step: "spec_step E timesec call (v, P) ans (v', P')" "represents m' c v' P'"
    by (metis option.inject prod.inject)
  then show ?case
    using W spec_step_max [OF step(1)] spec_step_writers [OF step(1)]
    by (intro exI [of _ v'] exI [of _ P']) simp
qed

subsection \<open>Writing a whole listing\<close>

fun dircache_write_entries ::
  "'a helpers_scheme \<Rightarrow> dcmem \<Rightarrow> ptr \<Rightarrow> smbwrp_fileinfo list \<Rightarrow> dcmem option" where
  "dircache_write_entries E m ctx [] = Some m"
| "dircache_write_entries E m ctx (i # is) =
     do { m \<leftarrow> dircache_write_entry E m ctx i; dircache_write_entries E m ctx is }"

definition dircache_store ::
  "'a helpers_scheme \<Rightarrow> u32 \<Rightarrow> dcmem \<Rightarrow> nat \<Rightarrow> string \<Rightarrow> string \<Rightarrow> int \<Rightarrow> smbwrp_fileinfo list \<Rightarrow> dcmem option" where
  "dircache_store E timesec m c fullpath dir_mask n infos =
     do { (ctx, m) \<leftarrow> dircache_write_begin E timesec m (Some c) fullpath dir_mask n;
          m \<leftarrow> dircache_write_entries E m ctx infos;
          dircache_write_end E m ctx }"

definition same_settings :: "view \<Rightarrow> view \<Rightarrow> bool" where
  "same_settings v v' \<longleftrightarrow> v_enabled v' = v_enabled v \<and> v_exp v' = v_exp v \<and> v_max v' = v_max v"

lemma same_settings_refl [simp]: "same_settings v v"
  by (simp add: same_settings_def)

lemma same_settings_locked [simp]: "same_settings v (s_unlock (s_lock E v))"
  by (simp add: same_settings_def s_lock_def s_unlock_def)

lemma same_settings_end [simp]: "same_settings v (s_end E v l bad)"
  by (auto simp: same_settings_def s_end_def s_insert_def s_lock_def s_unlock_def)

lemma same_settings_trans: "same_settings a b \<Longrightarrow> same_settings b c \<Longrightarrow> same_settings a c"
  by (simp add: same_settings_def)

text \<open>
  The listings keep within the depth of the cache. A listing that is being written is not in the list, and
  there is room left for it.
\<close>

definition in_depth :: "view \<Rightarrow> bool" where
  "in_depth v \<longleftrightarrow> int (length (v_list v)) \<le> v_max v"

definition view_kept :: "view \<Rightarrow> view \<Rightarrow> bool" where
  "view_kept v v' \<longleftrightarrow> same_settings v v' \<and> (in_depth v \<longrightarrow> in_depth v')"

definition same_view :: "view \<Rightarrow> view \<Rightarrow> bool" where
  "same_view v v' \<longleftrightarrow> same_settings v v' \<and> v_list v' = v_list v"

definition underway :: "view \<Rightarrow> view \<Rightarrow> bool" where
  "underway v v' \<longleftrightarrow> same_settings v v' \<and> (in_depth v \<longrightarrow> int (length (v_list v')) < v_max v')"

lemma view_kept_refl [simp]: "view_kept v v"
  by (simp add: view_kept_def)

lemma view_kept_trans: "view_kept a b \<Longrightarrow> view_kept b c \<Longrightarrow> view_kept a c"
  by (auto simp: view_kept_def intro: same_settings_trans)

lemma view_kept_shorter:
  "same_settings v v' \<Longrightarrow> length (v_list v') \<le> length (v_list v) \<Longrightarrow> view_kept v v'"
  by (auto simp: view_kept_def in_depth_def same_settings_def)

lemma same_view_refl [simp]: "same_view v v"
  by (simp add: same_view_def)

lemma same_view_locked [simp]: "same_view v (s_unlock (s_lock E v))"
  by (simp add: same_view_def s_lock_def s_unlock_def same_settings_def)

lemma same_view_trans: "same_view a b \<Longrightarrow> same_view b c \<Longrightarrow> same_view a c"
  by (auto simp: same_view_def intro: same_settings_trans)

lemma underway_kept: "underway v v' \<Longrightarrow> view_kept v v'"
  by (auto simp: underway_def view_kept_def in_depth_def)

lemma underway_same: "underway a b \<Longrightarrow> same_view b c \<Longrightarrow> underway a c"
  by (auto simp: underway_def same_view_def same_settings_def)

lemma underway_after: "view_kept a b \<Longrightarrow> underway b c \<Longrightarrow> underway a c"
  by (auto simp: underway_def view_kept_def intro: same_settings_trans)

lemma underway_end: "underway v v' \<Longrightarrow> view_kept v (s_end E v' l bad)"
  by (auto simp: underway_def view_kept_def in_depth_def same_settings_def s_end_def s_insert_def s_lock_def s_unlock_def)

definition evicted :: "view \<Rightarrow> listing list" where
  "evicted v = (if int (length (v_list v)) \<ge> v_max v then butlast (v_list v) else v_list v)"

definition s_store :: "'a helpers_scheme \<Rightarrow> u32 \<Rightarrow> view \<Rightarrow> string \<Rightarrow> smbwrp_fileinfo list \<Rightarrow> listing list" where
  "s_store E timesec v path infos =
     (case List.find (s_matches E path) (evicted v) of
        None \<Rightarrow> \<lparr>l_path = path, l_time = timesec, l_infos = infos\<rparr> # evicted v
      | Some l \<Rightarrow> l\<lparr>l_time := timesec, l_infos := infos\<rparr> # remove_first (s_matches E path) (evicted v))"

lemma write_entries_rep:
  assumes "represents m c v P" "P a = Some (l, bad)" "mallocs m = []"
  shows "\<exists>m' v'. dircache_write_entries E m (Some a) infos = Some m' \<and> mallocs m' = [] \<and>
     represents m' c v' (P(a \<mapsto> (l\<lparr>l_infos := l_infos l @ infos\<rparr>, bad))) \<and>
     v_list v' = v_list v \<and> same_settings v v' \<and> apart (Some c) m m'"
  using assms
proof (induction infos arbitrary: m v P l)
  case Nil
  then show ?case by (intro exI [of _ m] exI [of _ v]) (auto simp: map_upd_triv same_settings_def)
next
  case (Cons i infos)
  from write_entry_rep [OF Cons.prems(1,2), of E i] Cons.prems(3) obtain m1 where
    m1: "dircache_write_entry E m (Some a) i = Some m1" "mallocs m1 = []"
    "represents m1 c (s_unlock (s_lock E v)) (P(a \<mapsto> (l\<lparr>l_infos := l_infos l @ [i]\<rparr>, bad)))"
    "apart (Some c) m m1" by auto
  let ?l = "l\<lparr>l_infos := l_infos l @ [i]\<rparr>"
  have "(P(a \<mapsto> (?l, bad))) a = Some (?l, bad)" by simp
  from Cons.IH [OF m1(3) this m1(2)] obtain m' v' where
    "dircache_write_entries E m1 (Some a) infos = Some m'" "mallocs m' = []"
    "represents m' c v' (P(a \<mapsto> (l\<lparr>l_infos := l_infos l @ (i # infos)\<rparr>, bad)))"
    "v_list v' = v_list v" "same_settings (s_unlock (s_lock E v)) v'"
    "apart (Some c) m1 m'" by (auto simp del: fun_upd_apply)
  with m1 show ?case
    by (intro exI [of _ m'] exI [of _ v']) (auto simp: same_settings_def intro: apart_trans simp del: fun_upd_apply)
qed

lemma store_rep:
  assumes R: "represents m c v P" and M: "mallocs m = []" and dir: "dcCreateDirPath f d = Some path"
    and n: "0 \<le> n" and on: "v_enabled v \<noteq> 0" and room: "v_max v > 0"
  shows "\<exists>m' v'. dircache_store E timesec m c f d n infos = Some m' \<and> mallocs m' = [] \<and>
     represents m' c v' P \<and> v_list v' = s_store E timesec v path infos \<and> same_settings v v'"
proof -
  from room have "v_list v \<noteq> [] \<or> v_max v > 0" by simp
  note begun = write_begin_rep [OF R dir M n this, of E timesec]
  have ev: "v_list (s_evict (s_lock E v)) = evicted v" by (simp add: s_evict_def evicted_def)
  obtain l v1 where b: "s_begin E timesec v path = (Some l, v1)" "same_settings v v1"
    "l\<lparr>l_infos := infos\<rparr> # v_list v1 = s_store E timesec v path infos" "l_infos l = []"
    using on by (cases "List.find (s_matches E path) (evicted v)")
      (auto simp: s_begin_def s_write_begin_def ev s_store_def same_settings_def)
  with begun obtain a m1 where m1: "dircache_write_begin E timesec m (Some c) f d n = Some (Some a, m1)"
    "mallocs m1 = []" "P a = None" "represents m1 c v1 (P(a \<mapsto> (l, False)))" by auto
  from write_entries_rep [OF m1(4) _ m1(2), of a l False E infos] b(4) obtain m2 v2 where
    m2: "dircache_write_entries E m1 (Some a) infos = Some m2" "mallocs m2 = []"
    "represents m2 c v2 (P(a \<mapsto> (l\<lparr>l_infos := infos\<rparr>, False)))" "v_list v2 = v_list v1"
    "same_settings v1 v2" by auto
  from write_end_rep [OF m2(3) _ m2(2), of a "l\<lparr>l_infos := infos\<rparr>" False E] obtain m3 where
    m3: "dircache_write_end E m2 (Some a) = Some m3" "mallocs m3 = []"
    "represents m3 c (s_end E v2 (l\<lparr>l_infos := infos\<rparr>) False) ((P(a \<mapsto> (l\<lparr>l_infos := infos\<rparr>, False)))(a := None))"
    by auto
  moreover have "(P(a \<mapsto> (l\<lparr>l_infos := infos\<rparr>, False)))(a := None) = P" using m1(3) by (simp add: fun_upd_idem)
  ultimately show ?thesis using m1 m2 b
    by (intro exI [of _ m3] exI [of _ "s_end E v2 (l\<lparr>l_infos := infos\<rparr>) False"])
      (auto simp: dircache_store_def s_end_def s_insert_def same_settings_def)
qed

text \<open>The head of the stored list is what a search for the path finds.\<close>

lemma s_store_hd:
  assumes "icmp_refl E"
  obtains l ls where "s_store E timesec v path infos = l # ls" "s_matches E path l"
    "l_time l = timesec" "l_infos l = infos"
proof (cases "List.find (s_matches E path) (evicted v)")
  case None
  with assms show thesis by (intro that) (auto simp: s_store_def s_matches_def)
next
  case (Some l)
  then have "s_matches E path l" by (auto simp: find_Some_iff)
  with Some show thesis
    by (intro that [of "l\<lparr>l_time := timesec, l_infos := infos\<rparr>"]) (auto simp: s_store_def s_matches_def)
qed

lemma s_store_tl:
  "x \<in> set (s_store E timesec v path infos) \<Longrightarrow> x = hd (s_store E timesec v path infos) \<or> x \<in> set (v_list v)"
  using remove_first_set [of "s_matches E path" "evicted v"]
  by (auto simp: s_store_def evicted_def dest: in_set_butlastD split: option.splits if_splits)

lemma s_store_length:
  assumes "int (length (v_list v)) \<le> v_max v" "v_max v > 0"
  shows "int (length (s_store E timesec v path infos)) \<le> v_max v"
proof -
  have "int (length (evicted v)) + 1 \<le> v_max v" using assms by (auto simp: evicted_def)
  then show ?thesis using remove_first_length [of "s_matches E path" "evicted v"]
    by (auto simp: s_store_def split: option.split)
qed

subsection \<open>The interface of a listing cache\<close>

text \<open>
  What the lister in \<open>smbwrp.c\<close> relies on: after a listing was stored, a look at the same path
  gives that listing until it expires, and no look gives anything that was not stored; after an
  invalidation a path is not found. \<open>same\<close> says that two paths share a listing.
\<close>

locale listing_cache =
  fixes inv :: "'s \<Rightarrow> bool" and same :: "'p \<Rightarrow> 'p \<Rightarrow> bool" and alive :: "'s \<Rightarrow> 't \<Rightarrow> 't \<Rightarrow> bool"
    and look :: "'t \<Rightarrow> 's \<Rightarrow> 'p \<Rightarrow> 'i list option"
    and store :: "'t \<Rightarrow> 's \<Rightarrow> 'p \<Rightarrow> 'i list \<Rightarrow> 's" and drop_path :: "'s \<Rightarrow> 'p \<Rightarrow> 's"
  assumes inv_store: "inv s \<Longrightarrow> inv (store t s p xs)"
    and inv_drop: "inv s \<Longrightarrow> inv (drop_path s p)"
    and look_store: "inv s \<Longrightarrow> alive s t0 t \<Longrightarrow> look t (store t0 s p xs) p = Some xs"
    and look_store_some: "inv s \<Longrightarrow> look t (store t0 s p xs) q = Some ys \<Longrightarrow>
          same q p \<and> ys = xs \<or> (\<exists>t'. look t' s q = Some ys)"
    and look_drop: "inv s \<Longrightarrow> look t (drop_path s p) q = Some ys \<Longrightarrow>
          \<not> same q p \<and> (\<exists>t'. look t' s q = Some ys)"
begin

text \<open>A directory listing through the cache: the server is asked only when the cache has no answer.\<close>

definition list_via :: "('p \<Rightarrow> 'i list) \<Rightarrow> 't \<Rightarrow> 's \<Rightarrow> 'p \<Rightarrow> 'i list \<times> 's" where
  "list_via fetch t s p =
     (case look t s p of Some xs \<Rightarrow> (xs, s) | None \<Rightarrow> (fetch p, store t s p (fetch p)))"

text \<open>The cache agrees with the server on everything it knows.\<close>

definition agrees :: "('p \<Rightarrow> 'i list) \<Rightarrow> 's \<Rightarrow> bool" where
  "agrees fetch s \<longleftrightarrow> (\<forall>t p xs. look t s p = Some xs \<longrightarrow> xs = fetch p)"

lemma list_via_transparent:
  assumes "inv s" "agrees fetch s" "\<And>p q. same p q \<Longrightarrow> fetch p = fetch q"
  shows "fst (list_via fetch t s p) = fetch p \<and> inv (snd (list_via fetch t s p)) \<and>
    agrees fetch (snd (list_via fetch t s p))"
proof (cases "look t s p")
  case None
  have "agrees fetch (store t s p (fetch p))"
    unfolding agrees_def using assms look_store_some unfolding agrees_def by metis
  then show ?thesis using None assms(1) inv_store by (simp add: list_via_def)
next
  case (Some xs)
  with assms show ?thesis by (auto simp: list_via_def agrees_def)
qed

text \<open>After a change on the server below one path, dropping that path restores the agreement.\<close>

lemma drop_agrees:
  assumes "inv s" "agrees fetch s" "\<And>q. \<not> same q p \<Longrightarrow> fetch' q = fetch q"
  shows "agrees fetch' (drop_path s p)"
  unfolding agrees_def using look_drop assms unfolding agrees_def by metis

lemma list_via_again:
  assumes "inv s" "alive s t0 t" "look t0 s p = None"
  shows "fst (list_via fetch' t (snd (list_via fetch t0 s p)) p) = fetch p"
  using assms look_store by (simp add: list_via_def)

end

subsection \<open>The cache of the program as a listing cache\<close>

text \<open>Listings by path: the path is given with a mask, as the callers do.\<close>

definition star :: string where "star = ''*''"

definition cache_look ::
  "'a helpers_scheme \<Rightarrow> nat \<Rightarrow> u32 \<Rightarrow> dcmem \<Rightarrow> string \<Rightarrow> smbwrp_fileinfo list option" where
  "cache_look E c timesec m path =
     (case dircache_list_files E timesec m (Some c) (path @ backslash # star) star of
        Some (True, infos, tot, m') \<Rightarrow> Some infos | _ \<Rightarrow> None)"

definition cache_put ::
  "'a helpers_scheme \<Rightarrow> nat \<Rightarrow> u32 \<Rightarrow> dcmem \<Rightarrow> string \<Rightarrow> smbwrp_fileinfo list \<Rightarrow> dcmem" where
  "cache_put E c timesec m path infos =
     the (dircache_store E timesec m c (path @ backslash # star) star 128 infos)"

definition cache_drop :: "'a helpers_scheme \<Rightarrow> nat \<Rightarrow> dcmem \<Rightarrow> string \<Rightarrow> dcmem" where
  "cache_drop E c m path = the (dircache_invalidate E m (Some c) path False)"

definition cache_usable :: "'a helpers_scheme \<Rightarrow> nat \<Rightarrow> dcmem \<Rightarrow> bool" where
  "cache_usable E c m \<longleftrightarrow> icmp_equiv E \<and> mallocs m = [] \<and>
     (\<exists>v P. represents m c v P \<and> v_enabled v \<noteq> 0 \<and> v_max v > 0)"

definition same_path :: "'a helpers_scheme \<Rightarrow> string \<Rightarrow> string \<Rightarrow> bool" where
  "same_path E p q \<longleftrightarrow> computehash (Some p) = computehash (Some q) \<and> fsphStrICmp E p q = 0"

definition cache_alive :: "nat \<Rightarrow> dcmem \<Rightarrow> u32 \<Rightarrow> u32 \<Rightarrow> bool" where
  "cache_alive c m t0 t \<longleftrightarrow> (\<exists>d. dcs m c = Some d \<and> t - t0 < ulExpirationTime d)"

lemma dcCreateDirPath_append [simp]:
  "dcCreateDirPath (path @ backslash # dir_mask) dir_mask = Some path"
  by (simp add: dcCreateDirPath_def nat_add_distrib)

lemma s_read_some:
  "fst (s_read E timesec v path) = Some infos \<longleftrightarrow>
     v_enabled v \<noteq> 0 \<and> (\<exists>l. List.find (s_matches E path) (v_list v) = Some l \<and>
       timesec - l_time l < v_exp v \<and> infos = l_infos l)"
  by (auto simp: s_read_def split: option.splits)

text \<open>A look in terms of the view.\<close>

lemma cache_look_view:
  assumes "represents m c v P"
  shows "cache_look E c timesec m path = Some infos \<longleftrightarrow>
    v_enabled v \<noteq> 0 \<and> (\<exists>l. List.find (s_matches E path) (v_list v) = Some l \<and>
       timesec - l_time l < v_exp v \<and> infos = l_infos l)"
proof -
  from list_files_rep [OF assms dcCreateDirPath_append, of E timesec path star] obtain m' where
    "dircache_list_files E timesec m (Some c) (path @ backslash # star) star =
       Some (case fst (s_list_files E timesec v path) of
               None \<Rightarrow> (False, [], None, m')
             | Some infos \<Rightarrow> (True, infos, Some (int (length infos)), m'))" by blast
  then have "cache_look E c timesec m path = fst (s_list_files E timesec v path)"
    by (simp add: cache_look_def split: option.split)
  also have "\<dots> = fst (s_read E timesec (s_lock E v) path)" by (simp add: s_list_files_def split_beta)
  finally show ?thesis by (simp add: s_read_some)
qed

lemma find_remove_first:
  assumes "List.find Q (remove_first P xs) = Some x" "\<And>y. List.find P xs = Some y \<Longrightarrow> \<not> Q y"
  shows "List.find Q xs = Some x"
  using assms
proof (induction xs)
  case (Cons a xs)
  then show ?case by (cases "P a"; cases "Q a") simp_all
qed simp

lemma find_sat: "List.find P xs = Some x \<Longrightarrow> P x \<and> x \<in> set xs"
  by (induction xs) (auto split: if_splits)

lemma find_butlast: "List.find P (butlast xs) = Some x \<Longrightarrow> List.find P xs = Some x"
  by (induction xs) (auto split: if_splits)

lemma find_evicted: "List.find P (evicted v) = Some x \<Longrightarrow> List.find P (v_list v) = Some x"
  unfolding evicted_def by (simp split: if_splits) (rule find_butlast)

lemma find_filter_not:
  assumes "List.find Q (filter (\<lambda>x. \<not> P x) xs) = Some x" "\<And>y. Q y \<Longrightarrow> P y \<Longrightarrow> False"
  shows "List.find Q xs = Some x"
  using assms(1)
proof (induction xs)
  case (Cons a xs)
  then show ?case using assms(2) by (cases "P a"; cases "Q a") auto
qed simp

lemma matches_same_path:
  assumes "icmp_equiv E" "s_matches E p l"
  shows "s_matches E q l \<longleftrightarrow> same_path E q p"
  using assms(2) icmp_equiv_sym [OF assms(1), of p "l_path l"]
    icmp_equiv_trans [OF assms(1), of q p "l_path l"] icmp_equiv_trans [OF assms(1), of q "l_path l" p]
  unfolding s_matches_def same_path_def by auto

lemma s_store_find:
  assumes "icmp_equiv E" "List.find (s_matches E q) (s_store E timesec v p infos) = Some x"
  shows "same_path E q p \<and> l_infos x = infos \<or> List.find (s_matches E q) (v_list v) = Some x"
proof -
  obtain l ls where st: "s_store E timesec v p infos = l # ls" "s_matches E p l" "l_infos l = infos"
    using s_store_hd [of E timesec v p infos] assms(1) by (metis icmp_equiv_refl)
  show ?thesis
  proof (cases "s_matches E q l")
    case True
    then show ?thesis using assms st matches_same_path [OF assms(1) st(2)] by auto
  next
    case False
    then have ls: "List.find (s_matches E q) ls = Some x" using assms(2) st(1) by simp
    have nq: "\<not> s_matches E q y" if "s_matches E p y" for y
      using that False st(2) matches_same_path [OF assms(1)] by blast
    have "List.find (s_matches E q) (evicted v) = Some x"
    proof (cases "List.find (s_matches E p) (evicted v)")
      case None
      then show ?thesis using ls st(1) by (simp add: s_store_def)
    next
      case (Some y)
      then have "ls = remove_first (s_matches E p) (evicted v)" using st(1) by (simp add: s_store_def)
      with ls nq find_sat show ?thesis by (metis find_remove_first)
    qed
    then show ?thesis by (blast dest: find_evicted)
  qed
qed

lemma cache_put_rep:
  assumes "represents m c v P" "mallocs m = []" "v_enabled v \<noteq> 0" "v_max v > 0"
  obtains v' where "represents (cache_put E c timesec m path infos) c v' P"
    "mallocs (cache_put E c timesec m path infos) = []" "v_list v' = s_store E timesec v path infos"
    "same_settings v v'"
  using store_rep [OF assms(1,2) dcCreateDirPath_append _ assms(3,4), of 128 E timesec path star infos]
  by (auto simp: cache_put_def)

lemma cache_drop_rep:
  assumes "represents m c v P"
  obtains v' where "represents (cache_drop E c m path) c v' P" "mallocs (cache_drop E c m path) = mallocs m"
    "v_list v' = filter (\<lambda>l. \<not> s_matches E path l) (v_list v)" "same_settings v v'"
  using invalidate_rep [OF assms, of E path False]
  by (auto simp: cache_drop_def s_invalidate_def same_settings_def)

lemma cache_look_store:
  assumes "cache_usable E c m" "cache_alive c m t0 t"
  shows "cache_look E c t (cache_put E c t0 m p xs) p = Some xs"
proof -
  from assms(1) obtain v P where U: "icmp_equiv E" "mallocs m = []" "represents m c v P"
    "v_enabled v \<noteq> 0" "v_max v > 0" by (auto simp: cache_usable_def)
  from assms(2) U(3) have t: "t - t0 < v_exp v"
    using represents_at_dc by (fastforce simp: cache_alive_def represents_def)
  from cache_put_rep [OF U(3,2,4,5)] obtain v' where v': "represents (cache_put E c t0 m p xs) c v' P"
    "v_list v' = s_store E t0 v p xs" "same_settings v v'" by metis
  obtain l ls where "s_store E t0 v p xs = l # ls" "s_matches E p l" "l_time l = t0" "l_infos l = xs"
    using s_store_hd [of E t0 v p xs] U(1) by (metis icmp_equiv_refl)
  with v' U t show ?thesis
    by (simp add: cache_look_view [OF v'(1)] same_settings_def)
qed

lemma cache_look_store_some:
  assumes "cache_usable E c m" "cache_look E c t (cache_put E c t0 m p xs) q = Some ys"
  shows "same_path E q p \<and> ys = xs \<or> cache_look E c t m q = Some ys"
proof -
  from assms(1) obtain v P where U: "icmp_equiv E" "mallocs m = []" "represents m c v P"
    "v_enabled v \<noteq> 0" "v_max v > 0" by (auto simp: cache_usable_def)
  from cache_put_rep [OF U(3,2,4,5)] obtain v' where v': "represents (cache_put E c t0 m p xs) c v' P"
    "v_list v' = s_store E t0 v p xs" "same_settings v v'" by metis
  from assms(2) v'(2,3) obtain l where l: "List.find (s_matches E q) (s_store E t0 v p xs) = Some l"
    "t - l_time l < v_exp v" "ys = l_infos l"
    by (auto simp: cache_look_view [OF v'(1)] same_settings_def)
  from s_store_find [OF U(1) l(1)] show ?thesis
    using l(2,3) U(4) by (auto simp: cache_look_view [OF U(3)])
qed

lemma cache_look_drop:
  assumes "cache_usable E c m" "cache_look E c t (cache_drop E c m p) q = Some ys"
  shows "\<not> same_path E q p \<and> cache_look E c t m q = Some ys"
proof -
  from assms(1) obtain v P where U: "icmp_equiv E" "represents m c v P" "v_enabled v \<noteq> 0"
    by (auto simp: cache_usable_def)
  from cache_drop_rep [OF U(2)] obtain v' where v': "represents (cache_drop E c m p) c v' P"
    "v_list v' = filter (\<lambda>l. \<not> s_matches E p l) (v_list v)" "same_settings v v'" by metis
  from assms(2) v'(2,3) obtain l where
    l: "List.find (s_matches E q) (filter (\<lambda>l. \<not> s_matches E p l) (v_list v)) = Some l"
    "t - l_time l < v_exp v" "ys = l_infos l"
    by (auto simp: cache_look_view [OF v'(1)] same_settings_def)
  from find_sat [OF l(1)] have "s_matches E q l" "\<not> s_matches E p l" by auto
  then have ns: "\<not> same_path E q p"
    using matches_same_path [OF U(1), of q l p] by (auto simp: same_path_def icmp_equiv_sym [OF U(1)])
  then have "List.find (s_matches E q) (v_list v) = Some l"
    using matches_same_path [OF U(1)] by (intro find_filter_not [OF l(1)]) blast
  with ns l U(3) show ?thesis by (auto simp: cache_look_view [OF U(2)])
qed

lemma cache_usable_put:
  assumes "cache_usable E c m" shows "cache_usable E c (cache_put E c t m p xs)"
proof -
  from assms obtain v P where U: "icmp_equiv E" "mallocs m = []" "represents m c v P"
    "v_enabled v \<noteq> 0" "v_max v > 0" by (auto simp: cache_usable_def)
  from cache_put_rep [OF U(3,2,4,5)] obtain v' where "represents (cache_put E c t m p xs) c v' P"
    "mallocs (cache_put E c t m p xs) = []" "same_settings v v'" by metis
  with U show ?thesis unfolding cache_usable_def same_settings_def by auto
qed

lemma cache_usable_drop:
  assumes "cache_usable E c m" shows "cache_usable E c (cache_drop E c m p)"
proof -
  from assms obtain v P where U: "icmp_equiv E" "mallocs m = []" "represents m c v P"
    "v_enabled v \<noteq> 0" "v_max v > 0" by (auto simp: cache_usable_def)
  from cache_drop_rep [OF U(3)] obtain v' where "represents (cache_drop E c m p) c v' P"
    "mallocs (cache_drop E c m p) = mallocs m" "same_settings v v'" by metis
  with U show ?thesis unfolding cache_usable_def same_settings_def by auto
qed

interpretation dircache: listing_cache "cache_usable E c" "same_path E" "cache_alive c"
  "cache_look E c" "cache_put E c" "cache_drop E c" for E :: "'a helpers_scheme" and c :: nat
proof unfold_locales
  fix m :: dcmem and p q :: string and t t0 :: u32 and xs ys :: "smbwrp_fileinfo list"
  assume U: "cache_usable E c m"
  show "cache_usable E c (cache_put E c t m p xs)" by (rule cache_usable_put [OF U])
  show "cache_usable E c (cache_drop E c m p)" by (rule cache_usable_drop [OF U])
  show "cache_look E c t (cache_put E c t0 m p xs) p = Some xs" if "cache_alive c m t0 t"
    by (rule cache_look_store [OF U that])
  show "same_path E q p \<and> ys = xs \<or> (\<exists>t'. cache_look E c t' m q = Some ys)"
    if "cache_look E c t (cache_put E c t0 m p xs) q = Some ys"
    using cache_look_store_some [OF U that] by blast
  show "\<not> same_path E q p \<and> (\<exists>t'. cache_look E c t' m q = Some ys)"
    if "cache_look E c t (cache_drop E c m p) q = Some ys"
    using cache_look_drop [OF U that] by blast
qed

subsection \<open>A concrete cache\<close>

definition dcmem0 :: dcmem where
  "dcmem0 = \<lparr>dces = Map.empty, dcs = Map.empty, dc_next = 0, mallocs = []\<rparr>"

definition view0 :: "u32 \<Rightarrow> int \<Rightarrow> view" where
  "view0 expiration maxEntries =
     \<lparr>v_enabled = 1, v_exp = expiration, v_max = maxEntries, v_mutex = 0, v_list = []\<rparr>"

definition cache0 :: "u32 \<Rightarrow> int \<Rightarrow> dcmem" where
  "cache0 expiration maxEntries =
     (case dircache_create helpers0 dcmem0 0 expiration maxEntries of Some (rc, p, m) \<Rightarrow> m | None \<Rightarrow> dcmem0)"

lemma create0: "dircache_create helpers0 dcmem0 0 expiration maxEntries =
    Some (err helpers0 NO_ERROR, Some 0, cache0 expiration maxEntries)"
  by (simp add: cache0_def dircache_create_def dcCreate_def dcEnable_def upd_dc_def dcmem0_def
      helpers0_simps Let_def)

lemma fresh0: "fresh_from dcmem0" "mallocs dcmem0 = []"
  by (simp_all add: fresh_from_def dcmem0_def)

lemma cache0_rep: "represents (cache0 expiration maxEntries) 0 (view0 expiration maxEntries) Map.empty"
  and cache0_mallocs: "mallocs (cache0 expiration maxEntries) = []"
  using create_rep [OF fresh0, of helpers0 0 expiration maxEntries] create0 [of expiration maxEntries]
  by (auto simp: helpers0_simps view0_def)

lemma cache0_usable: "maxEntries > 0 \<Longrightarrow> cache_usable helpers0 0 (cache0 expiration maxEntries)"
  using cache0_rep [of expiration maxEntries] cache0_mallocs [of expiration maxEntries] helpers0_ok
  by (auto simp: cache_usable_def view0_def)

lemma cache0_alive: "t - t0 < expiration \<Longrightarrow> cache_alive 0 (cache0 expiration maxEntries) t0 t"
  using cache0_rep [of expiration maxEntries] represents_at_dc
  by (fastforce simp: cache_alive_def represents_def view0_def)

subsection \<open>Theorems\<close>





text \<open>A listing that was just written is the first of the cache.\<close>

definition listed_first ::
  "'a helpers_scheme \<Rightarrow> dcmem \<Rightarrow> nat \<Rightarrow> string \<Rightarrow> u32 \<Rightarrow> smbwrp_fileinfo list \<Rightarrow> bool" where
  "listed_first E m c path t infos \<longleftrightarrow> (\<exists>v P l ls. represents m c v P \<and> v_list v = l # ls \<and>
     s_matches E path l \<and> l_time l = t \<and> l_infos l = infos)"

lemma stored_first:
  assumes "represents m c v P" "mallocs m = []" "v_enabled v \<noteq> 0" "v_max v > 0" "icmp_refl E"
    "dcCreateDirPath fullpath dir_mask = Some path" "0 \<le> n" "t - t0 < v_exp v"
  shows "\<exists>m1 m2. dircache_store E t0 m c fullpath dir_mask n infos = Some m1 \<and>
    dircache_list_files E t m1 (Some c) fullpath dir_mask =
      Some (True, infos, Some (int (length infos)), m2) \<and> listed_first E m1 c path t0 infos"
proof -
  from store_rep [OF assms(1,2,6,7,3,4), of E t0 infos] obtain m1 v1 where
    m1: "dircache_store E t0 m c fullpath dir_mask n infos = Some m1" "represents m1 c v1 P"
    "v_list v1 = s_store E t0 v path infos" "same_settings v v1" by blast
  obtain l ls where l: "s_store E t0 v path infos = l # ls" "s_matches E path l" "l_time l = t0"
    "l_infos l = infos" using s_store_hd [OF assms(5)] by metis
  with m1 assms(3,8) have "fst (s_list_files E t v1 path) = Some infos"
    by (simp add: s_list_files_def split_beta s_read_some same_settings_def)
  with list_files_rep [OF m1(2) assms(6), of E t] obtain m2 where
    "dircache_list_files E t m1 (Some c) fullpath dir_mask = Some (True, infos, Some (int (length infos)), m2)" by auto
  moreover have "listed_first E m1 c path t0 infos" using m1(2,3) l unfolding listed_first_def by auto
  ultimately show ?thesis using m1(1) by blast
qed

lemma stored_listed:
  assumes "represents m c v P" "mallocs m = []" "v_enabled v \<noteq> 0" "v_max v > 0" "icmp_refl E"
    "dcCreateDirPath fullpath dir_mask = Some path" "0 \<le> n" "t - t0 < v_exp v"
  shows "\<exists>m1 m2. dircache_store E t0 m c fullpath dir_mask n infos = Some m1 \<and>
    dircache_list_files E t m1 (Some c) fullpath dir_mask =
      Some (True, infos, Some (int (length infos)), m2)"
  using stored_first [OF assms] by blast

text \<open>C18: A listing that was written through \<open>dircache_write_begin\<close>, \<open>dircache_write_entry\<close> and
  \<open>dircache_write_end\<close> is read back by \<open>dircache_list_files\<close> completely and in order, as long
  as the expiration time has not passed.\<close>

theorem listing_roundtrip:
  assumes "represents m c v P" "mallocs m = []" "v_enabled v \<noteq> 0" "v_max v > 0" "icmp_refl E"
    "dcCreateDirPath fullpath dir_mask = Some path" "0 \<le> n" "t - t0 < v_exp v"
  shows "\<exists>m1 m2. dircache_store E t0 m c fullpath dir_mask n infos = Some m1 \<and>
    dircache_list_files E t m1 (Some c) fullpath dir_mask =
      Some (True, infos, Some (int (length infos)), m2)"
  by (rule stored_listed [OF assms])

theorem listing_roundtrip_witness:
  "\<exists>m1 m2. dircache_store helpers0 7 (cache0 9 2) 0 ''a/*'' ''*'' 4 [fileinfo0, fileinfo0\<lparr>fi_attr := 16\<rparr>] = Some m1 \<and>
     dircache_list_files helpers0 12 m1 (Some 0) ''a/*'' ''*'' = Some (True, [fileinfo0, fileinfo0\<lparr>fi_attr := 16\<rparr>], Some 2, m2)"
  using listing_roundtrip [OF cache0_rep cache0_mallocs, of 9 2 helpers0 "''a/*''" "''*''" "''a''" 4 12 7 "[fileinfo0, fileinfo0\<lparr>fi_attr := 16\<rparr>]"]
    helpers0_ok by (simp add: view0_def dcCreateDirPath_def)

text \<open>Writing a listing keeps the number of listings within the depth of the cache: a full cache
  gives up its oldest listing first.\<close>

theorem listing_store_bounded:
  assumes "represents m c v P" "mallocs m = []" "v_enabled v \<noteq> 0" "v_max v > 0"
    "dcCreateDirPath fullpath dir_mask = Some path" "0 \<le> n"
    "dcs m c = Some d" "cEntries d \<le> cMaxEntries d"
  shows "\<exists>m' d'. dircache_store E t m c fullpath dir_mask n infos = Some m' \<and> dcs m' c = Some d' \<and>
    cMaxEntries d' = cMaxEntries d \<and> cEntries d' \<le> cMaxEntries d'"
proof -
  have dc: "\<exists>d. dcs m c = Some d \<and> cMaxEntries d = v_max v \<and> cEntries d = int (length (v_list v))"
    if "represents m c v P" for m c v P
    using that represents_at_dc by (fastforce simp: represents_def)
  from store_rep [OF assms(1,2,5,6,3,4), of E t infos] obtain m1 v1 where
    m1: "dircache_store E t m c fullpath dir_mask n infos = Some m1" "represents m1 c v1 P"
    "v_list v1 = s_store E t v path infos" "same_settings v v1" by blast
  have "int (length (v_list v)) \<le> v_max v" using dc [OF assms(1)] assms(7,8) by auto
  from s_store_length [OF this assms(4)] m1 dc [OF m1(2)] dc [OF assms(1)] assms(7) show ?thesis
    by (auto simp: same_settings_def)
qed

theorem listing_store_bounded_witness:
  "\<exists>m' d' d. dcs (cache0 9 2) 0 = Some d \<and>
     dircache_store helpers0 7 (cache0 9 2) 0 ''a/*'' ''*'' 4 [fileinfo0, fileinfo0\<lparr>fi_attr := 16\<rparr>] = Some m' \<and> dcs m' 0 = Some d' \<and>
     cMaxEntries d' = cMaxEntries d \<and> cEntries d' \<le> cMaxEntries d'"
proof -
  from cache0_rep [of 9 2] obtain d where d: "dcs (cache0 9 2) 0 = Some d" "cEntries d \<le> cMaxEntries d"
    using represents_at_dc by (fastforce simp: represents_def view0_def)
  with listing_store_bounded [OF cache0_rep cache0_mallocs, of 9 2 "''a/*''" "''*''" "''a''" 4 d helpers0 7 "[fileinfo0, fileinfo0\<lparr>fi_attr := 16\<rparr>]"]
  show ?thesis by (auto simp: view0_def dcCreateDirPath_def)
qed

lemma find_filter_keep:
  assumes "List.find Q xs = Some x" "\<And>y. Q y \<Longrightarrow> \<not> P y"
  shows "List.find Q (filter (\<lambda>x. \<not> P x) xs) = Some x"
  using assms(1)
proof (induction xs)
  case (Cons a xs)
  then show ?case using assms(2) by (cases "P a"; cases "Q a") auto
qed simp

lemma invalidate_keeps:
  assumes "cache_usable E c m" "\<not> same_path E q path" "cache_look E c t m q = Some ys"
  shows "\<exists>m'. dircache_invalidate E m (Some c) path False = Some m' \<and> cache_look E c t m' q = Some ys"
proof -
  from assms(1) obtain v P where U: "icmp_equiv E" "represents m c v P" by (auto simp: cache_usable_def)
  from invalidate_rep [OF U(2), of E path False] obtain m' where
    m': "dircache_invalidate E m (Some c) path False = Some m'"
    "represents m' c (s_unlock (s_invalidate E (s_lock E v) path)) P" by auto
  from assms(3) U(2) obtain x where x: "v_enabled v \<noteq> 0" "List.find (s_matches E q) (v_list v) = Some x"
    "t - l_time x < v_exp v" "ys = l_infos x" by (auto simp: cache_look_view)
  have "\<not> s_matches E path y" if "s_matches E q y" for y
    using assms(2) that matches_same_path [OF U(1), of q y path] icmp_equiv_sym [OF U(1)]
      matches_same_path [OF U(1) that] by (auto simp: same_path_def)
  then have "List.find (s_matches E q) (filter (\<lambda>l. \<not> s_matches E path l) (v_list v)) = Some x"
    using find_filter_keep [OF x(2)] by blast
  with x m' show ?thesis by (auto simp: cache_look_view [OF m'(2)] s_invalidate_def)
qed

lemma invalidate_look:
  assumes "cache_usable E c m"
  shows "\<exists>m'. dircache_invalidate E m (Some c) path False = Some m' \<and>
    (\<forall>q t. cache_look E c t m' q = (if same_path E q path then None else cache_look E c t m q))"
proof -
  from assms obtain v P where U: "icmp_equiv E" "mallocs m = []" "represents m c v P"
    by (auto simp: cache_usable_def)
  from invalidate_rep [OF U(3), of E path False] obtain m' where
    m': "dircache_invalidate E m (Some c) path False = Some m'"
    "represents m' c (s_unlock (s_invalidate E (s_lock E v) path)) P" by auto
  then have drop': "cache_drop E c m path = m'" by (simp add: cache_drop_def)
  have keep: "cache_look E c t m' q = Some ys"
    if "\<not> same_path E q path" "cache_look E c t m q = Some ys" for q t ys
    using invalidate_keeps [OF assms that] m'(1) by simp
  show ?thesis
  proof (intro exI conjI allI)
    show "dircache_invalidate E m (Some c) path False = Some m'" by (rule m')
    fix q t
    show "cache_look E c t m' q = (if same_path E q path then None else cache_look E c t m q)"
    proof (cases "same_path E q path")
      case True
      then have "cache_look E c t m' q \<noteq> Some ys" for ys
        using cache_look_drop [OF assms, of t path q ys, unfolded drop'] by blast
      then have "cache_look E c t m' q = None" by (metis not_Some_eq)
      with True show ?thesis by simp
    next
      case False
      have "cache_look E c t m' q = Some ys \<longleftrightarrow> cache_look E c t m q = Some ys" for ys
        using cache_look_drop [OF assms, of t path q ys, unfolded drop'] keep [OF False, of t ys] by blast
      then have "cache_look E c t m' q = cache_look E c t m q" by (metis not_Some_eq)
      with False show ?thesis by simp
    qed
  qed
qed

text \<open>C17: After \<open>dircache_invalidate\<close> of a path no lookup of a path that shares its listing
  succeeds, and every other lookup gives what it gave before.\<close>

theorem invalidate_exactly:
  assumes "cache_usable E c m"
  shows "\<exists>m'. dircache_invalidate E m (Some c) path False = Some m' \<and>
    (\<forall>q t. cache_look E c t m' q = (if same_path E q path then None else cache_look E c t m q))"
  by (rule invalidate_look [OF assms])

theorem invalidate_exactly_witness:
  "\<exists>m'. dircache_invalidate helpers0 (cache0 9 2) (Some 0) ''a'' False = Some m' \<and>
    (\<forall>q t. cache_look helpers0 0 t m' q =
      (if same_path helpers0 q ''a'' then None else cache_look helpers0 0 t (cache0 9 2) q))"
  by (rule invalidate_exactly [OF cache0_usable]) simp

text \<open>A listing through the cache; the fetch function stands for the server.\<close>

definition cached_list ::
  "'a helpers_scheme \<Rightarrow> nat \<Rightarrow> (string \<Rightarrow> smbwrp_fileinfo list) \<Rightarrow> u32 \<Rightarrow> dcmem \<Rightarrow> string \<Rightarrow>
     smbwrp_fileinfo list \<times> dcmem" where
  "cached_list E c fetch t m path =
     (case cache_look E c t m path of
        Some infos \<Rightarrow> (infos, m)
      | None \<Rightarrow> (fetch path, cache_put E c t m path (fetch path)))"

definition cache_agrees ::
  "'a helpers_scheme \<Rightarrow> nat \<Rightarrow> (string \<Rightarrow> smbwrp_fileinfo list) \<Rightarrow> dcmem \<Rightarrow> bool" where
  "cache_agrees E c fetch m \<longleftrightarrow> (\<forall>t p xs. cache_look E c t m p = Some xs \<longrightarrow> xs = fetch p)"

lemma cached_list_eq: "cached_list E c fetch t m p = listing_cache.list_via (cache_look E c) (cache_put E c) fetch t m p"
  by (simp add: cached_list_def dircache.list_via_def)

lemma cache_agrees_eq: "cache_agrees E c fetch m = listing_cache.agrees (cache_look E c) fetch m"
  by (simp add: cache_agrees_def dircache.agrees_def)


lemma cache0_agrees: "cache_agrees E 0 fetch (cache0 expiration maxEntries)"
  using cache_look_view [OF cache0_rep, of E] by (auto simp: cache_agrees_def view0_def)


text \<open>The hash of a path distinguishes upper and lower case while the comparison does not: a
  listing stored as \<open>DATA\<close> survives the invalidation of \<open>data\<close>, although the two are equal for
  the comparison, and is still served.\<close>

theorem invalidate_misses_case:
  "icmp0 ''data'' ''DATA'' = 0 \<and>
   (\<exists>m. dircache_invalidate helpers0 (cache_put helpers0 0 7 (cache0 9 2) ''DATA'' [i]) (Some 0)
      ''data'' False = Some m \<and> cache_look helpers0 0 12 m ''DATA'' = Some [i])"
proof -
  have "computehash (Some ''DATA'') \<noteq> computehash (Some ''data'')" by code_simp
  then have ns: "\<not> same_path helpers0 ''DATA'' ''data''" by (simp add: same_path_def)
  have U: "cache_usable helpers0 0 (cache0 9 2)" by (rule cache0_usable) simp
  have "cache_look helpers0 0 12 (cache_put helpers0 0 7 (cache0 9 2) ''DATA'' [i]) ''DATA'' = Some [i]"
    by (rule cache_look_store [OF U cache0_alive]) simp
  from invalidate_keeps [OF cache_usable_put [OF U] ns this]
  have "\<exists>m. dircache_invalidate helpers0 (cache_put helpers0 0 7 (cache0 9 2) ''DATA'' [i]) (Some 0)
      ''data'' False = Some m \<and> cache_look helpers0 0 12 m ''DATA'' = Some [i]" .
  moreover have "icmp0 ''data'' ''DATA'' = 0" by code_simp
  ultimately show ?thesis by (rule conjI [rotated])
qed

text \<open>A cache of depth 0 (or less) is not a cache that never holds anything: the first attempt to
  write a listing removes the last entry of an empty list, a NULL dereference.\<close>

theorem write_begin_depth_zero:
  assumes "represents m c v P" "v_list v = []" "v_max v \<le> 0"
    "dcCreateDirPath fullpath dir_mask = Some path"
  shows "dircache_write_begin E t m (Some c) fullpath dir_mask n = None"
proof -
  from assms(1) obtain as where R: "represents_at m c as v P" by (auto simp: represents_def)
  with assms(2) have as: "as = []" by (simp add: represents_at_def)
  from lock_at [OF R] obtain m1 where m1: "lockRequest E m c = Some m1"
    "represents_at m1 c as (s_lock E v) P" by metis
  from represents_at_dc [OF m1(2)] obtain d where "dcs m1 c = Some d" "cMaxEntries d = v_max v"
    "cEntries d = 0" "pEntriesTail d = None" using as assms(2) by auto
  with m1 assms(3,4) show ?thesis by (simp add: dircache_write_begin_def)
qed

theorem write_begin_depth_zero_witness:
  "dircache_write_begin helpers0 7 (cache0 9 0) (Some 0) ''a/*'' ''*'' 4 = None"
  by (rule write_begin_depth_zero [OF cache0_rep, where path = "''a''"])
    (simp_all add: view0_def dcCreateDirPath_def)

lemma represents_alloc: "represents m c v P \<Longrightarrow> represents (m\<lparr>mallocs := bs\<rparr>) c v P"
  unfolding represents_def by (blast intro: set_alloc_at)

text \<open>When the memory for a new entry cannot be had, \<open>dircache_write_begin\<close> answers NULL as it
  means to, but the caller's \<open>dircache_write_end\<close> then reads through that NULL pointer before it
  tests it: the listing is lost in undefined behaviour.\<close>

theorem store_without_memory:
  assumes "represents m c v P" "mallocs m = False # bs" "v_enabled v \<noteq> 0" "v_max v > int (length (v_list v))"
    "dcCreateDirPath fullpath dir_mask = Some path" "List.find (s_matches E path) (v_list v) = None"
  shows "\<exists>m1. dircache_write_begin E t m (Some c) fullpath dir_mask n = Some (None, m1) \<and>
    dircache_store E t m c fullpath dir_mask n infos = None"
proof -
  from assms(1) obtain as where R: "represents_at m c as v P" by (auto simp: represents_def)
  from lock_at [OF R] obtain m1 where m1: "lockRequest E m c = Some m1"
    "represents_at m1 c as (s_lock E v) P" "mallocs m1 = mallocs m" by metis
  from represents_at_dc [OF m1(2)] obtain d where d: "dcs m1 c = Some d" "cMaxEntries d = v_max v"
    "cEntries d = int (length (v_list v))" "fEnabled d = v_enabled v" by auto
  let ?m = "m1\<lparr>mallocs := bs\<rparr>"
  have "List.find (s_matches E path) (v_list (s_lock E v)) = None" using assms(6) by simp
  then have "dcFindDirCache E m1 c path False = Some None"
    using find_at [OF m1(2), of E path] by simp
  then have w: "dcWriteBegin E t m1 c path n = Some (None, ?m)"
    using d assms(2,3) m1(3) by (simp add: dcWriteBegin_def dceCreate_def malloc_def)
  from unlock_at [OF set_alloc_at [OF m1(2), of bs]] obtain m2 where "lockRelease ?m c = Some m2" by metis
  then have "dircache_write_begin E t m (Some c) fullpath dir_mask n = Some (None, m2)"
    using m1(1) d assms(4,5) w by (simp add: dircache_write_begin_def)
  moreover have "dircache_write_entries E m2 None infos = Some m2"
    by (induction infos) (simp_all add: dircache_write_entry_def)
  ultimately show ?thesis by (simp add: dircache_store_def dircache_write_end_def)
qed

theorem store_without_memory_witness:
  "\<exists>m1. dircache_write_begin helpers0 7 ((cache0 9 2)\<lparr>mallocs := [False]\<rparr>) (Some 0) ''a/*'' ''*'' 4 = Some (None, m1) \<and>
    dircache_store helpers0 7 ((cache0 9 2)\<lparr>mallocs := [False]\<rparr>) 0 ''a/*'' ''*'' 4 [fileinfo0] = None"
  by (rule store_without_memory [OF represents_alloc [OF cache0_rep], where path = "''a''"])
    (simp_all add: view0_def dcCreateDirPath_def)

end
