(* ===== verification/Smb_Client.thy ===== *)
theory Smb_Client
  imports Dircache Util
begin

text \<open>
  \<open>smbwrp.c\<close>: the wrappers around the Samba client library. Samba is not part of the repository;
  its functions are the fields of the record \<open>samba\<close>, over a type \<open>'w\<close> of worlds (the server,
  the network, the clock and the state of the client library). A \<open>cli_state\<close> pointer is a
  \<^typ>\<open>ptr\<close>. The other pointers the wrappers test for NULL are addresses of members or arrays in
  every caller and are never NULL, so those tests have no branch here.
\<close>

subsection \<open>The client library\<close>

type_synonym timespec = int

record statinfo =
  st_btime :: timespec
  st_atime :: timespec
  st_mtime :: timespec
  st_ctime :: timespec
  st_size :: u64
  st_mode :: u16

record attrinfo =
  at_mode :: u16
  at_size :: u64
  at_ctime :: u32
  at_atime :: u32
  at_mtime :: u32

record ea_struct =
  ea_name :: string
  ea_value :: string

record 'w samba = helpers +
  cli_errno :: "nat \<Rightarrow> 'w \<Rightarrow> int"
  cli_open :: "nat \<Rightarrow> string \<Rightarrow> u32 \<Rightarrow> int \<Rightarrow> 'w \<Rightarrow> u32 \<times> u16 \<times> 'w"
  cli_read :: "nat \<Rightarrow> u16 \<Rightarrow> u64 \<Rightarrow> u32 \<Rightarrow> 'w \<Rightarrow> u32 \<times> string \<times> 'w"
  cli_writeall :: "nat \<Rightarrow> u16 \<Rightarrow> string \<Rightarrow> u64 \<Rightarrow> u32 \<Rightarrow> 'w \<Rightarrow> u32 \<times> u32 \<times> 'w"
  cli_close :: "nat \<Rightarrow> u16 \<Rightarrow> 'w \<Rightarrow> u32 \<times> 'w"
  cli_setpathinfo_basic ::
    "nat \<Rightarrow> string \<Rightarrow> u32 \<Rightarrow> u32 \<Rightarrow> u32 \<Rightarrow> u32 \<Rightarrow> u32 \<Rightarrow> 'w \<Rightarrow> u32 \<times> 'w"
  cli_ftruncate :: "nat \<Rightarrow> u16 \<Rightarrow> u64 \<Rightarrow> 'w \<Rightarrow> u32 \<times> 'w"
  cli_rename :: "nat \<Rightarrow> string \<Rightarrow> string \<Rightarrow> 'w \<Rightarrow> u32 \<times> 'w"
  cli_setatr :: "nat \<Rightarrow> string \<Rightarrow> u16 \<Rightarrow> u32 \<Rightarrow> 'w \<Rightarrow> u32 \<times> 'w"
  cli_unlink :: "nat \<Rightarrow> string \<Rightarrow> u32 \<Rightarrow> 'w \<Rightarrow> u32 \<times> 'w"
  cli_mkdir :: "nat \<Rightarrow> string \<Rightarrow> 'w \<Rightarrow> u32 \<times> 'w"
  cli_rmdir :: "nat \<Rightarrow> string \<Rightarrow> 'w \<Rightarrow> u32 \<times> 'w"
  cli_qfileinfo_basic :: "nat \<Rightarrow> u16 \<Rightarrow> 'w \<Rightarrow> u32 \<times> statinfo \<times> 'w"
  cli_getattrE :: "nat \<Rightarrow> u16 \<Rightarrow> 'w \<Rightarrow> u32 \<times> attrinfo \<times> 'w"
  cli_qpathinfo2 :: "nat \<Rightarrow> string \<Rightarrow> 'w \<Rightarrow> u32 \<times> statinfo \<times> 'w"
  cli_qpathinfo3 :: "nat \<Rightarrow> string \<Rightarrow> 'w \<Rightarrow> u32 \<times> statinfo \<times> 'w"
  cli_getatr :: "nat \<Rightarrow> string \<Rightarrow> 'w \<Rightarrow> u32 \<times> attrinfo \<times> 'w"
  cap_nt_smbs :: "nat \<Rightarrow> 'w \<Rightarrow> bool"
  cli_set_ea_path :: "nat \<Rightarrow> string \<Rightarrow> string \<Rightarrow> string \<Rightarrow> 'w \<Rightarrow> u32 \<times> 'w"
  cli_set_ea_fnum :: "nat \<Rightarrow> u16 \<Rightarrow> string \<Rightarrow> string \<Rightarrow> 'w \<Rightarrow> u32 \<times> 'w"
  cli_get_ea_list_path :: "nat \<Rightarrow> string \<Rightarrow> 'w \<Rightarrow> u32 \<times> ea_struct list \<times> 'w"
  cli_disk_size :: "nat \<Rightarrow> 'w \<Rightarrow> u32 \<times> u64 \<times> u64 \<times> u64 \<times> 'w"
  cli_echo :: "nat \<Rightarrow> u32 \<Rightarrow> 'w \<Rightarrow> u32 \<times> 'w"
  cli_shutdown :: "nat \<Rightarrow> 'w \<Rightarrow> 'w"
  time_null :: "'w \<Rightarrow> u32"
  get_time_zone :: "u32 \<Rightarrow> u32"
  convert_timespec_to_time_t :: "timespec \<Rightarrow> u32"

definition NT_STATUS_IS_OK :: "u32 \<Rightarrow> bool" where
  "NT_STATUS_IS_OK status \<longleftrightarrow> status = 0"

text \<open>The failure of a call as the OS/2 code of the library's \<open>errno\<close>.\<close>

definition os2cli_errno :: "('w, 'x) samba_scheme \<Rightarrow> nat \<Rightarrow> 'w \<Rightarrow> int" where
  "os2cli_errno S cli w = maperror (err S) (cli_errno S cli w)"

text \<open>A wrapper that makes one call with no results but the status.\<close>

definition status_rc :: "('w, 'x) samba_scheme \<Rightarrow> nat \<Rightarrow> u32 \<times> 'w \<Rightarrow> int \<times> 'w" where
  "status_rc S cli r = (case r of (status, w) \<Rightarrow>
     if NT_STATUS_IS_OK status then (0, w) else (os2cli_errno S cli w, w))"

subsection \<open>Open files\<close>

record smbwrp_file =
  f_fd :: int
  f_offset :: u64
  f_openmode :: u32
  f_openattr :: u32
  f_denymode :: int
  f_btime :: u32
  f_mtime :: u32
  f_atime :: u32
  f_ctime :: u32
  f_updatetime :: int
  f_fullname :: string
  f_fname :: string

definition DENY_ALL :: int where "DENY_ALL = 1"
definition DENY_NONE :: int where "DENY_NONE = 4"

definition aRONLY :: u32 where "aRONLY = 0x01"
definition aHIDDEN :: u32 where "aHIDDEN = 0x02"
definition aSYSTEM :: u32 where "aSYSTEM = 0x04"
definition aDIR :: u32 where "aDIR = 0x10"
definition aARCH :: u32 where "aARCH = 0x20"

text \<open>The library takes the descriptor as a 16-bit number.\<close>

definition fnum :: "smbwrp_file \<Rightarrow> u16" where
  "fnum file = word_of_int (f_fd file)"

definition smbwrp_disconnect :: "('w, 'x) samba_scheme \<Rightarrow> ptr \<Rightarrow> 'w \<Rightarrow> 'w" where
  "smbwrp_disconnect S cli w = (case cli of Some c \<Rightarrow> cli_shutdown S c w | None \<Rightarrow> w)"

definition smbwrp_open ::
  "('w, 'x) samba_scheme \<Rightarrow> ptr \<Rightarrow> smbwrp_file \<Rightarrow> 'w \<Rightarrow> int \<times> smbwrp_file \<times> 'w" where
  "smbwrp_open S cli file w =
     (case cli of
        None \<Rightarrow> (maperror (err S) EINVAL, file, w)
      | Some c \<Rightarrow>
          if f_fname file = [] then (maperror (err S) EINVAL, file, w)
          else
            let file = (if f_denymode file < DENY_ALL \<or> f_denymode file > DENY_NONE
                        then file\<lparr>f_denymode := DENY_NONE\<rparr> else file);
                (status, fd, w) = cli_open S c (f_fname file) (f_openmode file) (f_denymode file) w
            in if \<not> NT_STATUS_IS_OK status then (os2cli_errno S c w, file, w)
               else (0, file\<lparr>f_fd := uint fd, f_updatetime := 0, f_offset := 0\<rparr>, w))"

text \<open>The bytes read are the third component; their number is the value of \<open>*result\<close>.\<close>

definition smbwrp_read ::
  "('w, 'x) samba_scheme \<Rightarrow> ptr \<Rightarrow> smbwrp_file \<Rightarrow> u32 \<Rightarrow> 'w \<Rightarrow> int \<times> smbwrp_file \<times> string \<times> 'w" where
  "smbwrp_read S cli file count w =
     (case cli of
        None \<Rightarrow> (maperror (err S) EINVAL, file, [], w)
      | Some c \<Rightarrow>
          let (status, data, w) = cli_read S c (fnum file) (f_offset file) count w
          in if \<not> NT_STATUS_IS_OK status then (os2cli_errno S c w, file, [], w)
             else (0, file\<lparr>f_offset := f_offset file + of_nat (length data)\<rparr>, data, w))"

definition smbwrp_write ::
  "('w, 'x) samba_scheme \<Rightarrow> ptr \<Rightarrow> smbwrp_file \<Rightarrow> string \<Rightarrow> u32 \<Rightarrow> 'w \<Rightarrow> int \<times> smbwrp_file \<times> u32 \<times> 'w" where
  "smbwrp_write S cli file buf count w =
     (case cli of
        None \<Rightarrow> (maperror (err S) EINVAL, file, 0, w)
      | Some c \<Rightarrow>
          let (status, ret, w) = cli_writeall S c (fnum file) buf (f_offset file) count w
          in if \<not> NT_STATUS_IS_OK status then (os2cli_errno S c w, file, 0, w)
             else (0, file\<lparr>f_updatetime := 1, f_offset := f_offset file + ucast ret\<rparr>, ret, w))"

definition smbwrp_close ::
  "('w, 'x) samba_scheme \<Rightarrow> ptr \<Rightarrow> smbwrp_file \<Rightarrow> 'w \<Rightarrow> int \<times> smbwrp_file \<times> 'w" where
  "smbwrp_close S cli file w =
     (case cli of
        None \<Rightarrow> (maperror (err S) EINVAL, file, w)
      | Some c \<Rightarrow>
          let file = (if f_updatetime file = 1
                      then file\<lparr>f_btime := 0, f_mtime := time_null S w, f_atime := 0, f_ctime := 0\<rparr>
                      else file);
              (rc, w) = status_rc S c (cli_close S c (fnum file) w);
              w = (if rc = 0 \<and> (f_openattr file \<noteq> 0 \<or> f_mtime file \<noteq> 0 \<or> f_ctime file \<noteq> 0)
                   then snd (cli_setpathinfo_basic S c (f_fname file) (f_btime file) (f_atime file)
                               (f_mtime file) (f_ctime file) (f_openattr file) w)
                   else w)
          in (rc, file\<lparr>f_openattr := 0, f_btime := 0, f_atime := 0, f_mtime := 0, f_ctime := 0,
                       f_updatetime := 0, f_fd := -1, f_offset := 0, f_fname := []\<rparr>, w))"

text \<open>The result of the truncation is not looked at.\<close>

definition smbwrp_setfilesize ::
  "('w, 'x) samba_scheme \<Rightarrow> ptr \<Rightarrow> smbwrp_file \<Rightarrow> u64 \<Rightarrow> 'w \<Rightarrow> int \<times> 'w" where
  "smbwrp_setfilesize S cli file newsize w =
     (case cli of
        None \<Rightarrow> (maperror (err S) EINVAL, w)
      | Some c \<Rightarrow> (0, snd (cli_ftruncate S c (fnum file) newsize w)))"

definition SEEK_SET :: int where "SEEK_SET = 0"
definition SEEK_CUR :: int where "SEEK_CUR = 1"
definition SEEK_END :: int where "SEEK_END = 2"

definition smbwrp_lseek ::
  "('w, 'x) samba_scheme \<Rightarrow> ptr \<Rightarrow> smbwrp_file \<Rightarrow> int \<Rightarrow> u64 \<Rightarrow> 'w \<Rightarrow> int \<times> smbwrp_file \<times> 'w" where
  "smbwrp_lseek S cli file whence offset w =
     (case cli of
        None \<Rightarrow> (maperror (err S) EINVAL, file, w)
      | Some c \<Rightarrow>
          if whence = SEEK_SET
          then if sint offset < 0 then (maperror (err S) EINVAL, file, w)
               else (0, file\<lparr>f_offset := offset\<rparr>, w)
          else if whence = SEEK_CUR then (0, file\<lparr>f_offset := f_offset file + offset\<rparr>, w)
          else if whence = SEEK_END
          then if sint offset > 0 then (maperror (err S) EINVAL, file, w)
               else let (status, st, w) = cli_qfileinfo_basic S c (fnum file) w
                    in if NT_STATUS_IS_OK status then (0, file\<lparr>f_offset := st_size st + offset\<rparr>, w)
                       else let (status, at, w) = cli_getattrE S c (fnum file) w
                            in if NT_STATUS_IS_OK status
                               then (0, file\<lparr>f_offset := at_size at + offset\<rparr>, w)
                               else (os2cli_errno S c w, file, w)
          else (maperror (err S) EINVAL, file, w))"

subsection \<open>Paths\<close>

definition smbwrp_rename :: "('w, 'x) samba_scheme \<Rightarrow> ptr \<Rightarrow> string \<Rightarrow> string \<Rightarrow> 'w \<Rightarrow> int \<times> 'w" where
  "smbwrp_rename S cli oldname newname w =
     (case cli of None \<Rightarrow> (maperror (err S) EINVAL, w)
      | Some c \<Rightarrow> status_rc S c (cli_rename S c oldname newname w))"

definition smbwrp_setattr :: "('w, 'x) samba_scheme \<Rightarrow> ptr \<Rightarrow> smbwrp_fileinfo \<Rightarrow> 'w \<Rightarrow> int \<times> 'w" where
  "smbwrp_setattr S cli finfo w =
     (case cli of None \<Rightarrow> (maperror (err S) EINVAL, w)
      | Some c \<Rightarrow>
          if fi_fname finfo = [] then (maperror (err S) EINVAL, w)
          else let (status, w) = cli_setatr S c (fi_fname finfo) (ucast (fi_attr finfo)) (fi_mtime finfo) w
               in if NT_STATUS_IS_OK status then (0, w)
                  else status_rc S c (cli_setatr S c (fi_fname finfo) (ucast (fi_attr finfo)) 0 w))"

definition smbwrp_unlink :: "('w, 'x) samba_scheme \<Rightarrow> ptr \<Rightarrow> string \<Rightarrow> 'w \<Rightarrow> int \<times> 'w" where
  "smbwrp_unlink S cli fname w =
     (case cli of None \<Rightarrow> (maperror (err S) EINVAL, w)
      | Some c \<Rightarrow> status_rc S c (cli_unlink S c fname (aSYSTEM OR aHIDDEN) w))"

definition smbwrp_mkdir :: "('w, 'x) samba_scheme \<Rightarrow> ptr \<Rightarrow> string \<Rightarrow> 'w \<Rightarrow> int \<times> 'w" where
  "smbwrp_mkdir S cli fname w =
     (case cli of None \<Rightarrow> (maperror (err S) EINVAL, w)
      | Some c \<Rightarrow> status_rc S c (cli_mkdir S c fname w))"

definition smbwrp_rmdir :: "('w, 'x) samba_scheme \<Rightarrow> ptr \<Rightarrow> string \<Rightarrow> 'w \<Rightarrow> int \<times> 'w" where
  "smbwrp_rmdir S cli fname w =
     (case cli of None \<Rightarrow> (maperror (err S) EINVAL, w)
      | Some c \<Rightarrow> status_rc S c (cli_rmdir S c fname w))"

subsection \<open>Attributes\<close>

record smbwrp_server =
  server_name :: string
  share_name :: string
  workgroup :: string
  username :: string
  password :: string
  master :: string
  ifmastergroup :: int
  no_pathinfo2 :: int

text \<open>The library writes the attributes through an \<open>unsigned short\<close> pointer.\<close>

definition set_low16 :: "u32 \<Rightarrow> u16 \<Rightarrow> u32" where
  "set_low16 x v = (x AND 0xFFFF0000) OR ucast v"

definition stat_times :: "('w, 'x) samba_scheme \<Rightarrow> statinfo \<Rightarrow> smbwrp_fileinfo \<Rightarrow> smbwrp_fileinfo" where
  "stat_times S st finfo = finfo\<lparr>
     fi_btime := convert_timespec_to_time_t S (st_btime st),
     fi_atime := convert_timespec_to_time_t S (st_atime st),
     fi_mtime := convert_timespec_to_time_t S (st_mtime st),
     fi_ctime := convert_timespec_to_time_t S (st_ctime st)\<rparr>"

definition stat_path :: "('w, 'x) samba_scheme \<Rightarrow> statinfo \<Rightarrow> smbwrp_fileinfo \<Rightarrow> smbwrp_fileinfo" where
  "stat_path S st finfo = stat_times S st (finfo\<lparr>fi_size := st_size st,
     fi_attr := set_low16 (fi_attr finfo) (st_mode st) AND 0x7F\<rparr>)"

text \<open>The comparison is \<open>stricmp\<close> of the C library, which folds ASCII letters.\<close>

definition not_a_share :: "smbwrp_server \<Rightarrow> bool" where
  "not_a_share srv \<longleftrightarrow> server_name srv = [] \<or> share_name srv = [] \<or> icmp0 (share_name srv) ''IPC$'' = 0"

definition smbwrp_getattr ::
  "('w, 'x) samba_scheme \<Rightarrow> smbwrp_server \<Rightarrow> ptr \<Rightarrow> smbwrp_fileinfo \<Rightarrow> 'w \<Rightarrow>
     int \<times> smbwrp_fileinfo \<times> 'w" where
  "smbwrp_getattr S srv cli finfo w =
     (case cli of
        None \<Rightarrow> (maperror (err S) EINVAL, finfo, w)
      | Some c \<Rightarrow>
          if fi_fname finfo = [] then (maperror (err S) EINVAL, finfo, w)
          else
            let (status, st, w) = cli_qpathinfo2 S c (fi_fname finfo) w in
            if NT_STATUS_IS_OK status then (0, stat_path S st finfo, w)
            else let (status, st, w) = cli_qpathinfo3 S c (fi_fname finfo) w in
            if NT_STATUS_IS_OK status then (0, stat_path S st finfo, w)
            else if not_a_share srv
            then (0, finfo\<lparr>fi_btime := time_null S w, fi_atime := time_null S w,
                           fi_mtime := time_null S w, fi_ctime := time_null S w,
                           fi_size := 0, fi_easize := 0, fi_attr := aDIR\<rparr>, w)
            else if cap_nt_smbs S c w
            then (let ret = cli_errno S c w
                  in (maperror (err S) (if ret = EINVAL then ENOTDIR else ret), finfo, w))
            else let (status, at, w) = cli_getatr S c (fi_fname finfo) w
                 in if NT_STATUS_IS_OK status
                    then (0, finfo\<lparr>fi_attr := set_low16 (fi_attr finfo) (at_mode at),
                                   fi_size := at_size at,
                                   fi_mtime := at_mtime at - get_time_zone S (at_mtime at)\<rparr>, w)
                    else (os2cli_errno S c w, finfo, w))"

definition smbwrp_fgetattr ::
  "('w, 'x) samba_scheme \<Rightarrow> ptr \<Rightarrow> smbwrp_file \<Rightarrow> smbwrp_fileinfo \<Rightarrow> 'w \<Rightarrow>
     int \<times> smbwrp_fileinfo \<times> 'w" where
  "smbwrp_fgetattr S cli file finfo w =
     (case cli of
        None \<Rightarrow> (maperror (err S) EINVAL, finfo, w)
      | Some c \<Rightarrow>
          let finfo = finfo\<lparr>fi_fname := strncpy_z 260 (f_fname file)\<rparr>;
              (status, st, w) = cli_qfileinfo_basic S c (fnum file) w
          in if NT_STATUS_IS_OK status
             then (0, stat_times S st (finfo\<lparr>fi_attr := set_low16 (fi_attr finfo) (st_mode st),
                                             fi_size := st_size st\<rparr>), w)
             else let (status, at, w) = cli_getattrE S c (fnum file) w
                  in if NT_STATUS_IS_OK status
                     then (0, finfo\<lparr>fi_attr := set_low16 (fi_attr finfo) (at_mode at),
                                    fi_size := at_size at,
                                    fi_ctime := at_ctime at - get_time_zone S (at_ctime at),
                                    fi_atime := at_atime at - get_time_zone S (at_atime at),
                                    fi_mtime := at_mtime at - get_time_zone S (at_mtime at)\<rparr>, w)
                     else (os2cli_errno S c w, finfo, w))"

text \<open>
  A failed \<open>smbwrp_getattr\<close> is reported by the library's \<open>errno\<close> and not by the code that
  \<open>smbwrp_getattr\<close> gave.
\<close>

definition smbwrp_chdir ::
  "('w, 'x) samba_scheme \<Rightarrow> smbwrp_server \<Rightarrow> ptr \<Rightarrow> string \<Rightarrow> 'w \<Rightarrow> int \<times> 'w" where
  "smbwrp_chdir S srv cli fname w =
     (case cli of
        None \<Rightarrow> (maperror (err S) EINVAL, w)
      | Some c \<Rightarrow>
          let (rc, finfo, w) =
                smbwrp_getattr S srv cli (fileinfo0\<lparr>fi_fname := strncpy_z 260 fname\<rparr>) w
          in if rc \<noteq> 0 then (os2cli_errno S c w, w)
             else if fi_attr finfo AND aDIR = 0 then (maperror (err S) ENOTDIR, w)
             else (0, w))"

subsection \<open>Extended attributes and the device\<close>

definition smbwrp_setea ::
  "('w, 'x) samba_scheme \<Rightarrow> ptr \<Rightarrow> string \<Rightarrow> string \<Rightarrow> string \<Rightarrow> 'w \<Rightarrow> int \<times> 'w" where
  "smbwrp_setea S cli fname name val w =
     (case cli of None \<Rightarrow> (maperror (err S) EINVAL, w)
      | Some c \<Rightarrow> status_rc S c (cli_set_ea_path S c fname name val w))"

definition smbwrp_fsetea ::
  "('w, 'x) samba_scheme \<Rightarrow> ptr \<Rightarrow> smbwrp_file \<Rightarrow> string \<Rightarrow> string \<Rightarrow> 'w \<Rightarrow> int \<times> 'w" where
  "smbwrp_fsetea S cli file name val w =
     (case cli of None \<Rightarrow> (maperror (err S) EINVAL, w)
      | Some c \<Rightarrow> status_rc S c (cli_set_ea_fnum S c (fnum file) name val w))"

record FSALLOCATE =
  cSectorUnit :: u32
  cUnit :: u32
  cUnitAvail :: u32
  cbSector :: u16

text \<open>
  The division inside \<open>ceil\<close> is an integer division, so \<open>scale\<close> is rounded down; the results are
  stored in the 32-bit and 16-bit fields.
\<close>

definition dskattr_fill :: "u64 \<Rightarrow> u64 \<Rightarrow> u64 \<Rightarrow> FSALLOCATE \<Rightarrow> FSALLOCATE" where
  "dskattr_fill bsize tot avail fsa =
     (let fsa = fsa\<lparr>cSectorUnit := 1\<rparr> in
      if bsize \<ge> 65536
      then fsa\<lparr>cUnit := ucast (tot * 1024), cUnitAvail := ucast (avail * 1024),
               cbSector := ucast (bsize div 1024)\<rparr>
      else if tot > 4294967295
      then let scale = scast (ucast (tot div 4294967295) :: u32) :: u64
           in fsa\<lparr>cUnit := ucast (tot div scale), cUnitAvail := ucast (avail div scale),
                  cbSector := ucast (bsize * scale)\<rparr>
      else fsa\<lparr>cUnit := ucast tot, cUnitAvail := ucast avail, cbSector := ucast bsize\<rparr>)"

definition smbwrp_dskattr ::
  "('w, 'x) samba_scheme \<Rightarrow> ptr \<Rightarrow> FSALLOCATE \<Rightarrow> 'w \<Rightarrow> int \<times> FSALLOCATE \<times> 'w" where
  "smbwrp_dskattr S cli fsa w =
     (case cli of None \<Rightarrow> (maperror (err S) EINVAL, fsa, w)
      | Some c \<Rightarrow>
          let (status, bsize, tot, avail, w) = cli_disk_size S c w
          in if \<not> NT_STATUS_IS_OK status then (os2cli_errno S c w, fsa, w)
             else (0, dskattr_fill bsize tot avail fsa, w))"

definition smbwrp_echo :: "('w, 'x) samba_scheme \<Rightarrow> ptr \<Rightarrow> 'w \<Rightarrow> int \<times> 'w" where
  "smbwrp_echo S cli w =
     (case cli of None \<Rightarrow> (maperror (err S) EINVAL, w)
      | Some c \<Rightarrow> let (status, w) = cli_echo S c 2000 w
                  in (if NT_STATUS_IS_OK status then 0 else -1, w))"

subsection \<open>A client library for the examples\<close>

text \<open>A library whose calls succeed and change nothing; the examples replace the calls they are about.\<close>

definition statinfo0 :: statinfo where
  "statinfo0 = \<lparr>st_btime = 0, st_atime = 0, st_mtime = 0, st_ctime = 0, st_size = 0, st_mode = 0\<rparr>"

definition attrinfo0 :: attrinfo where
  "attrinfo0 = \<lparr>at_mode = 0, at_size = 0, at_ctime = 0, at_atime = 0, at_mtime = 0\<rparr>"

definition samba0 :: "'w samba" where
  "samba0 = helpers.extend helpers0
     \<lparr>cli_errno = (\<lambda>c w. 5), cli_open = (\<lambda>c n m d w. (0, 1, w)),
      cli_read = (\<lambda>c f p n w. (0, [], w)), cli_writeall = (\<lambda>c f b p n w. (0, n, w)),
      cli_close = (\<lambda>c f w. (0, w)), cli_setpathinfo_basic = (\<lambda>c n bt at mt ct m w. (0, w)),
      cli_ftruncate = (\<lambda>c f n w. (0, w)), cli_rename = (\<lambda>c a b w. (0, w)),
      cli_setatr = (\<lambda>c n a t w. (0, w)), cli_unlink = (\<lambda>c n a w. (0, w)),
      cli_mkdir = (\<lambda>c n w. (0, w)), cli_rmdir = (\<lambda>c n w. (0, w)),
      cli_qfileinfo_basic = (\<lambda>c f w. (0, statinfo0, w)), cli_getattrE = (\<lambda>c f w. (0, attrinfo0, w)),
      cli_qpathinfo2 = (\<lambda>c n w. (0, statinfo0, w)), cli_qpathinfo3 = (\<lambda>c n w. (0, statinfo0, w)),
      cli_getatr = (\<lambda>c n w. (0, attrinfo0, w)), cap_nt_smbs = (\<lambda>c w. True),
      cli_set_ea_path = (\<lambda>c p n v w. (0, w)), cli_set_ea_fnum = (\<lambda>c f n v w. (0, w)),
      cli_get_ea_list_path = (\<lambda>c n w. (0, [], w)), cli_disk_size = (\<lambda>c w. (0, 512, 0, 0, w)),
      cli_echo = (\<lambda>c t w. (0, w)), cli_shutdown = (\<lambda>c w. w), time_null = (\<lambda>w. 0),
      get_time_zone = (\<lambda>t. 0), convert_timespec_to_time_t = word_of_int\<rparr>"

lemmas samba0_simps = samba0_def helpers.defs helpers0_def

end
