(* ===== verification/Smb_Theorems.thy ===== *)
theory Smb_Theorems
  imports Smb_Client
begin

text \<open>
  The wrappers of open files against a server that keeps the bytes of a file, the state of the handle
  after a close, and the arithmetic of positions and disk sizes.
\<close>

subsection \<open>A file on a server\<close>

text \<open>
  What the library promises about the file behind a descriptor: \<open>content w\<close> are its bytes in the
  world \<open>w\<close>. A read returns the bytes there are, a write of a whole buffer replaces or appends.
\<close>

definition overwrite :: "string \<Rightarrow> nat \<Rightarrow> string \<Rightarrow> string" where
  "overwrite xs p buf = take p (xs @ replicate (p - length xs) NUL) @ buf @ drop (p + length buf) xs"

definition serves ::
  "('w, 'x) samba_scheme \<Rightarrow> nat \<Rightarrow> u16 \<Rightarrow> ('w \<Rightarrow> string) \<Rightarrow> bool" where
  "serves S c fd content \<longleftrightarrow>
     (\<forall>p n w. \<exists>w'. cli_read S c fd p n w = (0, take (unat n) (drop (unat p) (content w)), w') \<and>
        content w' = content w) \<and>
     (\<forall>buf p n w. length buf = unat n \<longrightarrow> (\<exists>w'. cli_writeall S c fd buf p n w = (0, n, w') \<and>
        content w' = overwrite (content w) (unat p) buf))"

lemma serves_read:
  assumes "serves S c fd content"
  obtains w' where "cli_read S c fd p n w = (0, take (unat n) (drop (unat p) (content w)), w')"
    "content w' = content w"
  using assms unfolding serves_def by blast

lemma serves_write:
  assumes "serves S c fd content" "length buf = unat n"
  obtains w' where "cli_writeall S c fd buf p n w = (0, n, w')"
    "content w' = overwrite (content w) (unat p) buf"
  using assms unfolding serves_def by blast

lemma take_drop_overwrite: "take (length buf) (drop p (overwrite xs p buf)) = buf"
  by (simp add: overwrite_def)

lemma unat_add_of_nat: "unat (p :: u64) + n < 2 ^ 64 \<Longrightarrow> unat (p + of_nat n) = unat p + n"
  by (simp add: unat_word_ariths unat_of_nat take_bit_eq_mod)

text \<open>Reads one after the other; the bytes are joined.\<close>

fun smbwrp_reads ::
  "('w, 'x) samba_scheme \<Rightarrow> ptr \<Rightarrow> smbwrp_file \<Rightarrow> u32 list \<Rightarrow> 'w \<Rightarrow> (string \<times> smbwrp_file \<times> 'w) option" where
  "smbwrp_reads S cli file [] w = Some ([], file, w)"
| "smbwrp_reads S cli file (n # ns) w =
     (case smbwrp_read S cli file n w of (rc, data, buf, w) \<Rightarrow>
        if rc \<noteq> 0 then None
        else map_option (\<lambda>(rest, file, w). (buf @ rest, file, w)) (smbwrp_reads S cli data ns w))"

lemma take_drop_add: "take n (drop p xs) @ take k (drop (p + length (take n (drop p xs))) xs) = take (n + k) (drop p xs)"
proof (cases "n \<le> length xs - p")
  case True
  then have "length (take n (drop p xs)) = n" by simp
  then show ?thesis by (simp only: take_add drop_drop add.commute [of p n])
next
  case False
  then have "take n (drop p xs) = drop p xs" "length (drop p xs) \<le> n" by simp_all
  then show ?thesis by simp
qed

lemma smbwrp_reads_content:
  assumes srv: "serves S c fd content"
  shows "fnum fl = fd \<Longrightarrow> length (content w) < 2 ^ 64 \<Longrightarrow>
    \<exists>fl' w'. smbwrp_reads S (Some c) fl ns w =
      Some (take (sum_list (map unat ns)) (drop (unat (f_offset fl)) (content w)), fl', w') \<and>
      content w' = content w"
proof (induction ns arbitrary: fl w)
  case (Cons n ns)
  let ?data = "take (unat n) (drop (unat (f_offset fl)) (content w))"
  let ?fl = "fl\<lparr>f_offset := f_offset fl + of_nat (length ?data)\<rparr>"
  from serves_read [OF srv] obtain w1 where w1: "cli_read S c fd (f_offset fl) n w = (0, ?data, w1)"
    "content w1 = content w" by blast
  then have r: "smbwrp_read S (Some c) fl n w = (0, ?fl, ?data, w1)"
    using Cons.prems(1) by (simp add: smbwrp_read_def NT_STATUS_IS_OK_def)
  have "unat (f_offset fl) < 2 ^ 64" using unsigned_less [of "f_offset fl", where 'a = nat] by simp
  then have "unat (f_offset fl) + length ?data < 2 ^ 64" using Cons.prems(2) by auto
  from unat_add_of_nat [OF this]
  have off: "unat (f_offset ?fl) = unat (f_offset fl) + length ?data" by simp
  have "fnum ?fl = fd" "length (content w1) < 2 ^ 64" using Cons.prems w1(2) by (simp_all add: fnum_def)
  from Cons.IH [OF this] obtain fl' w' where "smbwrp_reads S (Some c) ?fl ns w1 =
    Some (take (sum_list (map unat ns)) (drop (unat (f_offset ?fl)) (content w1)), fl', w')"
    "content w' = content w1" by blast
  then show ?case using r w1(2) off
      take_drop_add [of "unat n" "unat (f_offset fl)" "content w" "sum_list (map unat ns)"]
    by simp
qed simp

subsection \<open>An example server\<close>

text \<open>A world is the content of the one file.\<close>

definition serv0 :: "string samba" where
  "serv0 = samba0\<lparr>cli_read := \<lambda>c f p n w. (0, take (unat n) (drop (unat p) w), w),
     cli_writeall := \<lambda>c f b p n w. (0, n, overwrite w (unat p) b)\<rparr>"

lemma serves0: "serves serv0 c fd (\<lambda>w. w)"
  by (simp add: serves_def serv0_def samba0_simps)

definition file1 :: smbwrp_file where
  "file1 = \<lparr>f_fd = 7, f_offset = 1, f_openmode = 2, f_openattr = 0, f_denymode = 4, f_btime = 0,
     f_mtime = 0, f_atime = 0, f_ctime = 0, f_updatetime = 0, f_fullname = ''f'', f_fname = ''f''\<rparr>"

subsection \<open>Theorems\<close>

text \<open>C23: Reads of any sizes, one after the other, deliver the file from the position of the handle on
  without gap or overlap, up to the end of the file.\<close>

theorem reads_are_sequential:
  assumes "serves S c (fnum fl) content" "length (content w) < 2 ^ 64"
  shows "\<exists>fl' w'. smbwrp_reads S (Some c) fl ns w =
    Some (take (sum_list (map unat ns)) (drop (unat (f_offset fl)) (content w)), fl', w')"
  using smbwrp_reads_content [OF assms(1) refl assms(2)] by blast

theorem reads_are_sequential_witness:
  "\<exists>fl' w'. smbwrp_reads serv0 (Some 2) file1 [2, 1] ''abcdef'' =
    Some (take (sum_list (map unat [2, 1 :: u32])) (drop (unat (f_offset file1)) ''abcdef''), fl', w')"
  by (rule reads_are_sequential [OF serves0]) simp

text \<open>C24: What is written through a handle is read back from the place where it was written, after
  seeking there; the write moves the position by its length and marks the time stamp for update.\<close>

theorem write_seek_read:
  assumes "serves S c (fnum fl) content" "length buf = unat n" "0 \<le> sint (f_offset fl)"
  shows "\<exists>fl1 w1 fl2 fl3 w3. smbwrp_write S (Some c) fl buf n w = (0, fl1, n, w1) \<and>
    f_offset fl1 = f_offset fl + ucast n \<and> f_updatetime fl1 = 1 \<and>
    smbwrp_lseek S (Some c) fl1 SEEK_SET (f_offset fl) w1 = (0, fl2, w1) \<and>
    smbwrp_read S (Some c) fl2 n w1 = (0, fl3, buf, w3)"
proof -
  from serves_write [OF assms(1,2)] obtain w1 where w1:
    "cli_writeall S c (fnum fl) buf (f_offset fl) n w = (0, n, w1)"
    "content w1 = overwrite (content w) (unat (f_offset fl)) buf" by blast
  from serves_read [OF assms(1)] obtain w3 where
    "cli_read S c (fnum fl) (f_offset fl) n w1 =
      (0, take (unat n) (drop (unat (f_offset fl)) (content w1)), w3)" by blast
  then have "cli_read S c (fnum fl) (f_offset fl) n w1 = (0, buf, w3)"
    using take_drop_overwrite [of buf "unat (f_offset fl)" "content w"] assms(2) w1(2) by simp
  with w1(1) assms(3) show ?thesis
    by (simp add: smbwrp_write_def smbwrp_lseek_def smbwrp_read_def NT_STATUS_IS_OK_def SEEK_SET_def fnum_def)
qed

theorem write_seek_read_witness:
  "\<exists>fl1 w1 fl2 fl3 w3. smbwrp_write serv0 (Some 2) file1 ''XY'' 2 ''abcdef'' = (0, fl1, 2, w1) \<and>
    f_offset fl1 = f_offset file1 + ucast (2 :: u32) \<and> f_updatetime fl1 = 1 \<and>
    smbwrp_lseek serv0 (Some 2) fl1 SEEK_SET (f_offset file1) w1 = (0, fl2, w1) \<and>
    smbwrp_read serv0 (Some 2) fl2 2 w1 = (0, fl3, ''XY'', w3)"
  by (rule write_seek_read [OF serves0]) (simp_all add: file1_def)

text \<open>C25: Whatever the server answers, a close leaves a handle without descriptor, name, position and
  time stamps, and reports the error of the close alone: a failure to set the attributes is not seen.\<close>

theorem close_clears_handle:
  "smbwrp_close S (Some c) fl w = (rc, fl', w') \<Longrightarrow>
     f_fd fl' = -1 \<and> f_fname fl' = [] \<and> f_offset fl' = 0 \<and> f_openattr fl' = 0 \<and> f_mtime fl' = 0 \<and>
     f_btime fl' = 0 \<and> f_atime fl' = 0 \<and> f_ctime fl' = 0 \<and> f_updatetime fl' = 0 \<and>
     f_fullname fl' = f_fullname fl \<and> rc = fst (status_rc S c (cli_close S c (fnum fl) w))"
  by (auto simp: smbwrp_close_def Let_def fnum_def split: prod.splits if_splits)

theorem close_clears_handle_witness:
  "\<exists>rc fl' w'. smbwrp_close (serv0\<lparr>cli_close := \<lambda>c f w. (0xC0000008, w)\<rparr>) (Some 2) file1 ''abc'' = (rc, fl', w') \<and>
     f_fd fl' = -1 \<and> f_fname fl' = [] \<and> f_offset fl' = 0 \<and> f_openattr fl' = 0 \<and> f_mtime fl' = 0 \<and>
     f_btime fl' = 0 \<and> f_atime fl' = 0 \<and> f_ctime fl' = 0 \<and> f_updatetime fl' = 0 \<and>
     f_fullname fl' = f_fullname file1"
proof -
  obtain rc fl' w' where run: "smbwrp_close (serv0\<lparr>cli_close := \<lambda>c f w. (0xC0000008, w)\<rparr>) (Some 2) file1 ''abc''
      = (rc, fl', w')" by (metis prod_cases3)
  from run close_clears_handle [OF run] show ?thesis by blast
qed

lemma unat_ucast_small: "unat (x :: 'a::len word) < 2 ^ LENGTH('b) \<Longrightarrow> unat (ucast x :: 'b::len word) = unat x"
  by (simp add: unsigned_ucast_eq take_bit_nat_eq_self)



text \<open>The scale for larger disks is computed with an integer division under the \<open>ceil\<close>, so it is
  1 for every disk of 2 to the 32 up to nearly twice as many blocks, and the unit count loses its top
  bit: a disk of exactly 2 to the 32 blocks is reported as having none.\<close>

theorem dskattr_large_disk:
  assumes "bsize < 65536" "4294967296 \<le> tot" "tot < 8589934590"
  shows "unat (cUnit (dskattr_fill bsize tot avail fsa0)) = unat tot - 4294967296"
proof -
  have t: "4294967296 \<le> unat tot" "unat tot < 8589934590"
    using assms(2,3) by (simp_all add: word_less_nat_alt word_le_nat_alt)
  then have "unat tot div 4294967295 = 1" by (intro div_nat_eqI) simp_all
  then have "unat (tot div 4294967295) = unat (1 :: u64)" by (simp add: unat_div_distrib)
  then have one: "tot div 4294967295 = 1" by (simp only: word_unat_eq_iff)
  have "4294967295 < tot" using t(1) by (simp add: word_less_nat_alt)
  with assms(1) one have "cUnit (dskattr_fill bsize tot avail fsa0) = ucast tot"
    by (simp add: dskattr_fill_def Let_def not_le [symmetric])
  moreover have "unat (ucast tot :: u32) = unat tot mod 4294967296"
    by (simp add: unsigned_ucast_eq take_bit_eq_mod)
  moreover have "unat tot mod 4294967296 = unat tot - 4294967296"
    using t by (simp add: mod_if)
  ultimately show ?thesis by simp
qed

theorem dskattr_large_disk_witness:
  "unat (cUnit (dskattr_fill 512 4294967296 7 \<lparr>cSectorUnit = 0, cUnit = 0, cUnitAvail = 0, cbSector = 0\<rparr>))
     = unat (4294967296 :: u64) - 4294967296"
  by (rule dskattr_large_disk) simp_all

text \<open>A relative seek is not checked: from the start of a file one byte back leads to the last
  position a 64-bit offset has, with success.\<close>

theorem seek_wraps:
  "smbwrp_lseek S (Some c) (fl\<lparr>f_offset := 0\<rparr>) SEEK_CUR (-1) w = (0, fl\<lparr>f_offset := 0xFFFFFFFFFFFFFFFF\<rparr>, w)"
  by (simp add: smbwrp_lseek_def SEEK_CUR_def SEEK_SET_def)

end
