(* ===== verification/Ea_List.thy ===== *)
theory Ea_List
  imports Smb_Client
begin

text \<open>
  Extended attributes: the packed lists (\<open>FEALIST\<close>, \<open>GEALIST\<close>) as bytes at offsets of a buffer,
  with the code that walks them: \<open>unilistea\<close> of \<open>smbwrp.c\<close>, \<open>helperEASet\<close> and \<open>buildFEALIST\<close> of
  \<open>ndpsmb.c\<close>. Reads and writes outside the buffer have the val \<^term>\<open>None\<close>.
\<close>

subsection \<open>Buffers\<close>

definition bval :: "char \<Rightarrow> nat" where
  "bval c = of_char c"

definition bchr :: "nat \<Rightarrow> char" where
  "bchr n = char_of n"

lemma bval_bchr [simp]: "bval (bchr n) = n mod 256"
  by (simp add: bval_def bchr_def)

lemma bval_less [simp]: "bval c < 256"
  by (simp add: bval_def)

definition rd8 :: "string \<Rightarrow> nat \<Rightarrow> nat option" where
  "rd8 buf p = (if p < length buf then Some (bval (buf ! p)) else None)"

definition rd16 :: "string \<Rightarrow> nat \<Rightarrow> nat option" where
  "rd16 buf p = do { a \<leftarrow> rd8 buf p; b \<leftarrow> rd8 buf (p + 1); Some (a + 256 * b) }"

definition rd32 :: "string \<Rightarrow> nat \<Rightarrow> nat option" where
  "rd32 buf p = do { a \<leftarrow> rd16 buf p; b \<leftarrow> rd16 buf (p + 2); Some (a + 65536 * b) }"

definition rdstr :: "string \<Rightarrow> nat \<Rightarrow> string option" where
  "rdstr buf p = (let s = cstring_of (drop p buf) in
     if p + length s < length buf then Some s else None)"

definition rdmem :: "string \<Rightarrow> nat \<Rightarrow> nat \<Rightarrow> string option" where
  "rdmem buf p n = (if p + n \<le> length buf then Some (take n (drop p buf)) else None)"

definition wrmem :: "string \<Rightarrow> nat \<Rightarrow> string \<Rightarrow> string option" where
  "wrmem buf p bytes =
     (if p + length bytes \<le> length buf
      then Some (take p buf @ bytes @ drop (p + length bytes) buf) else None)"

definition le16 :: "nat \<Rightarrow> string" where
  "le16 n = [bchr n, bchr (n div 256)]"

definition le32 :: "nat \<Rightarrow> string" where
  "le32 n = le16 n @ le16 (n div 65536)"

lemma length_le [simp]: "length (le16 n) = 2" "length (le32 n) = 4"
  by (simp_all add: le16_def le32_def)

text \<open>Reading at the place where something was written.\<close>

lemma rd8_append: "p = length xs \<Longrightarrow> rd8 (xs @ c # ys) p = Some (bval c)"
  by (simp add: rd8_def)

lemma rd16_append: "p = length xs \<Longrightarrow> rd16 (xs @ le16 n @ ys) p = Some (n mod 65536)"
  using rd8_append [of p xs "bchr n" "bchr (n div 256) # ys"]
    rd8_append [of "p + 1" "xs @ [bchr n]" "bchr (n div 256)" ys]
  by (simp add: rd16_def le16_def mod_mult2_eq [of n 256 256, simplified])

lemma rd32_append:
  assumes "p = length xs"
  shows "rd32 (xs @ le32 n @ ys) p = Some (n mod 4294967296)"
  using rd16_append [OF assms, of n "le16 (n div 65536) @ ys"]
    rd16_append [of "p + 2" "xs @ le16 n" "n div 65536" ys] assms
  by (simp add: rd32_def le32_def mod_mult2_eq [of n 65536 65536, simplified])

lemma cstring_of_append [simp]: "cstr s \<Longrightarrow> cstring_of (s @ NUL # ys) = s"
  by (induction s) (auto simp: cstring_of_def)

lemma rdstr_append: "p = length xs \<Longrightarrow> cstr s \<Longrightarrow> rdstr (xs @ s @ NUL # ys) p = Some s"
  by (simp add: rdstr_def)

lemma rdmem_append: "p = length xs \<Longrightarrow> n = length v \<Longrightarrow> rdmem (xs @ v @ ys) p n = Some v"
  by (simp add: rdmem_def)

subsection \<open>Packed lists of attributes\<close>

text \<open>
  An element: the flags, the length of the name, the length of the value, the name with its NUL,
  the value. A list starts with its own total length.
\<close>

type_synonym ea = "string \<times> string"

definition fea_bytes :: "ea \<Rightarrow> string" where
  "fea_bytes ea = (case ea of (name, val) \<Rightarrow>
     bchr 0 # bchr (length name) # le16 (length val) @ name @ NUL # val)"

definition fea_size :: "ea \<Rightarrow> nat" where
  "fea_size ea = 4 + length (fst ea) + 1 + length (snd ea)"

definition feas_size :: "ea list \<Rightarrow> nat" where
  "feas_size eas = 4 + sum_list (map fea_size eas)"

definition fealist_bytes :: "ea list \<Rightarrow> string" where
  "fealist_bytes eas = le32 (feas_size eas) @ concat (map fea_bytes eas)"

definition ea_ok :: "ea \<Rightarrow> bool" where
  "ea_ok ea \<longleftrightarrow> cstr (fst ea) \<and> length (fst ea) \<le> 255 \<and> length (snd ea) \<le> 65535"

lemma length_fea_bytes [simp]: "length (fea_bytes ea) = fea_size ea"
  by (cases ea) (simp add: fea_bytes_def fea_size_def)

lemma length_feas_bytes [simp]: "length (concat (map fea_bytes eas)) = sum_list (map fea_size eas)"
  by (induction eas) simp_all

lemma length_fealist_bytes [simp]: "length (fealist_bytes eas) = feas_size eas"
  by (simp add: fealist_bytes_def feas_size_def)

text \<open>The element at an offset, as the loops read it.\<close>

definition rd_fea :: "string \<Rightarrow> nat \<Rightarrow> (nat \<times> nat) option" where
  "rd_fea buf p = do { n \<leftarrow> rd8 buf (p + 1); v \<leftarrow> rd16 buf (p + 2); Some (n, v) }"

lemma rd_fea_append:
  assumes "p = length xs" "ea_ok (name, val)"
  shows "rd_fea (xs @ fea_bytes (name, val) @ ys) p = Some (length name, length val)"
    "rdstr (xs @ fea_bytes (name, val) @ ys) (p + 4) = Some name"
    "rdmem (xs @ fea_bytes (name, val) @ ys) (p + 4 + length name + 1) (length val) = Some val"
proof -
  let ?buf = "xs @ fea_bytes (name, val) @ ys"
  have "rd8 ?buf (p + 1) = Some (length name mod 256)"
    using rd8_append [of "p + 1" "xs @ [bchr 0]" "bchr (length name)"
        "le16 (length val) @ name @ NUL # val @ ys"] assms(1)
    by (simp add: fea_bytes_def)
  moreover have "rd16 ?buf (p + 2) = Some (length val mod 65536)"
    using rd16_append [of "p + 2" "xs @ [bchr 0, bchr (length name)]" "length val"
        "name @ NUL # val @ ys"] assms(1)
    by (simp add: fea_bytes_def)
  ultimately show "rd_fea ?buf p = Some (length name, length val)"
    using assms(2) by (simp add: rd_fea_def ea_ok_def)
  show "rdstr ?buf (p + 4) = Some name"
    using rdstr_append [of "p + 4" "xs @ bchr 0 # bchr (length name) # le16 (length val)" name "val @ ys"]
      assms by (simp add: fea_bytes_def ea_ok_def)
  show "rdmem ?buf (p + 4 + length name + 1) (length val) = Some val"
    using rdmem_append [of "p + 4 + length name + 1"
        "xs @ bchr 0 # bchr (length name) # le16 (length val) @ name @ [NUL]" "length val" val ys]
      assms(1) by (simp add: fea_bytes_def)
qed

text \<open>The reference reader of a packed list.\<close>

function feas_read :: "string \<Rightarrow> nat \<Rightarrow> nat \<Rightarrow> ea list option" where
  "feas_read buf done cb =
     (if done < cb
      then do { (n, v) \<leftarrow> rd_fea buf done;
                name \<leftarrow> rdstr buf (done + 4);
                val \<leftarrow> rdmem buf (done + 4 + n + 1) v;
                rest \<leftarrow> feas_read buf (done + 4 + n + 1 + v) cb;
                Some ((name, val) # rest) }
      else Some [])"
  by pat_completeness auto
termination
  by (relation "measure (\<lambda>(buf, done, cb). cb - done)") auto

declare feas_read.simps [simp del]

definition fealist_read :: "string \<Rightarrow> ea list option" where
  "fealist_read buf = do { cb \<leftarrow> rd32 buf 0; feas_read buf 4 cb }"

lemma feas_read_append:
  "list_all ea_ok eas \<Longrightarrow> p = length xs \<Longrightarrow>
     feas_read (xs @ concat (map fea_bytes eas) @ ys) p (p + sum_list (map fea_size eas)) = Some eas"
proof (induction eas arbitrary: xs p)
  case Nil
  then show ?case by (simp add: feas_read.simps)
next
  case (Cons ea eas)
  obtain name val where ea: "ea = (name, val)" by (cases ea)
  have ok: "ea_ok (name, val)" using Cons.prems(1) ea by simp
  have IH: "feas_read ((xs @ fea_bytes ea) @ concat (map fea_bytes eas) @ ys) (p + fea_size ea)
      (p + fea_size ea + sum_list (map fea_size eas)) = Some eas"
    using Cons.prems by (intro Cons.IH) simp_all
  show ?case
    using rd_fea_append [OF Cons.prems(2) ok, of "concat (map fea_bytes eas) @ ys"] IH ea
    by (subst feas_read.simps) (simp add: fea_size_def ac_simps)
qed

lemma fealist_read_bytes:
  "list_all ea_ok eas \<Longrightarrow> feas_size eas < 4294967296 \<Longrightarrow>
     fealist_read (fealist_bytes eas @ ys) = Some eas"
  using rd32_append [of 0 "[]" "feas_size eas" "concat (map fea_bytes eas) @ ys"]
    feas_read_append [of eas 4 "le32 (feas_size eas)" ys]
  by (simp add: fealist_read_def fealist_bytes_def feas_size_def)

interpretation fealist: codec fealist_bytes fealist_read
    "\<lambda>eas. list_all ea_ok eas \<and> feas_size eas < 4294967296"
  by unfold_locales (use fealist_read_bytes [of _ "[]"] in auto)

subsection \<open>Listing the attributes of a file\<close>

text \<open>
  An attribute whose name or value is too long for the format is skipped; one that does not fit
  is counted but not written. The counts are far below the range of an \<open>int\<close>.
\<close>

fun unilistea_loop :: "nat \<Rightarrow> nat \<Rightarrow> nat \<Rightarrow> string \<Rightarrow> ea_struct list \<Rightarrow> (nat \<times> string) option" where
  "unilistea_loop cb gotsize p buf [] = Some (gotsize, buf)"
| "unilistea_loop cb gotsize p buf (ea # eas) =
     (let name = ea_name ea; val = ea_value ea in
      if length name > 0xFF \<or> length val > 0xFFFF then unilistea_loop cb gotsize p buf eas
      else let gotsize = gotsize + 4 + length name + length val + 1 in
           if cb \<ge> gotsize
           then do { buf \<leftarrow> wrmem buf p (bchr 0 # bchr (length name) # le16 (length val));
                     buf \<leftarrow> wrmem buf (p + 4) (name @ [NUL]);
                     buf \<leftarrow> wrmem buf (p + 4 + length name + 1) val;
                     unilistea_loop cb gotsize (p + 4 + length name + 1 + length val) buf eas }
           else unilistea_loop cb gotsize p buf eas)"

definition unilistea ::
  "('w, 'x) samba_scheme \<Rightarrow> nat \<Rightarrow> string \<Rightarrow> string \<Rightarrow> nat \<Rightarrow> 'w \<Rightarrow> (int \<times> string \<times> 'w) option" where
  "unilistea S c fname buf cb w =
     do { buf \<leftarrow> wrmem buf 0 (le32 0);
          let (status, eas, w) = cli_get_ea_list_path S c fname w;
          if \<not> NT_STATUS_IS_OK status then Some (os2cli_errno S c w, buf, w)
          else do { (gotsize, buf) \<leftarrow> unilistea_loop cb 4 4 buf eas;
                    buf \<leftarrow> wrmem buf 0 (le32 gotsize);
                    Some (0, buf, w) } }"

definition smbwrp_listea ::
  "('w, 'x) samba_scheme \<Rightarrow> ptr \<Rightarrow> string \<Rightarrow> string \<Rightarrow> nat \<Rightarrow> 'w \<Rightarrow> (int \<times> string \<times> 'w) option" where
  "smbwrp_listea S cli fname buf cb w =
     (case cli of None \<Rightarrow> Some (maperror (err S) EINVAL, buf, w)
      | Some c \<Rightarrow> unilistea S c fname buf cb w)"

definition smbwrp_flistea ::
  "('w, 'x) samba_scheme \<Rightarrow> ptr \<Rightarrow> smbwrp_file \<Rightarrow> string \<Rightarrow> nat \<Rightarrow> 'w \<Rightarrow> (int \<times> string \<times> 'w) option" where
  "smbwrp_flistea S cli file buf cb w =
     (case cli of None \<Rightarrow> Some (maperror (err S) EINVAL, buf, w)
      | Some c \<Rightarrow> unilistea S c (f_fname file) buf cb w)"

subsection \<open>Selecting attributes\<close>

text \<open>The names asked for: an element is the length of the name and the name with its NUL.\<close>

function gea_match :: "'a helpers_scheme \<Rightarrow> string \<Rightarrow> string \<Rightarrow> nat \<Rightarrow> nat \<Rightarrow> bool option" where
  "gea_match E name gea done cb =
     (if done < cb
      then do { n \<leftarrow> rd8 gea (4 + done);
                szName \<leftarrow> rdstr gea (4 + done + 1);
                if fsphStrNCmp E name szName n = 0 then Some True
                else gea_match E name gea (done + n + 2) cb }
      else Some False)"
  by pat_completeness auto
termination
  by (relation "measure (\<lambda>(E, name, gea, done, cb). cb - done)") auto

declare gea_match.simps [simp del]

definition gea_wanted :: "'a helpers_scheme \<Rightarrow> string \<Rightarrow> nat \<Rightarrow> string option \<Rightarrow> bool option" where
  "gea_wanted E src done pGEAList =
     (case pGEAList of None \<Rightarrow> Some True
      | Some gea \<Rightarrow>
          do { cb \<leftarrow> rd32 gea 0;
               if cb > 4
               then do { name \<leftarrow> rdstr src (done + 4); gea_match E name gea 0 (cb - 4) }
               else Some True })"

function buildFEALIST_loop ::
  "'a helpers_scheme \<Rightarrow> string \<Rightarrow> nat \<Rightarrow> string option \<Rightarrow> nat \<Rightarrow> nat \<Rightarrow> nat \<Rightarrow> nat \<Rightarrow> string \<Rightarrow>
     (nat \<times> string) option" where
  "buildFEALIST_loop E src cb gea done dsize ddone pdest dst =
     (if done < cb
      then do { (n, v) \<leftarrow> rd_fea src done;
                insert \<leftarrow> gea_wanted E src done gea;
                (ddone, pdest, dst) \<leftarrow>
                  (if insert
                   then let ddone = ddone + 4 + n + 1 + v in
                        if ddone \<le> dsize
                        then do { dst \<leftarrow> wrmem dst pdest (bchr 0 # bchr n # le16 v);
                                  name \<leftarrow> rdstr src (done + 4);
                                  dst \<leftarrow> wrmem dst (pdest + 4) (name @ [NUL]);
                                  val \<leftarrow> rdmem src (done + 4 + n + 1) v;
                                  dst \<leftarrow> wrmem dst (pdest + 4 + n + 1) val;
                                  Some (ddone, ddone, dst) }
                        else Some (ddone, pdest, dst)
                   else Some (ddone, pdest, dst));
                buildFEALIST_loop E src cb gea (done + 4 + n + 1 + v) dsize ddone pdest dst }
      else Some (ddone, dst))"
  by pat_completeness auto
termination
  by (relation "measure (\<lambda>(E, src, cb, gea, done, dsize, ddone, pdest, dst). cb - done)") auto

declare buildFEALIST_loop.simps [simp del]

definition buildFEALIST ::
  "'a helpers_scheme \<Rightarrow> string \<Rightarrow> string option \<Rightarrow> string \<Rightarrow> (int \<times> string) option" where
  "buildFEALIST E src gea dst =
     do { cb \<leftarrow> rd32 src 0;
          dsize \<leftarrow> rd32 dst 0;
          (ddone, dst) \<leftarrow> buildFEALIST_loop E src cb gea 4 dsize 4 4 dst;
          dst \<leftarrow> wrmem dst 0 (le32 ddone);
          Some (if ddone > dsize \<and> dsize > 4 then err E ERROR_BUFFER_OVERFLOW else 0, dst) }"

subsection \<open>Setting attributes\<close>

text \<open>
  The loop of \<open>helperEASet\<close> over the list of the caller: the pointer is moved to the next element
  before the count is advanced, so the count is advanced by the size of the next element.
\<close>

function helperEASet_loop ::
  "('w, 'x) samba_scheme \<Rightarrow> ptr \<Rightarrow> string \<Rightarrow> string \<Rightarrow> nat \<Rightarrow> nat \<Rightarrow> nat \<Rightarrow> 'w \<Rightarrow> (int \<times> 'w) option" where
  "helperEASet_loop S cli path buf cb p done w =
     (if done < cb
      then do { (n, v) \<leftarrow> rd_fea buf p;
                name \<leftarrow> rdstr buf (p + 4);
                val \<leftarrow> rdmem buf (p + 4 + n + 1) v;
                let (rc, w) = smbwrp_setea S cli path name val w;
                if rc \<noteq> 0 then Some (rc, w)
                else do { let p = p + 4 + n + 1 + v;
                          (n, v) \<leftarrow> rd_fea buf p;
                          helperEASet_loop S cli path buf cb p (done + 4 + n + 1 + v) w } }
      else Some (0, w))"
  by pat_completeness auto
termination
  by (relation "measure (\<lambda>(S, cli, path, buf, cb, p, done, w). cb - done)") auto

declare helperEASet_loop.simps [simp del]

end
