(* ===== verification/Ea_Theorems.thy ===== *)
theory Ea_Theorems
  imports Ea_List
begin

text \<open>
  What the walks over packed attribute lists compute: the listing of a file's attributes is the
  packed form of those that fit the format, the selection copies the wanted ones in order or
  reports the room it needs, and the loop that sets attributes reads beyond the end of its list.
\<close>

subsection \<open>Writing at the end of what was written\<close>

lemma wrmem_append:
  "p = length xs \<Longrightarrow> length bytes \<le> length rest \<Longrightarrow>
     wrmem (xs @ rest) p bytes = Some (xs @ bytes @ drop (length bytes) rest)"
  by (simp add: wrmem_def)

lemma wrmem_length: "wrmem buf p bytes = Some buf' \<Longrightarrow> length buf' = length buf"
  by (auto simp: wrmem_def split: if_splits)

lemma wrmem_take_drop:
  "p + length bytes \<le> length buf \<Longrightarrow> wrmem buf p bytes = Some (take p buf @ bytes @ drop (p + length bytes) buf)"
  by (simp add: wrmem_def)

text \<open>The three writes of one element.\<close>

lemma wr_fea:
  assumes "p = length xs" "fea_size (name, val) \<le> length rest"
  shows "do { buf \<leftarrow> wrmem (xs @ rest) p (bchr 0 # bchr (length name) # le16 (length val));
              buf \<leftarrow> wrmem buf (p + 4) (name @ [NUL]);
              buf \<leftarrow> wrmem buf (p + 4 + length name + 1) val;
              f buf } = f (xs @ fea_bytes (name, val) @ drop (fea_size (name, val)) rest)"
proof -
  let ?h = "bchr 0 # bchr (length name) # le16 (length val)"
  have 1: "wrmem (xs @ rest) p ?h = Some ((xs @ ?h) @ drop 4 rest)"
    using assms wrmem_append [of p xs ?h rest] by (simp add: fea_size_def)
  have 2: "wrmem ((xs @ ?h) @ drop 4 rest) (p + 4) (name @ [NUL])
      = Some ((xs @ ?h @ name @ [NUL]) @ drop (4 + length name + 1) rest)"
    using assms wrmem_append [of "p + 4" "xs @ ?h" "name @ [NUL]" "drop 4 rest"]
    by (simp add: fea_size_def add.commute add.left_commute)
  have 3: "wrmem ((xs @ ?h @ name @ [NUL]) @ drop (4 + length name + 1) rest) (p + 4 + length name + 1) val
      = Some (xs @ fea_bytes (name, val) @ drop (fea_size (name, val)) rest)"
    using assms wrmem_append [of "p + 4 + length name + 1" "xs @ ?h @ name @ [NUL]" val
        "drop (4 + length name + 1) rest"]
    by (simp add: fea_size_def fea_bytes_def add.commute add.left_commute)
  from 1 2 3 show ?thesis by simp
qed

subsection \<open>Listing\<close>

definition fits_format :: "ea_struct \<Rightarrow> bool" where
  "fits_format ea \<longleftrightarrow> length (ea_name ea) \<le> 0xFF \<and> length (ea_value ea) \<le> 0xFFFF"

definition kept :: "ea_struct list \<Rightarrow> ea list" where
  "kept eas = map (\<lambda>ea. (ea_name ea, ea_value ea)) (filter fits_format eas)"

lemma kept_simps [simp]:
  "kept [] = []"
  "fits_format ea \<Longrightarrow> kept (ea # eas) = (ea_name ea, ea_value ea) # kept eas"
  "\<not> fits_format ea \<Longrightarrow> kept (ea # eas) = kept eas"
  by (simp_all add: kept_def)

lemma unilistea_loop_fits:
  "gotsize = length xs \<Longrightarrow> gotsize + sum_list (map fea_size (kept eas)) \<le> cb \<Longrightarrow>
     sum_list (map fea_size (kept eas)) \<le> length rest \<Longrightarrow>
     unilistea_loop cb gotsize gotsize (xs @ rest) eas =
       Some (gotsize + sum_list (map fea_size (kept eas)),
             xs @ concat (map fea_bytes (kept eas)) @ drop (sum_list (map fea_size (kept eas))) rest)"
proof (induction eas arbitrary: gotsize xs rest)
  case (Cons ea eas)
  show ?case
  proof (cases "fits_format ea")
    case False
    with Cons show ?thesis by (auto simp: fits_format_def)
  next
    case True
    let ?e = "(ea_name ea, ea_value ea)"
    have f: "fea_size ?e \<le> length rest" using Cons.prems(3) True by simp
    have IH: "unilistea_loop cb (gotsize + fea_size ?e) (gotsize + fea_size ?e)
        ((xs @ fea_bytes ?e) @ drop (fea_size ?e) rest) eas =
       Some (gotsize + fea_size ?e + sum_list (map fea_size (kept eas)),
             (xs @ fea_bytes ?e) @ concat (map fea_bytes (kept eas)) @
             drop (sum_list (map fea_size (kept eas))) (drop (fea_size ?e) rest))"
      using Cons.prems True by (intro Cons.IH) auto
    have "unilistea_loop cb gotsize gotsize (xs @ rest) (ea # eas) =
        unilistea_loop cb (gotsize + fea_size ?e) (gotsize + fea_size ?e)
          (xs @ fea_bytes ?e @ drop (fea_size ?e) rest) eas"
      using wr_fea [OF Cons.prems(1) f] True Cons.prems(2)
      by (simp add: fits_format_def fea_size_def Let_def add.commute add.left_commute not_less)
    with IH True show ?thesis by (simp add: add.assoc add.commute)
  qed
qed simp

lemma unilistea_fits:
  assumes "cli_get_ea_list_path S c fname w = (0, eas, w')"
    "feas_size (kept eas) \<le> cb" "cb \<le> length buf"
  shows "unilistea S c fname buf cb w =
    Some (0, fealist_bytes (kept eas) @ drop (feas_size (kept eas)) buf, w')"
proof -
  have l4: "4 \<le> length buf" using assms(2,3) by (simp add: feas_size_def)
  then have w1: "wrmem buf 0 (le32 0) = Some (le32 0 @ drop 4 buf)" by (simp add: wrmem_def)
  have w2: "wrmem (le32 0 @ xs) 0 (le32 n) = Some (le32 n @ xs)" for xs n by (simp add: wrmem_def)
  have "unilistea_loop cb 4 4 (le32 0 @ drop 4 buf) eas =
       Some (4 + sum_list (map fea_size (kept eas)), le32 0 @ concat (map fea_bytes (kept eas)) @
             drop (sum_list (map fea_size (kept eas))) (drop 4 buf))"
    using assms(2,3) by (intro unilistea_loop_fits) (auto simp: feas_size_def)
  then show ?thesis using assms(1) w1 w2
    by (simp add: unilistea_def NT_STATUS_IS_OK_def feas_size_def fealist_bytes_def add.commute)
qed

subsection \<open>Selection\<close>

text \<open>A list of wanted names in its packed form.\<close>

definition gea_bytes :: "string \<Rightarrow> string" where
  "gea_bytes g = bchr (length g) # g @ [NUL]"

definition gealist_bytes :: "string list \<Rightarrow> string" where
  "gealist_bytes gs = le32 (4 + sum_list (map (\<lambda>g. length g + 2) gs)) @ concat (map gea_bytes gs)"

definition gea_ok :: "string list \<Rightarrow> bool" where
  "gea_ok gs \<longleftrightarrow> (\<forall>g \<in> set gs. cstr g \<and> length g \<le> 255) \<and>
     4 + sum_list (map (\<lambda>g. length g + 2) gs) < 4294967296"

text \<open>
  An attribute is selected when a wanted name is a prefix of its name (as the comparison of the
  first \<open>cbName\<close> characters sees it), and all are when no names are given.
\<close>

definition gea_selects :: "'a helpers_scheme \<Rightarrow> string list \<Rightarrow> ea \<Rightarrow> bool" where
  "gea_selects E gs ea \<longleftrightarrow> gs = [] \<or> (\<exists>g \<in> set gs. fsphStrNCmp E (fst ea) g (length g) = 0)"

lemma gea_match_append:
  "(\<forall>g \<in> set gs. cstr g \<and> length g \<le> 255) \<Longrightarrow> 4 + p = length xs \<Longrightarrow>
     gea_match E name (xs @ concat (map gea_bytes gs)) p (p + sum_list (map (\<lambda>g. length g + 2) gs))
       = Some (\<exists>g \<in> set gs. fsphStrNCmp E name g (length g) = 0)"
proof (induction gs arbitrary: xs p)
  case Nil
  then show ?case by (simp add: gea_match.simps)
next
  case (Cons g gs)
  let ?buf = "xs @ concat (map gea_bytes (g # gs))"
  have 1: "rd8 ?buf (4 + p) = Some (length g)"
    using rd8_append [OF Cons.prems(2), of "bchr (length g)"] Cons.prems(1) by (simp add: gea_bytes_def)
  have 2: "rdstr ?buf (4 + p + 1) = Some g"
    using rdstr_append [of "4 + p + 1" "xs @ [bchr (length g)]" g "concat (map gea_bytes gs)"] Cons.prems
    by (simp add: gea_bytes_def)
  have 3: "gea_match E name ((xs @ gea_bytes g) @ concat (map gea_bytes gs)) (p + length g + 2)
      (p + length g + 2 + sum_list (map (\<lambda>g. length g + 2) gs))
      = Some (\<exists>g \<in> set gs. fsphStrNCmp E name g (length g) = 0)"
    using Cons.prems by (intro Cons.IH) (auto simp: gea_bytes_def)
  show ?case
    using 1 2 3 by (subst gea_match.simps) (simp add: ac_simps)
qed

lemma gea_wanted_list:
  assumes "gea_ok gs" "rdstr src (p + 4) = Some name"
  shows "gea_wanted E src p (Some (gealist_bytes gs)) = Some (gea_selects E gs (name, val))"
proof -
  have "rd32 (gealist_bytes gs) 0 = Some (4 + sum_list (map (\<lambda>g. length g + 2) gs))"
    using rd32_append [of 0 "[]" "4 + sum_list (map (\<lambda>g. length g + 2) gs)" "concat (map gea_bytes gs)"] assms(1)
    by (simp add: gealist_bytes_def gea_ok_def)
  moreover have "gs \<noteq> [] \<Longrightarrow> 0 < sum_list (map (\<lambda>g. length g + 2) gs)" by (cases gs) auto
  ultimately show ?thesis
    using gea_match_append [of gs 0 "le32 (4 + sum_list (map (\<lambda>g. length g + 2) gs))" E name] assms
    by (cases "gs = []") (auto simp: gea_wanted_def gea_selects_def gealist_bytes_def gea_ok_def)
qed

text \<open>The argument list of the caller and the predicate it stands for.\<close>

definition gea_means :: "'a helpers_scheme \<Rightarrow> string option \<Rightarrow> (ea \<Rightarrow> bool) \<Rightarrow> bool" where
  "gea_means E gea sel \<longleftrightarrow> (gea = None \<and> sel = (\<lambda>_. True)) \<or>
     (\<exists>gs. gea = Some (gealist_bytes gs) \<and> gea_ok gs \<and> sel = gea_selects E gs)"

lemma gea_means_wanted:
  "gea_means E gea sel \<Longrightarrow> rdstr src (p + 4) = Some name \<Longrightarrow>
     gea_wanted E src p gea = Some (sel (name, val))"
  by (auto simp: gea_means_def gea_wanted_list) (simp add: gea_wanted_def)

text \<open>
  The loop copies the selected elements while they fit, and counts all of them. Nothing is written
  outside the destination.
\<close>

lemma buildFEALIST_loop_copies:
  assumes "gea_means E gea sel"
  shows "list_all ea_ok eas \<Longrightarrow> pos = length xs \<Longrightarrow> ddone = length ds \<Longrightarrow>
    dsize \<le> length ds + length rest \<Longrightarrow> ddone + sum_list (map fea_size (filter sel eas)) \<le> dsize \<Longrightarrow>
    buildFEALIST_loop E (xs @ concat (map fea_bytes eas) @ ys) (pos + sum_list (map fea_size eas)) gea
      pos dsize ddone ddone (ds @ rest) =
    Some (ddone + sum_list (map fea_size (filter sel eas)),
          ds @ concat (map fea_bytes (filter sel eas)) @
          drop (sum_list (map fea_size (filter sel eas))) rest)"
proof (induction eas arbitrary: xs pos ds ddone rest)
  case Nil
  then show ?case by (simp add: buildFEALIST_loop.simps)
next
  case (Cons ea eas)
  obtain name val where ea: "ea = (name, val)" by (cases ea)
  have ok: "ea_ok (name, val)" using Cons.prems(1) ea by simp
  let ?src = "xs @ fea_bytes (name, val) @ concat (map fea_bytes eas) @ ys"
  note rd = rd_fea_append [OF Cons.prems(2) ok, of "concat (map fea_bytes eas) @ ys"]
  have want: "gea_wanted E ?src pos gea = Some (sel (name, val))"
    by (rule gea_means_wanted [OF assms rd(2)])
  show ?case
  proof (cases "sel (name, val)")
    case False
    have "buildFEALIST_loop E ((xs @ fea_bytes (name, val)) @ concat (map fea_bytes eas) @ ys)
        (pos + fea_size (name, val) + sum_list (map fea_size eas)) gea
        (pos + fea_size (name, val)) dsize ddone ddone (ds @ rest) =
      Some (ddone + sum_list (map fea_size (filter sel eas)),
            ds @ concat (map fea_bytes (filter sel eas)) @
            drop (sum_list (map fea_size (filter sel eas))) rest)"
      using Cons.prems False ea by (intro Cons.IH) auto
    then show ?thesis using rd want False ea
      by (subst buildFEALIST_loop.simps) (simp add: fea_size_def ac_simps)
  next
    case True
    have f: "fea_size (name, val) \<le> length rest" "ddone + fea_size (name, val) \<le> dsize"
      using Cons.prems(3-5) True ea by auto
    have "buildFEALIST_loop E ((xs @ fea_bytes (name, val)) @ concat (map fea_bytes eas) @ ys)
        (pos + fea_size (name, val) + sum_list (map fea_size eas)) gea
        (pos + fea_size (name, val)) dsize (ddone + fea_size (name, val)) (ddone + fea_size (name, val))
        ((ds @ fea_bytes (name, val)) @ drop (fea_size (name, val)) rest) =
      Some (ddone + fea_size (name, val) + sum_list (map fea_size (filter sel eas)),
            (ds @ fea_bytes (name, val)) @ concat (map fea_bytes (filter sel eas)) @
            drop (sum_list (map fea_size (filter sel eas))) (drop (fea_size (name, val)) rest))"
      using Cons.prems True ea f by (intro Cons.IH) auto
    moreover have "buildFEALIST_loop E ?src (pos + sum_list (map fea_size (ea # eas))) gea pos dsize ddone ddone (ds @ rest)
      = buildFEALIST_loop E ?src (pos + fea_size (name, val) + sum_list (map fea_size eas)) gea
        (pos + fea_size (name, val)) dsize (ddone + fea_size (name, val)) (ddone + fea_size (name, val))
        (ds @ fea_bytes (name, val) @ drop (fea_size (name, val)) rest)"
      using rd want True ea f(2) wr_fea [OF Cons.prems(3) f(1)]
      by (subst buildFEALIST_loop.simps) (simp add: fea_size_def ac_simps Let_def)
    ultimately show ?thesis using True ea by (simp add: ac_simps)
  qed
qed

lemma buildFEALIST_loop_counts:
  assumes "gea_means E gea sel"
  shows "list_all ea_ok eas \<Longrightarrow> pos = length xs \<Longrightarrow> ddone \<le> dsize \<longrightarrow> pdest = ddone \<Longrightarrow>
    dsize \<le> length dst \<Longrightarrow>
    \<exists>dst'. buildFEALIST_loop E (xs @ concat (map fea_bytes eas) @ ys) (pos + sum_list (map fea_size eas)) gea
      pos dsize ddone pdest dst =
    Some (ddone + sum_list (map fea_size (filter sel eas)), dst') \<and> length dst' = length dst"
proof (induction eas arbitrary: xs pos ddone pdest dst)
  case Nil
  then show ?case by (simp add: buildFEALIST_loop.simps)
next
  case (Cons ea eas)
  obtain name val where ea: "ea = (name, val)" by (cases ea)
  have ok: "ea_ok (name, val)" using Cons.prems(1) ea by simp
  let ?s = "fea_size (name, val)"
  let ?src = "xs @ fea_bytes (name, val) @ concat (map fea_bytes eas) @ ys"
  note rd = rd_fea_append [OF Cons.prems(2) ok, of "concat (map fea_bytes eas) @ ys"]
  have want: "gea_wanted E ?src pos gea = Some (sel (name, val))"
    by (rule gea_means_wanted [OF assms rd(2)])
  let ?d = "if sel (name, val) then ddone + ?s else ddone"
  define dst1 where "dst1 = (if sel (name, val) \<and> ddone + ?s \<le> dsize
    then take ddone dst @ fea_bytes (name, val) @ drop (ddone + ?s) dst else dst)"
  define p1 where "p1 = (if sel (name, val) \<and> ddone + ?s \<le> dsize then ddone + ?s else pdest)"
  have len: "length dst1 = length dst" using Cons.prems(4) by (auto simp: dst1_def)
  have "\<exists>dst'. buildFEALIST_loop E ((xs @ fea_bytes (name, val)) @ concat (map fea_bytes eas) @ ys)
      (pos + ?s + sum_list (map fea_size eas)) gea (pos + ?s) dsize ?d p1 dst1 =
    Some (?d + sum_list (map fea_size (filter sel eas)), dst') \<and> length dst' = length dst1"
    using Cons.prems ea len by (intro Cons.IH) (auto simp: p1_def fea_size_def)
  moreover have "buildFEALIST_loop E ?src (pos + sum_list (map fea_size (ea # eas))) gea pos dsize ddone pdest dst
      = buildFEALIST_loop E ?src (pos + ?s + sum_list (map fea_size eas)) gea (pos + ?s) dsize ?d p1 dst1"
  proof (cases "sel (name, val) \<and> ddone + ?s \<le> dsize")
    case True
    then have "pdest = ddone" "?s \<le> length (drop ddone dst)" using Cons.prems(3,4) by auto
    then show ?thesis
      using rd want ea True wr_fea [of ddone "take ddone dst" name val "drop ddone dst"] Cons.prems(4)
      by (subst buildFEALIST_loop.simps) (simp add: dst1_def p1_def fea_size_def ac_simps Let_def)
  next
    case False
    then show ?thesis using rd want ea
      by (subst buildFEALIST_loop.simps) (auto simp: dst1_def p1_def fea_size_def ac_simps Let_def)
  qed
  ultimately show ?case using ea len by (auto simp: ac_simps)
qed

subsection \<open>Setting\<close>

text \<open>The attributes set one after the other.\<close>

fun set_all :: "('w, 'x) samba_scheme \<Rightarrow> ptr \<Rightarrow> string \<Rightarrow> ea list \<Rightarrow> 'w \<Rightarrow> 'w" where
  "set_all S cli path [] w = w"
| "set_all S cli path ((name, val) # eas) w =
     set_all S cli path eas (snd (smbwrp_setea S cli path name val w))"

definition sets_succeed :: "('w, 'x) samba_scheme \<Rightarrow> ptr \<Rightarrow> string \<Rightarrow> bool" where
  "sets_succeed S cli path \<longleftrightarrow> (\<forall>name val w. fst (smbwrp_setea S cli path name val w) = 0)"

text \<open>
  Invariant of the loop at element \<open>k\<close>: the count lags by the size of the first element and leads
  by the size of the current one. After the last element the header that follows the list decides.
\<close>

lemma helperEASet_loop_walk:
  assumes ok: "sets_succeed S cli path" and first: "0 < s1"
  shows "list_all ea_ok (ea # eas) \<Longrightarrow> p = length xs \<Longrightarrow> pos + s1 = p + fea_size ea \<Longrightarrow>
    cb = p + sum_list (map fea_size (ea # eas)) \<Longrightarrow>
    helperEASet_loop S cli path (xs @ concat (map fea_bytes (ea # eas)) @ ys) cb p pos w =
     (case rd_fea (xs @ concat (map fea_bytes (ea # eas)) @ ys) cb of
        None \<Rightarrow> None
      | Some (n, v) \<Rightarrow> helperEASet_loop S cli path (xs @ concat (map fea_bytes (ea # eas)) @ ys) cb cb
          (cb - s1 + 4 + n + 1 + v) (set_all S cli path (ea # eas) w))"
proof (induction eas arbitrary: ea xs p pos w)
  case Nil
  obtain name val where ea: "ea = (name, val)" by (cases ea)
  have "ea_ok (name, val)" using Nil.prems(1) ea by simp
  note rd = rd_fea_append [OF Nil.prems(2) this, of ys]
  have "pos < cb" "p + 4 + length name + 1 + length val = cb" "cb - s1 = pos"
    using Nil.prems(3,4) first ea by (auto simp: fea_size_def)
  then show ?case
    using rd ok ea by (subst helperEASet_loop.simps)
      (simp add: sets_succeed_def split_beta split: option.split)
next
  case (Cons ea2 eas)
  obtain name val where ea: "ea = (name, val)" by (cases ea)
  obtain name2 val2 where ea2: "ea2 = (name2, val2)" by (cases ea2)
  have oks: "ea_ok (name, val)" "ea_ok (name2, val2)" using Cons.prems(1) ea ea2 by auto
  let ?tl = "concat (map fea_bytes eas) @ ys"
  let ?buf = "xs @ fea_bytes (name, val) @ fea_bytes (name2, val2) @ ?tl"
  note rd = rd_fea_append [OF Cons.prems(2) oks(1), of "fea_bytes (name2, val2) @ ?tl"]
  have p2: "p + fea_size (name, val) = length (xs @ fea_bytes (name, val))" using Cons.prems(2) by simp
  note rd2 = rd_fea_append(1) [OF p2 oks(2), of ?tl]
  have lt: "pos < cb" using Cons.prems(3,4) first ea by (simp add: fea_size_def)
  have step: "helperEASet_loop S cli path ?buf cb p pos w =
      helperEASet_loop S cli path ?buf cb (p + fea_size (name, val)) (pos + fea_size (name2, val2))
        (snd (smbwrp_setea S cli path name val w))"
    using rd rd2 ok lt by (subst helperEASet_loop.simps)
      (simp add: sets_succeed_def split_beta fea_size_def ac_simps Let_def)
  have IH: "helperEASet_loop S cli path ((xs @ fea_bytes ea) @ concat (map fea_bytes (ea2 # eas)) @ ys) cb
      (p + fea_size ea) (pos + fea_size ea2) (snd (smbwrp_setea S cli path name val w)) =
     (case rd_fea ((xs @ fea_bytes ea) @ concat (map fea_bytes (ea2 # eas)) @ ys) cb of
        None \<Rightarrow> None
      | Some (n, v) \<Rightarrow> helperEASet_loop S cli path ((xs @ fea_bytes ea) @ concat (map fea_bytes (ea2 # eas)) @ ys) cb cb
          (cb - s1 + 4 + n + 1 + v) (set_all S cli path (ea2 # eas) (snd (smbwrp_setea S cli path name val w))))"
    using Cons.prems by (intro Cons.IH) auto
  show ?case using step IH ea ea2 by (simp split: option.split)
qed

text \<open>Enough after the list: all attributes are set.\<close>

lemma helperEASet_loop_all:
  assumes "sets_succeed S cli path" "list_all ea_ok eas" "eas \<noteq> []"
    "rd_fea (fealist_bytes eas @ ys) (feas_size eas) = Some (n, v)" "fea_size (hd eas) \<le> 4 + n + 1 + v"
  shows "helperEASet_loop S cli path (fealist_bytes eas @ ys) (feas_size eas) 4 4 w =
    Some (0, set_all S cli path eas w)"
proof -
  obtain ea eas' where eas: "eas = ea # eas'" using assms(3) by (cases eas) auto
  have pos: "0 < fea_size ea" "fea_size ea \<le> feas_size eas" by (simp_all add: fea_size_def feas_size_def eas)
  have "\<not> feas_size eas - fea_size ea + 4 + n + 1 + v < feas_size eas"
    using assms(5) pos eas by (simp add: not_less)
  then have "helperEASet_loop S cli path (fealist_bytes eas @ ys) (feas_size eas) (feas_size eas)
      (feas_size eas - fea_size ea + 4 + n + 1 + v) w' = Some (0, w')" for w'
    by (subst helperEASet_loop.simps) simp
  then show ?thesis
    using helperEASet_loop_walk [OF assms(1) pos(1), of ea eas' 4 "le32 (feas_size eas)" 4 "feas_size eas" ys w]
      assms(2,4) eas by (simp add: fealist_bytes_def feas_size_def)
qed

subsection \<open>Theorems\<close>

text \<open>C27: A listing of the attributes of a file is the packed list of the attributes the format can
  hold, in the order of the server, and can be read back, when it fits the buffer.\<close>

theorem listea_complete:
  assumes "cli_get_ea_list_path S c fname w = (0, eas, w')" "list_all ea_ok (kept eas)"
    "feas_size (kept eas) \<le> cb" "cb \<le> length buf" "feas_size (kept eas) < 4294967296"
  shows "\<exists>buf'. smbwrp_listea S (Some c) fname buf cb w = Some (0, buf', w') \<and>
    length buf' = length buf \<and> fealist_read buf' = Some (kept eas)"
  using unilistea_fits [OF assms(1,3,4)] fealist_read_bytes [OF assms(2,5)] assms(3,4)
  by (simp add: smbwrp_listea_def)

definition eas0 :: "ea_struct list" where
  "eas0 = [\<lparr>ea_name = ''A'', ea_value = ''xyz''\<rparr>, \<lparr>ea_name = replicate 256 CHR ''B'', ea_value = []\<rparr>,
           \<lparr>ea_name = ''C'', ea_value = []\<rparr>]"

lemma kept_eas0: "kept eas0 = [(''A'', ''xyz''), (''C'', [])]"
  by (simp add: eas0_def kept_def fits_format_def)

theorem listea_complete_witness:
  "\<exists>buf'. smbwrp_listea (samba0\<lparr>cli_get_ea_list_path := \<lambda>c n w. (0, eas0, w)\<rparr>) (Some 3) ''f''
     (replicate 64 NUL) 64 () = Some (0, buf', ()) \<and>
    length buf' = length (replicate 64 NUL) \<and> fealist_read buf' = Some (kept eas0)"
  by (rule listea_complete [where w = "()"]) (simp_all add: kept_eas0 ea_ok_def feas_size_def fea_size_def)



text \<open>C29: When the attributes asked for need more room than the destination has, \<open>buildFEALIST\<close> stays
  inside it, reports the size they need, and returns \<open>ERROR_BUFFER_OVERFLOW\<close> (except for the pure
  size query, a destination of 4 bytes).\<close>

theorem buildFEALIST_overflow:
  assumes "gea_means E gea sel" "list_all ea_ok eas" "feas_size eas < 4294967296"
    "4 < dsize" "dsize < feas_size (filter sel eas)" "dsize \<le> 4 + length rest"
  shows "\<exists>dst'. buildFEALIST E (fealist_bytes eas @ ys) gea (le32 dsize @ rest) =
      Some (err E ERROR_BUFFER_OVERFLOW, dst') \<and> length dst' = 4 + length rest \<and>
      rd32 dst' 0 = Some (feas_size (filter sel eas))"
proof -
  have sub: "feas_size (filter sel eas) \<le> feas_size eas"
    by (induction eas) (auto simp: feas_size_def)
  have r1: "rd32 (fealist_bytes eas @ ys) 0 = Some (feas_size eas)"
    using rd32_append [of 0 "[]" "feas_size eas"] assms(3) by (simp add: fealist_bytes_def)
  have r2: "rd32 (le32 dsize @ rest) 0 = Some dsize"
    using rd32_append [of 0 "[]" dsize] assms(3,5) sub by simp
  have "\<exists>dst'. buildFEALIST_loop E (le32 (feas_size eas) @ concat (map fea_bytes eas) @ ys)
      (4 + sum_list (map fea_size eas)) gea 4 dsize 4 4 (le32 dsize @ rest) =
    Some (4 + sum_list (map fea_size (filter sel eas)), dst') \<and> length dst' = length (le32 dsize @ rest)"
    using assms by (intro buildFEALIST_loop_counts) auto
  then obtain dst1 where dst1: "buildFEALIST_loop E (fealist_bytes eas @ ys) (feas_size eas) gea 4 dsize 4 4
      (le32 dsize @ rest) = Some (feas_size (filter sel eas), dst1)" "length dst1 = 4 + length rest"
    by (auto simp: feas_size_def fealist_bytes_def)
  let ?dst = "le32 (feas_size (filter sel eas)) @ drop 4 dst1"
  have "wrmem dst1 0 (le32 (feas_size (filter sel eas))) = Some ?dst"
    using dst1(2) by (simp add: wrmem_def)
  moreover have "rd32 ?dst 0 = Some (feas_size (filter sel eas))"
    using rd32_append [of 0 "[]" "feas_size (filter sel eas)"] sub assms(3) by simp
  ultimately show ?thesis using r1 r2 dst1 assms(4,5) by (auto simp: buildFEALIST_def)
qed

theorem buildFEALIST_overflow_witness:
  "\<exists>dst'. buildFEALIST helpers0 (fealist_bytes [(''A'', ''xyz''), (''C'', [])] @ []) None
       (le32 10 @ replicate 6 NUL) = Some (err helpers0 ERROR_BUFFER_OVERFLOW, dst') \<and>
     length dst' = 4 + length (replicate 6 NUL) \<and>
     rd32 dst' 0 = Some (feas_size (filter (\<lambda>_. True) [(''A'', ''xyz''), (''C'', [])]))"
  by (rule buildFEALIST_overflow) (simp_all add: gea_means_def ea_ok_def feas_size_def fea_size_def)

text \<open>The names asked for are compared as prefixes: a request for the attribute \<open>A\<close> is answered
  with the attribute \<open>AB\<close> as well.\<close>

theorem gea_prefix_selects:
  "buildFEALIST helpers0 (fealist_bytes [(''AB'', val), (''B'', [])]) (Some (gealist_bytes [''A''])) (le32 70000 @ rest) =
     Some (0, fealist_bytes [(''AB'', val)] @ drop (fea_size (''AB'', val)) rest)"
  if "length val \<le> 65535" "70000 \<le> 4 + length rest"
proof -
  have sel: "filter (gea_selects helpers0 [''A'']) [(''AB'', val), (''B'', [])] = [(''AB'', val)]"
    by (simp add: gea_selects_def helpers0_def)
  have "gea_means helpers0 (Some (gealist_bytes [''A''])) (gea_selects helpers0 [''A''])"
    by (auto simp: gea_means_def gea_ok_def)
  then have copied: "buildFEALIST_loop helpers0 (le32 (feas_size [(''AB'', val), (''B'', [])]) @
      concat (map fea_bytes [(''AB'', val), (''B'', [])]) @ []) (4 + sum_list (map fea_size [(''AB'', val), (''B'', [])]))
      (Some (gealist_bytes [''A''])) 4 70000 4 4 (le32 70000 @ rest) =
    Some (4 + sum_list (map fea_size [(''AB'', val)]), le32 70000 @ concat (map fea_bytes [(''AB'', val)]) @
      drop (sum_list (map fea_size [(''AB'', val)])) rest)"
    using that unfolding sel [symmetric]
    by (intro buildFEALIST_loop_copies) (auto simp: sel ea_ok_def fea_size_def)
  have "rd32 (fealist_bytes [(''AB'', val), (''B'', [])]) 0 = Some (feas_size [(''AB'', val), (''B'', [])])"
    "rd32 (le32 70000 @ rest) 0 = Some 70000"
    using rd32_append [of 0 "[]" "feas_size [(''AB'', val), (''B'', [])]"] rd32_append [of 0 "[]" 70000] that
    by (simp_all add: fealist_bytes_def feas_size_def fea_size_def)
  moreover have "wrmem (le32 70000 @ xs) 0 (le32 n) = Some (le32 n @ xs)" for xs n
    by (simp add: wrmem_def)
  ultimately show ?thesis using copied that
    by (simp add: buildFEALIST_def fealist_bytes_def feas_size_def fea_size_def)
qed

theorem gea_prefix_selects_witness:
  "buildFEALIST helpers0 (fealist_bytes [(''AB'', ''v''), (''B'', [])]) (Some (gealist_bytes [''A'']))
      (le32 70000 @ replicate 70000 NUL) =
     Some (0, fealist_bytes [(''AB'', ''v'')] @ drop (fea_size (''AB'', ''v'')) (replicate 70000 NUL))"
  by (rule gea_prefix_selects) simp_all

text \<open>C39: The loop of \<open>helperEASet\<close> never ends inside its list: when the server accepts every
  attribute of a list that fills its buffer, the loop goes on to read the header of an element
  after the end of the buffer.\<close>

theorem ea_set_reads_beyond:
  assumes "sets_succeed S cli path" "list_all ea_ok eas" "eas \<noteq> []"
  shows "helperEASet_loop S cli path (fealist_bytes eas) (feas_size eas) 4 4 w = None"
proof -
  obtain ea eas' where eas: "eas = ea # eas'" using assms(3) by (cases eas) auto
  have "rd_fea (fealist_bytes eas) (feas_size eas) = None"
    using length_fealist_bytes [of eas] by (simp add: rd_fea_def rd8_def)
  moreover have "0 < fea_size ea" by (simp add: fea_size_def)
  ultimately show ?thesis
    using helperEASet_loop_walk [OF assms(1), of "fea_size ea" ea eas' 4 "le32 (feas_size eas)" 4 "feas_size eas" "[]" w]
      assms(2) eas by (simp add: fealist_bytes_def feas_size_def)
qed

theorem ea_set_reads_beyond_witness:
  "helperEASet_loop samba0 (Some 1) ''f'' (fealist_bytes [(''A'', ''xyz'')]) (feas_size [(''A'', ''xyz'')]) 4 4 () = None"
  by (rule ea_set_reads_beyond)
    (simp_all add: sets_succeed_def smbwrp_setea_def status_rc_def samba0_simps NT_STATUS_IS_OK_def ea_ok_def)



end
