(* ===== verification/Connect.thy ===== *)
theory Connect
  imports Smb_Client
begin

text \<open>
  Resources and connections, and \<open>smbwrp_connect\<close> of \<open>smbwrp.c\<close>: negotiation, session setup with
  the fallback to an anonymous session, tree connect. The further functions of the Samba library it
  calls are the record \<open>smbconn\<close>.
\<close>

subsection \<open>Data\<close>

record Resource =
  rootlevel :: int
  srv :: smbwrp_server
  logfile :: string
  loglevel :: int
  easupport :: int
  krb5support :: int
  ntlmv1support :: int
  encryptionsupport :: int
  cachetimeout :: int
  cachedepth :: int
  pdc :: ptr

record Connection =
  pRes :: nat
  cli :: ptr
  cfile :: smbwrp_file

record cli_credentials =
  cr_username :: string
  cr_workgroup :: "string option"
  cr_password :: string
  cr_use_kerberos :: bool
  cr_fallback :: bool

record 'w smbconn = "'w samba" +
  cli_connect_nb :: "string \<Rightarrow> bool \<Rightarrow> bool \<Rightarrow> 'w \<Rightarrow> u32 \<times> nat \<times> 'w"
  smbXcli_negprot :: "nat \<Rightarrow> int \<Rightarrow> 'w \<Rightarrow> u32 \<times> 'w"
  smbXcli_conn_protocol :: "nat \<Rightarrow> 'w \<Rightarrow> int"
  smb2cli_conn_set_max_credits :: "nat \<Rightarrow> 'w \<Rightarrow> 'w"
  cli_session_setup_creds :: "nat \<Rightarrow> cli_credentials \<Rightarrow> 'w \<Rightarrow> u32 \<times> 'w"
  cli_session_setup_anon :: "nat \<Rightarrow> 'w \<Rightarrow> u32 \<times> 'w"
  cli_credentials_authentication_requested :: "cli_credentials \<Rightarrow> bool"
  cli_credentials_is_anonymous :: "cli_credentials \<Rightarrow> bool"
  cli_tree_connect_creds :: "nat \<Rightarrow> string \<Rightarrow> cli_credentials option \<Rightarrow> 'w \<Rightarrow> u32 \<times> 'w"
  cli_cm_force_encryption_creds :: "nat \<Rightarrow> cli_credentials option \<Rightarrow> string \<Rightarrow> 'w \<Rightarrow> u32 \<times> 'w"
  lp_set_cmdline_ntlmv2_no :: "'w \<Rightarrow> 'w"
  lp_client_max_protocol :: "'w \<Rightarrow> int"
  PROTOCOL_DEFAULT :: int
  PROTOCOL_LATEST :: int
  PROTOCOL_SMB2_02 :: int

subsection \<open>Connecting\<close>

text \<open>An \<open>NTSTATUS\<close> that is returned as an \<open>int\<close>.\<close>

definition status_int :: "u32 \<Rightarrow> int" where
  "status_int s = sint s"

text \<open>
  The session: the credentials of the resource and, only when there is no password, a user name and
  no kerberos, an anonymous session. The result says whether the session stands.
\<close>

definition connect_session ::
  "('w, 'x) smbconn_scheme \<Rightarrow> Resource \<Rightarrow> nat \<Rightarrow> 'w \<Rightarrow> bool \<times> 'w" where
  "connect_session S r c w =
     (let s = srv r;
          creds = \<lparr>cr_username = username s,
                   cr_workgroup = (if workgroup s = [] then None else Some (workgroup s)),
                   cr_password = password s, cr_use_kerberos = (krb5support r \<noteq> 0),
                   cr_fallback = (krb5support r \<noteq> 0)\<rparr>;
          (status, w) = cli_session_setup_creds S c creds w
      in if NT_STATUS_IS_OK status then (True, w)
         else if password s \<noteq> [] \<or> username s = [] \<or> krb5support r \<noteq> 0 \<or>
                 cli_credentials_authentication_requested S creds \<or>
                 cli_credentials_is_anonymous S creds
         then (False, w)
         else let (status, w) = cli_session_setup_anon S c w
              in (NT_STATUS_IS_OK status, w))"

text \<open>
  The credentials are freed, and their pointer set to NULL, before the tree connect that takes them
  as an argument.
\<close>

definition connect_tree ::
  "('w, 'x) smbconn_scheme \<Rightarrow> Resource \<Rightarrow> nat \<Rightarrow> 'w \<Rightarrow> int \<times> 'w" where
  "connect_tree S r c w =
     (let s = srv r;
          share = (if share_name s \<noteq> [] then share_name s else ''IPC$'');
          (status, w) = cli_tree_connect_creds S c share None w
      in if \<not> NT_STATUS_IS_OK status then (status_int status, cli_shutdown S c w)
         else if encryptionsupport r \<noteq> 0
         then let (status, w) = cli_cm_force_encryption_creds S c None share w
              in if \<not> NT_STATUS_IS_OK status then (status_int status, cli_shutdown S c w)
                 else (0, w)
         else (0, w))"

definition smbwrp_connect ::
  "('w, 'x) smbconn_scheme \<Rightarrow> Resource \<Rightarrow> ptr \<Rightarrow> 'w \<Rightarrow> int \<times> ptr \<times> 'w" where
  "smbwrp_connect S r old w =
     (let max_protocol = lp_client_max_protocol S w;
          w = (if ntlmv1support r \<noteq> 0 then lp_set_cmdline_ntlmv2_no S w else w);
          (status, c, w) = cli_connect_nb S (server_name (srv r)) (krb5support r \<noteq> 0)
                             (encryptionsupport r \<noteq> 0) w
      in if \<not> NT_STATUS_IS_OK status then (3, old, w)
         else
           let max_protocol =
                 (if max_protocol = PROTOCOL_DEFAULT S then PROTOCOL_LATEST S else max_protocol);
               (status, w) = smbXcli_negprot S c max_protocol w
           in if \<not> NT_STATUS_IS_OK status then (status_int status, old, cli_shutdown S c w)
              else
                let w = (if smbXcli_conn_protocol S c w \<ge> PROTOCOL_SMB2_02 S
                         then smb2cli_conn_set_max_credits S c w else w);
                    (ok, w) = connect_session S r c w
                in if \<not> ok then (6, old, cli_shutdown S c w)
                   else let (rc, w) = connect_tree S r c w
                        in if rc \<noteq> 0 then (rc, old, w) else (0, Some c, w))"

text \<open>The connection test at mount time.\<close>

definition mount_rc :: "err_code \<Rightarrow> int \<Rightarrow> int" where
  "mount_rc code rc = code
     (if rc = 0 then NO_ERROR
      else if rc \<in> {1, 10, 11} then ERROR_BAD_NET_NAME
      else if rc = 2 then ERROR_INIT_ROUTINE_FAILED
      else if rc = 3 then ERROR_BAD_NET_RESP
      else if rc = 4 then ERROR_NETWORK_BUSY
      else if rc = 6 then ERROR_NETWORK_ACCESS_DENIED
      else if rc = 7 then ERROR_BAD_NETPATH
      else ERROR_UNEXP_NET_ERR)"

definition checkMountResource :: "('w, 'x) smbconn_scheme \<Rightarrow> Resource \<Rightarrow> 'w \<Rightarrow> int \<times> 'w" where
  "checkMountResource S r w =
     (let (rc, c, w) = smbwrp_connect S r None w
      in (mount_rc (err S) rc, smbwrp_disconnect S c w))"

subsection \<open>Open connections\<close>

text \<open>
  What the library promises about the connections that are open in a world: \<open>cli_connect_nb\<close> opens
  a new one when it succeeds, \<open>cli_shutdown\<close> closes one, the other calls of the set-up keep them.
\<close>

definition conns_ok :: "('w, 'x) smbconn_scheme \<Rightarrow> ('w \<Rightarrow> nat set) \<Rightarrow> bool" where
  "conns_ok S opened \<longleftrightarrow>
     (\<forall>n k e w. case cli_connect_nb S n k e w of (status, c, w') \<Rightarrow>
        if NT_STATUS_IS_OK status then c \<notin> opened w \<and> opened w' = insert c (opened w)
        else opened w' = opened w) \<and>
     (\<forall>c w. opened (cli_shutdown S c w) = opened w - {c}) \<and>
     (\<forall>c p w. opened (snd (smbXcli_negprot S c p w)) = opened w) \<and>
     (\<forall>c w. opened (smb2cli_conn_set_max_credits S c w) = opened w) \<and>
     (\<forall>c cr w. opened (snd (cli_session_setup_creds S c cr w)) = opened w) \<and>
     (\<forall>c w. opened (snd (cli_session_setup_anon S c w)) = opened w) \<and>
     (\<forall>c s cr w. opened (snd (cli_tree_connect_creds S c s cr w)) = opened w) \<and>
     (\<forall>c cr s w. opened (snd (cli_cm_force_encryption_creds S c cr s w)) = opened w) \<and>
     (\<forall>w. opened (lp_set_cmdline_ntlmv2_no S w) = opened w)"

lemma status_int_zero [simp]: "status_int s = 0 \<longleftrightarrow> NT_STATUS_IS_OK s"
  by (simp add: status_int_def NT_STATUS_IS_OK_def signed_eq_0_iff)

lemma connect_session_opened:
  "conns_ok S opened \<Longrightarrow> opened (snd (connect_session S r c w)) = opened w"
  unfolding connect_session_def Let_def split_beta conns_ok_def by simp

lemma connect_tree_opened:
  assumes "conns_ok S opened"
  shows "opened (snd (connect_tree S r c w)) =
    (if fst (connect_tree S r c w) = 0 then opened w else opened w - {c})"
proof -
  have k: "opened (cli_shutdown S c w) = opened w - {c}"
    "opened (snd (cli_tree_connect_creds S c s cr w)) = opened w"
    "opened (snd (cli_cm_force_encryption_creds S c cr s w)) = opened w" for c s cr w
    using assms by (auto simp: conns_ok_def)
  show ?thesis by (simp add: connect_tree_def Let_def split_beta k)
qed

text \<open>A connection attempt opens at most one connection, and none when it fails.\<close>

lemma smbwrp_connect_opened:
  assumes "conns_ok S opened" "smbwrp_connect S r old w = (rc, p, w')"
  shows "rc \<noteq> 0 \<and> p = old \<and> opened w' = opened w \<or>
    (\<exists>c. rc = 0 \<and> p = Some c \<and> c \<notin> opened w \<and> opened w' = insert c (opened w))"
proof -
  have k: "opened (cli_shutdown S c w) = opened w - {c}"
    "opened (snd (smbXcli_negprot S c q w)) = opened w"
    "opened (smb2cli_conn_set_max_credits S c w) = opened w"
    "opened (lp_set_cmdline_ntlmv2_no S w) = opened w" for c q w
    using assms(1) by (auto simp: conns_ok_def)
  define w1 where "w1 = (if ntlmv1support r \<noteq> 0 then lp_set_cmdline_ntlmv2_no S w else w)"
  obtain st c w2 where nb: "cli_connect_nb S (server_name (srv r)) (krb5support r \<noteq> 0)
      (encryptionsupport r \<noteq> 0) w1 = (st, c, w2)" by (metis prod_cases3)
  have o1: "opened w1 = opened w" by (simp add: w1_def k)
  have o2: "if NT_STATUS_IS_OK st then c \<notin> opened w1 \<and> opened w2 = insert c (opened w1) else opened w2 = opened w1"
    using assms(1) [unfolded conns_ok_def, THEN conjunct1, THEN spec [of _ "server_name (srv r)"],
        THEN spec [of _ "krb5support r \<noteq> 0"], THEN spec [of _ "encryptionsupport r \<noteq> 0"],
        THEN spec [of _ w1]] nb by simp
  show ?thesis
  proof (cases "NT_STATUS_IS_OK st")
    case False
    then show ?thesis using assms(2) nb o1 o2
      by (simp add: smbwrp_connect_def Let_def w1_def [symmetric])
  next
    case True
    define prot where "prot = (if lp_client_max_protocol S w = PROTOCOL_DEFAULT S
      then PROTOCOL_LATEST S else lp_client_max_protocol S w)"
    obtain st2 w3 where np: "smbXcli_negprot S c prot w2 = (st2, w3)" by (cases "smbXcli_negprot S c prot w2")
    define w4 where "w4 = (if smbXcli_conn_protocol S c w3 \<ge> PROTOCOL_SMB2_02 S
      then smb2cli_conn_set_max_credits S c w3 else w3)"
    obtain ok w5 where se: "connect_session S r c w4 = (ok, w5)" by (cases "connect_session S r c w4")
    obtain rc' w6 where tr: "connect_tree S r c w5 = (rc', w6)" by (cases "connect_tree S r c w5")
    have o3: "opened w2 = insert c (opened w)" "c \<notin> opened w" "opened w3 = opened w2"
      "opened w4 = opened w3" using o1 o2 True k(2) [of c prot w2] np by (simp_all add: w4_def k)
    have o5: "opened w5 = opened w4" using connect_session_opened [OF assms(1), of r c w4] se by simp
    have o6: "opened w6 = (if rc' = 0 then opened w5 else opened w5 - {c})"
      using connect_tree_opened [OF assms(1), of r c w5] tr by simp
    have "(rc, p, w') = (if \<not> NT_STATUS_IS_OK st2 then (status_int st2, old, cli_shutdown S c w3)
        else if \<not> ok then (6, old, cli_shutdown S c w5)
        else if rc' \<noteq> 0 then (rc', old, w6) else (0, Some c, w6))"
      using assms(2) nb True np se tr
      by (cases "NT_STATUS_IS_OK st2"; cases ok; cases "rc' = 0")
        (simp_all add: smbwrp_connect_def Let_def w1_def [symmetric] prot_def [symmetric] w4_def [symmetric])
    then show ?thesis using o3 o5 o6 by (auto simp: k split: if_splits)
  qed
qed

end
