(* ===== verification/Path_Parser.thy ===== *)
theory Path_Parser
  imports Connect
begin

text \<open>
  \<open>iftestpath\<close> and \<open>pathparser\<close> of \<open>ndpsmb.c\<close>: a path of the drive is split into the parts that name
  a workgroup, a server and a share (as far as the resource leaves them open) and the path on the
  share; when a part differs from the current one, the connection is replaced. The value
  \<^term>\<open>None\<close> is a write beyond one of the fixed buffers.
\<close>

subsection \<open>The test path\<close>

definition test_path :: string where
  "test_path = ''A.+,;=[].B''"

partial_function (option) iftestpath :: "'a helpers_scheme \<Rightarrow> string \<Rightarrow> bool option" where
  "iftestpath E p =
     (case fsphStrChr E p CHR ''A'' of
        None \<Rightarrow> Some False
      | Some i \<Rightarrow> if fsphStrNCmp E (drop i p) test_path 10 = 0 then Some True
                  else iftestpath E (drop (i + 1) p))"

subsection \<open>One level\<close>

text \<open>
  The next component of the path becomes the name at this level, if it differs from the old one or
  is empty. A component longer than 255 characters does not fit its array.
\<close>

definition parse_level :: "'a helpers_scheme \<Rightarrow> string \<Rightarrow> string \<Rightarrow> (string \<times> string \<times> bool) option" where
  "parse_level E old path =
     (let i = (case fsphStrChr E path backslash of Some i \<Rightarrow> i | None \<Rightarrow> length path);
          changed = (length old \<noteq> i \<or> i = 0 \<or> fsphStrNICmp E path old i \<noteq> 0);
          rest = (if i < length path \<and> path ! i = backslash then drop (i + 1) path else drop i path)
      in do { require (changed \<longrightarrow> i < 256);
              Some (if changed then take i path else old, rest, changed) })"

text \<open>
  The levels from \<open>rootlevel\<close> to the share, over the copy of the server data: the state is the
  copy, the rest of the path, whether a name has changed, and the level that is due.
\<close>

definition level_at ::
  "'a helpers_scheme \<Rightarrow> int \<Rightarrow> (smbwrp_server \<Rightarrow> string) \<Rightarrow> (string \<Rightarrow> smbwrp_server \<Rightarrow> smbwrp_server) \<Rightarrow>
     smbwrp_server \<times> string \<times> bool \<times> int \<Rightarrow> (smbwrp_server \<times> string \<times> bool \<times> int) option" where
  "level_at E k get put s =
     (case s of (tmp, path, newlevel, level) \<Rightarrow>
        if level = k
        then do { (n, path, changed) \<leftarrow> parse_level E (get tmp) path;
                  Some (put n tmp, path, newlevel \<or> changed, level + 1) }
        else Some s)"

definition parse_levels ::
  "'a helpers_scheme \<Rightarrow> int \<Rightarrow> smbwrp_server \<Rightarrow> string \<Rightarrow> (smbwrp_server \<times> string \<times> bool) option" where
  "parse_levels E level tmp path =
     do { s \<leftarrow> level_at E 0 workgroup (\<lambda>n t. t\<lparr>workgroup := n\<rparr>) (tmp, path, False, level);
          s \<leftarrow> level_at E 1 server_name (\<lambda>n t. t\<lparr>server_name := n\<rparr>) s;
          (tmp, path, newlevel, level) \<leftarrow> level_at E 2 share_name (\<lambda>n t. t\<lparr>share_name := n\<rparr>) s;
          Some (tmp, path, newlevel) }"

subsection \<open>The whole parser\<close>

definition pathparser ::
  "('w, 'x) smbconn_scheme \<Rightarrow> Resource \<Rightarrow> Connection \<Rightarrow> string \<Rightarrow> 'w \<Rightarrow>
     (int \<times> string \<times> Resource \<times> Connection \<times> 'w) option" where
  "pathparser S res con path w =
     do { test \<leftarrow> iftestpath S path;
          if test then Some (err S NO_ERROR, backslash # test_path, res, con, w)
          else do {
            let path = (if path \<noteq> [] \<and> hd path = backslash then tl path else path);
            (rc, path, res, con, w) \<leftarrow>
              (if rootlevel res < 3
               then do { (tmp, path, newlevel) \<leftarrow> parse_levels S (rootlevel res) (srv res) path;
                         if newlevel
                         then let tmpRes = res\<lparr>srv := tmp\<rparr>;
                                  (rc, tmp_cli, w) = smbwrp_connect S tmpRes None w
                              in if rc = 0
                                 then let w = smbwrp_disconnect S (cli con) w
                                      in Some (rc, path, tmpRes, con\<lparr>cli := tmp_cli\<rparr>, w)
                                 else Some (rc, path, res, con, w)
                         else Some (err S NO_ERROR, path, res, con, w) }
               else Some (err S NO_ERROR, path, res, con, w));
            require (length path < 260);
            Some (rc, backslash # path, res, con, w) } }"

subsection \<open>Lemmas\<close>

text \<open>The comparison of a prefix: equal characters compare equal.\<close>

definition nicmp_refl :: "'a helpers_scheme \<Rightarrow> bool" where
  "nicmp_refl E \<longleftrightarrow> (\<forall>s t. fsphStrNICmp E (s @ t) s (length s) = 0)"

lemma iftestpath_total:
  assumes "strchr_ok E" shows "\<exists>b. iftestpath E p = Some b"
proof (induction "length p" arbitrary: p rule: less_induct)
  case less
  show ?case
  proof (rule strchr_cases [OF assms, of "CHR ''A''" p])
    assume "fsphStrChr E p CHR ''A'' = None"
    then show ?thesis by (subst iftestpath.simps) auto
  next
    fix d n
    assume s: "p = d @ CHR ''A'' # n" "fsphStrChr E p CHR ''A'' = Some (length d)"
    then have "length (drop (length d + 1) p) < length p" by simp
    from less [OF this] s(2) show ?thesis by (subst iftestpath.simps) auto
  qed
qed

lemma iftestpath_no_A:
  assumes "strchr_ok E" "CHR ''A'' \<notin> set p" shows "iftestpath E p = Some False"
  using strchr_none [OF assms] by (subst iftestpath.simps) simp

text \<open>A component up to a backslash or the end of the path.\<close>

lemma parse_level_component:
  assumes "strchr_ok E" "backslash \<notin> set part" "rest = [] \<or> hd rest = backslash"
  shows "parse_level E old (part @ rest) =
    (let changed = (length old \<noteq> length part \<or> part = [] \<or> fsphStrNICmp E (part @ rest) old (length part) \<noteq> 0)
     in if changed \<and> 256 \<le> length part then None
        else Some (if changed then part else old, tl rest, changed))"
proof (cases rest)
  case Nil
  then show ?thesis using strchr_none [OF assms(1,2)]
    by (simp add: parse_level_def Let_def require_def not_less)
next
  case (Cons b rest')
  with assms(3) have "rest = backslash # rest'" by simp
  then show ?thesis using strchr_split [OF assms(1,2), of rest']
    by (simp add: parse_level_def Let_def require_def not_less)
qed

lemma component_split: "\<exists>part rest. path = part @ rest \<and> backslash \<notin> set part \<and> (rest = [] \<or> hd rest = backslash)"
proof (cases "backslash \<in> set path")
  case True
  then obtain d n where "path = d @ backslash # n" "backslash \<notin> set d" by (blast dest: split_list_first)
  then show ?thesis by (intro exI [of _ d] exI [of _ "backslash # n"]) simp
next
  case False
  then show ?thesis by (intro exI [of _ path] exI [of _ "[]"]) simp
qed

text \<open>Parsing a level does not overflow when the path is short, and does not lengthen it.\<close>

lemma parse_level_short:
  assumes "strchr_ok E" "length path < 256"
  shows "\<exists>n rest ch. parse_level E old path = Some (n, rest, ch) \<and> length rest \<le> length path"
proof -
  from component_split [of path] obtain part r where "path = part @ r" "backslash \<notin> set part"
    "r = [] \<or> hd r = backslash" by blast
  with assms show ?thesis by (auto simp: parse_level_component Let_def)
qed

lemma level_at_short:
  assumes "strchr_ok E" "length path < 256"
  shows "\<exists>t rest ch l. level_at E k get put (tmp, path, new, level) = Some (t, rest, ch, l) \<and>
    length rest \<le> length path"
  using parse_level_short [OF assms, of "get tmp"] by (auto simp: level_at_def)

lemma parse_levels_short:
  assumes "strchr_ok E" "length path < 256"
  shows "\<exists>t rest ch. parse_levels E level tmp path = Some (t, rest, ch) \<and> length rest \<le> length path"
proof -
  from level_at_short [OF assms] obtain t1 r1 c1 l1 where
    s1: "level_at E 0 workgroup (\<lambda>n t. t\<lparr>workgroup := n\<rparr>) (tmp, path, False, level) = Some (t1, r1, c1, l1)"
    and le1: "length r1 \<le> length path" by blast
  with assms(2) have "length r1 < 256" by simp
  from level_at_short [OF assms(1) this] obtain t2 r2 c2 l2 where
    s2: "level_at E 1 server_name (\<lambda>n t. t\<lparr>server_name := n\<rparr>) (t1, r1, c1, l1) = Some (t2, r2, c2, l2)"
    and le2: "length r2 \<le> length r1" by blast
  with \<open>length r1 < 256\<close> have "length r2 < 256" by simp
  from level_at_short [OF assms(1) this] obtain t3 r3 c3 l3 where
    s3: "level_at E 2 share_name (\<lambda>n t. t\<lparr>share_name := n\<rparr>) (t2, r2, c2, l2) = Some (t3, r3, c3, l3)"
    and le3: "length r3 \<le> length r2" by blast
  from s1 s2 s3 le1 le2 le3 show ?thesis by (simp add: parse_levels_def)
qed

text \<open>Parsing a level again with the name it gave changes nothing.\<close>

lemma parse_level_again:
  assumes "strchr_ok E" "nicmp_refl E" "parse_level E old path = Some (n, rest, ch)" "n \<noteq> []"
  shows "parse_level E n path = Some (n, rest, False)"
proof -
  from component_split [of path] obtain part r where P: "path = part @ r" "backslash \<notin> set part"
    "r = [] \<or> hd r = backslash" by blast
  note L = parse_level_component [OF assms(1) P(2,3)]
  have "fsphStrNICmp E (part @ r) part (length part) = 0"
    using assms(2) by (simp add: nicmp_refl_def)
  then show ?thesis using assms(3,4) P(1) L [of old] L [of n]
    by (auto simp: Let_def split: if_splits)
qed

lemma parse_level_empty: "strchr_ok E \<Longrightarrow> parse_level E old [] = Some ([], [], True)"
  using parse_level_component [of E "[]" "[]" old] by simp

definition named_from :: "int \<Rightarrow> smbwrp_server \<Rightarrow> bool" where
  "named_from level t \<longleftrightarrow> (level = 0 \<longrightarrow> workgroup t \<noteq> []) \<and>
     (level = 0 \<or> level = 1 \<longrightarrow> server_name t \<noteq> []) \<and>
     (level = 0 \<or> level = 1 \<or> level = 2 \<longrightarrow> share_name t \<noteq> [])"

lemma level_at_again:
  assumes ok: "strchr_ok E" "nicmp_refl E"
    and run: "level_at E k get put (tmp, path, new, l) = Some (t1, r, ch, l1)"
    and same: "get t' = get t1" and named: "l = k \<longrightarrow> get t1 \<noteq> []"
    and gp: "\<And>n t. get (put n t) = n" "\<And>t. put (get t) t = t"
  shows "level_at E k get put (t', path, False, l) = Some (t', r, False, l1)"
proof (cases "l = k")
  case True
  with run obtain n c where n: "parse_level E (get tmp) path = Some (n, r, c)" "t1 = put n tmp" "l1 = l + 1"
    by (auto simp: level_at_def bind_Some_iff split: prod.splits)
  with named True gp(1) same have "get t' = n" "n \<noteq> []" by auto
  with parse_level_again [OF ok n(1)] True gp(2) [of t'] n(3) show ?thesis by (simp add: level_at_def)
qed (use run in \<open>simp add: level_at_def\<close>)

lemma level_at_keeps:
  assumes "level_at E k get put (tmp, path, new, l) = Some (t1, r, ch, l1)" "\<And>n t. f (put n t) = f t"
  shows "f t1 = f tmp"
  using assms by (auto simp: level_at_def bind_Some_iff split: if_splits prod.splits)

lemma level_at_level:
  "level_at E k get put (tmp, path, new, l) = Some (t1, r, ch, l1) \<Longrightarrow> l1 = (if l = k then l + 1 else l)"
  by (auto simp: level_at_def bind_Some_iff split: if_splits prod.splits)

lemma parse_levels_again:
  assumes ok: "strchr_ok E" "nicmp_refl E" and run: "parse_levels E level tmp path = Some (t, rest, ch)"
    and named: "named_from level t"
  shows "parse_levels E level t path = Some (t, rest, False)"
proof -
  from run obtain t1 r1 c1 l1 t2 r2 c2 l2 l3 where
    s1: "level_at E 0 workgroup (\<lambda>n t. t\<lparr>workgroup := n\<rparr>) (tmp, path, False, level) = Some (t1, r1, c1, l1)"
    and s2: "level_at E 1 server_name (\<lambda>n t. t\<lparr>server_name := n\<rparr>) (t1, r1, c1, l1) = Some (t2, r2, c2, l2)"
    and s3: "level_at E 2 share_name (\<lambda>n t. t\<lparr>share_name := n\<rparr>) (t2, r2, c2, l2) = Some (t, rest, ch, l3)"
    unfolding parse_levels_def bind_Some_iff by (auto split: prod.splits)
  have f1: "workgroup t = workgroup t1"
    using level_at_keeps [OF s2, of workgroup] level_at_keeps [OF s3, of workgroup] by simp
  have f2: "server_name t = server_name t2" using level_at_keeps [OF s3, of server_name] by simp
  have n: "level = 0 \<longrightarrow> workgroup t1 \<noteq> []" "l1 = 1 \<longrightarrow> server_name t2 \<noteq> []" "l2 = 2 \<longrightarrow> share_name t \<noteq> []"
    using named f1 f2 level_at_level [OF s1] level_at_level [OF s2]
    by (auto simp: named_from_def split: if_splits)
  show ?thesis
    using level_at_again [OF ok s1 f1 n(1)] level_at_again [OF ok s2 f2 n(2)]
      level_at_again [OF ok s3 refl n(3)] by (simp add: parse_levels_def)
qed

text \<open>Nothing has changed when no change is reported.\<close>

lemma level_at_unchanged:
  assumes "level_at E k get put (tmp, path, new, l) = Some (t1, r, False, l1)" "\<And>t. put (get t) t = t"
  shows "t1 = tmp \<and> \<not> new"
  using assms by (auto simp: level_at_def parse_level_def Let_def bind_Some_iff split: if_splits prod.splits)

lemma parse_levels_unchanged:
  assumes "parse_levels E level tmp path = Some (t, rest, ch)"
  shows "\<not> ch \<Longrightarrow> t = tmp"
proof -
  assume "\<not> ch"
  from assms obtain t1 r1 c1 l1 t2 r2 c2 l2 l3 where
    s1: "level_at E 0 workgroup (\<lambda>n t. t\<lparr>workgroup := n\<rparr>) (tmp, path, False, level) = Some (t1, r1, c1, l1)"
    and s2: "level_at E 1 server_name (\<lambda>n t. t\<lparr>server_name := n\<rparr>) (t1, r1, c1, l1) = Some (t2, r2, c2, l2)"
    and s3: "level_at E 2 share_name (\<lambda>n t. t\<lparr>share_name := n\<rparr>) (t2, r2, c2, l2) = Some (t, rest, ch, l3)"
    unfolding parse_levels_def bind_Some_iff by (auto split: prod.splits)
  from s3 \<open>\<not> ch\<close> have s3': "level_at E 2 share_name (\<lambda>n t. t\<lparr>share_name := n\<rparr>) (t2, r2, c2, l2)
      = Some (t, rest, False, l3)" by simp
  have 3: "t = t2" "\<not> c2" using level_at_unchanged [OF s3'] by simp_all
  with s2 have s2': "level_at E 1 server_name (\<lambda>n t. t\<lparr>server_name := n\<rparr>) (t1, r1, c1, l1)
      = Some (t2, r2, False, l2)" by simp
  have 2: "t2 = t1" "\<not> c1" using level_at_unchanged [OF s2'] by simp_all
  with s1 have s1': "level_at E 0 workgroup (\<lambda>n t. t\<lparr>workgroup := n\<rparr>) (tmp, path, False, level)
      = Some (t1, r1, False, l1)" by simp
  from level_at_unchanged [OF s1'] 2 3 show "t = tmp" by simp
qed

text \<open>What the parser leaves alone, and that it returns for a short path.\<close>

lemma pathparser_keeps:
  assumes "pathparser S r c path w = Some (rc, out, r', c', w')"
  shows "pRes c' = pRes c \<and> cfile c' = cfile c \<and> out \<noteq> [] \<and> length out \<le> 260 \<and>
    (\<exists>s. r' = r\<lparr>srv := s\<rparr>)"
proof -
  have r: "\<exists>s. r = r\<lparr>srv := s\<rparr>" by (rule exI [of _ "srv r"]) simp
  from assms obtain test where test: "iftestpath S path = Some test"
    by (auto simp: pathparser_def bind_Some_iff)
  show ?thesis
  proof (cases test)
    case True
    with assms test r show ?thesis by (auto simp: pathparser_def test_path_def)
  next
    case False
    let ?p = "if path \<noteq> [] \<and> hd path = backslash then tl path else path"
    show ?thesis
    proof (cases "rootlevel r < 3")
      case True
      with assms test False obtain tmp rest nl where
        "parse_levels S (rootlevel r) (srv r) ?p = Some (tmp, rest, nl)"
        by (auto simp: pathparser_def bind_Some_iff Let_def)
      with True assms test False r show ?thesis
        by (auto simp: pathparser_def Let_def case_prod_beta bind_Some_iff split: if_split_asm)
    qed (use assms test False r in \<open>auto simp: pathparser_def Let_def bind_Some_iff split: if_split_asm\<close>)
  qed
qed

lemma pathparser_short:
  assumes "strchr_ok S" "length path < 256"
  shows "\<exists>rc out r' c' w'. pathparser S r c path w = Some (rc, out, r', c', w') \<and> length out \<le> max 12 (Suc (length path))"
proof -
  obtain b where b: "iftestpath S path = Some b" using iftestpath_total [OF assms(1)] by blast
  let ?p = "if path \<noteq> [] \<and> hd path = backslash then tl path else path"
  have p: "length ?p < 256" "length ?p \<le> length path" using assms(2) by auto
  from parse_levels_short [OF assms(1) p(1)] obtain t rest ch where
    "parse_levels S (rootlevel r) (srv r) ?p = Some (t, rest, ch)" "length rest \<le> length ?p" by blast
  with b p show ?thesis
    by (cases b) (auto simp: pathparser_def test_path_def Let_def split: prod.split)
qed

lemma pathparser_returns:
  assumes "strchr_ok S" "length path < 256"
  obtains rc out r' c' w' where "pathparser S r c path w = Some (rc, out, r', c', w')" "length out \<le> 257"
    "length out \<le> max 12 (Suc (length path))"
proof -
  from pathparser_short [OF assms] obtain rc out r' c' w' where
    run: "pathparser S r c path w = Some (rc, out, r', c', w')" "length out \<le> max 12 (Suc (length path))" by blast
  with assms(2) have "length out \<le> 257" by simp
  with run show thesis using that by blast
qed

text \<open>On a resource that names its share, a path is passed on with one leading backslash.\<close>

lemma pathparser_share:
  assumes "strchr_ok S" "rootlevel res \<ge> 3" "CHR ''A'' \<notin> set path" "length path < 260"
  shows "pathparser S res con path w = Some (err S NO_ERROR,
    (if path \<noteq> [] \<and> hd path = backslash then path else backslash # path), res, con, w)"
  using iftestpath_no_A [OF assms(1,3)] assms(2,4)
  by (cases path) (auto simp: pathparser_def)

end
