(* ===== verification/Path_Theorems.thy ===== *)
theory Path_Theorems
  imports Path_Parser
begin

text \<open>
  What \<open>pathparser\<close> guarantees its callers: it stays inside its buffers for short paths, it replaces
  a connection as a whole or not at all, and a path it has handled once is handled again without a
  new connection, unless the path names nothing at some level.
\<close>

subsection \<open>An example library\<close>

text \<open>A world is the list of the open connections.\<close>

definition smbconn0 :: "nat list smbconn" where
  "smbconn0 = samba.extend (samba0\<lparr>cli_shutdown := \<lambda>c w. removeAll c w\<rparr>)
     \<lparr>cli_connect_nb = (\<lambda>n k e w. (0, Suc (foldr max w 0), Suc (foldr max w 0) # w)),
      smbXcli_negprot = (\<lambda>c p w. (0, w)), smbXcli_conn_protocol = (\<lambda>c w. 1),
      smb2cli_conn_set_max_credits = (\<lambda>c w. w),
      cli_session_setup_creds = (\<lambda>c cr w. (0, w)), cli_session_setup_anon = (\<lambda>c w. (0, w)),
      cli_credentials_authentication_requested = (\<lambda>cr. False),
      cli_credentials_is_anonymous = (\<lambda>cr. False),
      cli_tree_connect_creds = (\<lambda>c s cr w. (if s = ''bad'' then 0xC00000CC else 0, w)),
      cli_cm_force_encryption_creds = (\<lambda>c cr s w. (0, w)), lp_set_cmdline_ntlmv2_no = (\<lambda>w. w),
      lp_client_max_protocol = (\<lambda>w. 0), PROTOCOL_DEFAULT = 0, PROTOCOL_LATEST = 2,
      PROTOCOL_SMB2_02 = 1\<rparr>"

lemmas smbconn0_simps = smbconn0_def samba.defs samba0_simps

lemma le_foldr_max: "c \<in> set w \<Longrightarrow> c \<le> foldr max w (0::nat)"
  by (induction w) auto

lemma conns_ok0: "conns_ok smbconn0 set"
  using le_foldr_max by (force simp: conns_ok_def smbconn0_simps NT_STATUS_IS_OK_def)

lemma helpers_ok0: "strchr_ok smbconn0" "nicmp_refl smbconn0" "os2_codes (err smbconn0)"
  using helpers0_ok(2,4) by (simp_all add: strchr_ok_def nicmp_refl_def smbconn0_simps icmp0_def)

definition server0 :: smbwrp_server where
  "server0 = \<lparr>server_name = ''srv'', share_name = [], workgroup = ''wg'', username = ''guest'',
     password = [], master = [], ifmastergroup = 1, no_pathinfo2 = 0\<rparr>"

definition resource0 :: "int \<Rightarrow> Resource" where
  "resource0 level = \<lparr>rootlevel = level, srv = server0, logfile = [], loglevel = 0, easupport = 1,
     krb5support = 0, ntlmv1support = 0, encryptionsupport = 0, cachetimeout = 10, cachedepth = 32,
     pdc = None\<rparr>"

definition file0 :: smbwrp_file where
  "file0 = \<lparr>f_fd = -1, f_offset = 0, f_openmode = 0, f_openattr = 0, f_denymode = 0, f_btime = 0,
     f_mtime = 0, f_atime = 0, f_ctime = 0, f_updatetime = 0, f_fullname = [], f_fname = []\<rparr>"

definition connection0 :: Connection where
  "connection0 = \<lparr>pRes = 0, cli = Some 1, cfile = file0\<rparr>"

lemma switch0: "pathparser smbconn0 (resource0 2) connection0 (backslash # ''sh'' @ backslash # ''d'') [1] =
    Some (0, backslash # ''d'', (resource0 2)\<lparr>srv := server0\<lparr>share_name := ''sh''\<rparr>\<rparr>, connection0\<lparr>cli := Some 2\<rparr>, [2])"
proof -
  have test: "iftestpath smbconn0 (backslash # ''sh'' @ backslash # ''d'') = Some False"
    by (rule iftestpath_no_A [OF helpers_ok0(1)]) simp
  have level: "parse_level smbconn0 [] (''sh'' @ backslash # ''d'') = Some (''sh'', ''d'', True)"
    using parse_level_component [OF helpers_ok0(1), of "''sh''" "backslash # ''d''" "[]"] by simp
  from test level show ?thesis
    by (simp add: pathparser_def parse_levels_def level_at_def resource0_def server0_def Let_def
        smbwrp_connect_def connect_session_def connect_tree_def NT_STATUS_IS_OK_def smbwrp_disconnect_def
        connection0_def smbconn0_simps err0_def)
qed

subsection \<open>Theorems\<close>

text \<open>C20: A connection attempt that fails leaves no connection open and does not touch the caller's
  pointer; one that succeeds has opened exactly one new connection and stored it.\<close>

theorem connect_no_leak:
  assumes "conns_ok S opened" "smbwrp_connect S r old w = (rc, p, w')"
  shows "if rc = 0 then \<exists>c. p = Some c \<and> c \<notin> opened w \<and> opened w' = insert c (opened w)
    else p = old \<and> opened w' = opened w"
  using smbwrp_connect_opened [OF assms] by auto

theorem connect_no_leak_witness:
  "if -0x3FFFFF34 = (0::int) then \<exists>c. Some 9 = Some c \<and> c \<notin> set [4] \<and> set [4::nat] = insert c (set [4])
    else Some 9 = Some (9::nat) \<and> set [4] = set [4::nat]"
  by (rule connect_no_leak [OF conns_ok0,
        where r = "(resource0 3)\<lparr>srv := server0\<lparr>share_name := ''bad''\<rparr>\<rparr>"])
    (simp add: smbwrp_connect_def connect_session_def connect_tree_def smbconn0_simps resource0_def
      server0_def NT_STATUS_IS_OK_def status_int_def)

text \<open>C21: For a path of less than 256 characters \<open>pathparser\<close> returns: the search for the test path
  ends, and no name and no result is written beyond its buffer.\<close>

theorem pathparser_in_bounds:
  assumes "strchr_ok S" "length path < 256"
  shows "\<exists>rc out res' con' w'. pathparser S res con path w = Some (rc, out, res', con', w') \<and>
    length out \<le> 260"
proof -
  obtain rc out r' c' w' where "pathparser S res con path w = Some (rc, out, r', c', w')" "length out \<le> 257"
    "length out \<le> max 12 (Suc (length path))" using pathparser_returns [OF assms] .
  then show ?thesis by (intro exI [of _ rc] exI [of _ out] exI [of _ r'] exI [of _ c'] exI [of _ w']) simp
qed

theorem pathparser_in_bounds_witness:
  "\<exists>rc out res' con' w'. pathparser smbconn0 (resource0 2) connection0 (backslash # ''share'' @ backslash # ''dir'') [1] =
     Some (rc, out, res', con', w') \<and> length out \<le> 260"
  by (rule pathparser_in_bounds [OF helpers_ok0(1)]) simp

text \<open>A name of 256 characters or more at the share level is copied over the end of its array.\<close>

theorem pathparser_long_share:
  assumes "strchr_ok S" "rootlevel res = 2" "256 \<le> length part" "set part \<inter> {backslash, CHR ''A''} = {}"
    "length (share_name (srv res)) < 256"
  shows "pathparser S res con part w = None"
proof -
  have "iftestpath S part = Some False" using assms(4) by (intro iftestpath_no_A [OF assms(1)]) auto
  moreover have "\<not> (part \<noteq> [] \<and> hd part = backslash)"
    using assms(4) by (cases part) auto
  moreover have "parse_level S (share_name (srv res)) part = None"
    using parse_level_component [OF assms(1), of part "[]" "share_name (srv res)"] assms(3-5)
    by (auto simp: Let_def)
  ultimately show ?thesis
    using assms(2) by (auto simp: pathparser_def parse_levels_def level_at_def)
qed

theorem pathparser_long_share_witness:
  "pathparser smbconn0 (resource0 2) connection0 (replicate 256 CHR ''x'') [1] = None"
  by (rule pathparser_long_share [OF helpers_ok0(1)]) (simp_all add: resource0_def server0_def)

text \<open>C12: The connection is replaced as a whole or not at all: either \<open>pathparser\<close> leaves resource,
  connection and the open connections of the library as they were, or it reports success, the
  connection has a new handle, and the library has closed the old one and opened the new one.\<close>

theorem pathparser_switch:
  assumes "conns_ok S opened" "os2_codes (err S)"
    "pathparser S res con path w = Some (rc, out, res', con', w')"
  shows "(res' = res \<and> con' = con \<and> opened w' = opened w) \<or>
    (rc = 0 \<and> (\<exists>c. con' = con\<lparr>cli := Some c\<rparr> \<and> c \<notin> opened w \<and>
       opened w' = insert c (opened w) - (case cli con of None \<Rightarrow> {} | Some old \<Rightarrow> {old})))"
proof (cases "res' = res \<and> con' = con \<and> w' = w")
  case False
  then obtain test where test: "iftestpath S path = Some test"
    using assms(3) by (auto simp: pathparser_def bind_Some_iff)
  let ?p = "if path \<noteq> [] \<and> hd path = backslash then tl path else path"
  from False assms(3) test obtain tmp rest where P: "\<not> test" "rootlevel res < 3"
    "parse_levels S (rootlevel res) (srv res) ?p = Some (tmp, rest, True)"
    by (auto simp: pathparser_def bind_Some_iff Let_def split: if_splits)
  let ?r = "res\<lparr>srv := tmp\<rparr>"
  obtain rc1 c1 w1 where C: "smbwrp_connect S ?r None w = (rc1, c1, w1)" by (metis prod_cases3)
  have shut: "opened (cli_shutdown S c w) = opened w - {c}" for c w
    using assms(1) by (simp add: conns_ok_def)
  from smbwrp_connect_opened [OF assms(1) C] show ?thesis
  proof
    assume "rc1 \<noteq> 0 \<and> c1 = None \<and> opened w1 = opened w"
    then show ?thesis using assms(3) test P C by (auto simp: pathparser_def Let_def bind_Some_iff split: if_splits)
  next
    assume "\<exists>c. rc1 = 0 \<and> c1 = Some c \<and> c \<notin> opened w \<and> opened w1 = insert c (opened w)"
    then obtain c where c: "rc1 = 0" "c1 = Some c" "c \<notin> opened w" "opened w1 = insert c (opened w)" by blast
    then have "rc = 0 \<and> con' = con\<lparr>cli := Some c\<rparr> \<and> w' = smbwrp_disconnect S (cli con) w1"
      using assms(3) test P C by (simp add: pathparser_def Let_def bind_Some_iff split: if_splits)
    with c shut show ?thesis by (auto simp: smbwrp_disconnect_def split: option.splits)
  qed
qed auto

theorem pathparser_switch_witness:
  "(resource0 2)\<lparr>srv := server0\<lparr>share_name := ''sh''\<rparr>\<rparr> = resource0 2 \<and>
     connection0\<lparr>cli := Some 2\<rparr> = connection0 \<and> set [2] = set [1::nat] \<or>
   ((0::int) = 0 \<and> (\<exists>c. connection0\<lparr>cli := Some 2\<rparr> = connection0\<lparr>cli := Some c\<rparr> \<and> c \<notin> set [1] \<and>
     set [2] = insert c (set [1]) - (case cli connection0 of None \<Rightarrow> {} | Some old \<Rightarrow> {old})))"
  by (rule pathparser_switch [OF conns_ok0 helpers_ok0(3) switch0])

text \<open>C19: A path that was parsed successfully is parsed again, on the resource and connection it left,
  to the same result without a new connection, when it names something at every level.\<close>

theorem pathparser_again:
  assumes "strchr_ok S" "nicmp_refl S" "os2_codes (err S)"
    "pathparser S res con path w = Some (0, out, res', con', w')"
    "rootlevel res < 3 \<longrightarrow> named_from (rootlevel res) (srv res')"
  shows "pathparser S res' con' path w'' = Some (0, out, res', con', w'')"
proof -
  from assms(4) obtain test where test: "iftestpath S path = Some test"
    by (auto simp: pathparser_def bind_Some_iff)
  let ?p = "if path \<noteq> [] \<and> hd path = backslash then tl path else path"
  show ?thesis
  proof (cases "test \<or> \<not> rootlevel res < 3")
    case True
    then show ?thesis using assms(3,4) test
      by (auto simp: pathparser_def bind_Some_iff Let_def)
  next
    case False
    with assms(4) test obtain tmp rest ch where P:
      "parse_levels S (rootlevel res) (srv res) ?p = Some (tmp, rest, ch)"
      by (auto simp: pathparser_def bind_Some_iff Let_def split: if_splits)
    have R: "srv res' = (if ch then tmp else srv res)" "rootlevel res' = rootlevel res"
      "out = backslash # rest" "length rest < 260"
      using assms(3,4) test P False
      by (auto simp: pathparser_def bind_Some_iff Let_def split: if_splits prod.splits)
    have same: "\<not> ch \<Longrightarrow> tmp = srv res" using parse_levels_unchanged [OF P] by simp
    have "parse_levels S (rootlevel res') (srv res') ?p = Some (tmp, rest, False)"
      using parse_levels_again [OF assms(1,2) P] assms(5) R False same by (cases ch) auto
    then show ?thesis using test False R assms(3)
      by (simp add: pathparser_def Let_def split del: if_split)
  qed
qed

theorem pathparser_again_witness:
  "pathparser smbconn0 ((resource0 2)\<lparr>srv := server0\<lparr>share_name := ''sh''\<rparr>\<rparr>) (connection0\<lparr>cli := Some 2\<rparr>)
      (backslash # ''sh'' @ backslash # ''d'') [2] =
    Some (0, backslash # ''d'', (resource0 2)\<lparr>srv := server0\<lparr>share_name := ''sh''\<rparr>\<rparr>,
      connection0\<lparr>cli := Some 2\<rparr>, [2])"
  by (rule pathparser_again [OF helpers_ok0 switch0]) (simp add: named_from_def resource0_def)

text \<open>A path that names no share, on a resource that leaves the share open, makes \<open>pathparser\<close>
  connect anew, every time: the root of such a drive costs a connection per access.\<close>

theorem pathparser_root_reconnects:
  assumes "strchr_ok S" "rootlevel res = 2" "share_name (srv res) = []"
  shows "pathparser S res con [backslash] w =
    (case smbwrp_connect S res None w of (rc, c, w1) \<Rightarrow>
       if rc = 0 then Some (0, [backslash], res, con\<lparr>cli := c\<rparr>, smbwrp_disconnect S (cli con) w1)
       else Some (rc, [backslash], res, con, w1))"
proof -
  have "iftestpath S [backslash] = Some False" by (rule iftestpath_no_A [OF assms(1)]) simp
  moreover have "res\<lparr>srv := srv res\<lparr>share_name := []\<rparr>\<rparr> = res" using assms(3) by simp
  ultimately show ?thesis
    using assms(2) parse_level_empty [OF assms(1), of "share_name (srv res)"]
    by (simp add: pathparser_def parse_levels_def level_at_def Let_def split: prod.split)
qed

theorem pathparser_root_reconnects_witness:
  "pathparser smbconn0 (resource0 2) connection0 [backslash] [1] =
    (case smbwrp_connect smbconn0 (resource0 2) None [1] of (rc, c, w1) \<Rightarrow>
       if rc = 0 then Some (0, [backslash], resource0 2, connection0\<lparr>cli := c\<rparr>,
         smbwrp_disconnect smbconn0 (cli connection0) w1)
       else Some (rc, [backslash], resource0 2, connection0, w1))"
  by (rule pathparser_root_reconnects [OF helpers_ok0(1)]) (simp_all add: resource0_def server0_def)

end
