(* ===== verification/Findinfo.thy ===== *)
theory Findinfo
  imports Connect
begin

text \<open>
  What the plugin hands to NetDrive about a file: the conversion between Unix times and DOS dates and
  \<open>getfindinfoL\<close> (\<open>ndpsmb.c\<close>). The record \<open>ndp\<close> adds to the services of the earlier theories those
  that the entry points and the directory listings call: the time functions of the C library, which
  depend on the time zone, the property tables of NetDrive and the listing functions of Samba.
\<close>

subsection \<open>Services\<close>

record tm =
  tm_sec :: int
  tm_min :: int
  tm_hour :: int
  tm_mday :: int
  tm_mon :: int
  tm_year :: int

record file_info =
  s_size :: u64
  s_mode :: u32
  s_btime :: timespec
  s_atime :: timespec
  s_mtime :: timespec
  s_ctime :: timespec
  s_name :: string

text \<open>
  \<open>no_return\<close> is the value a caller finds when \<open>smbwrp_dir_add\<close> ends without a \<open>return\<close>, as a
  function of the last value computed there. \<open>cli_list\<close> stands for the chain of \<open>cli_list_send\<close>,
  \<open>tevent_req_poll_ntstatus\<close> and \<open>cli_list_recv\<close> and is \<^term>\<open>None\<close> when one of them fails;
  \<open>smb_start\<close> for \<open>smb_init_locale\<close>, \<open>lp_load_client\<close>, \<open>load_interfaces\<close> and \<open>init_names\<close>, with the
  result of the last.
\<close>

record 'w ndp = "'w smbconn" +
  localtime :: "u32 \<Rightarrow> tm"
  mktime :: "tm \<Rightarrow> u32"
  no_return :: "int \<Rightarrow> u32"
  fsphQueryStringProperty :: "string \<Rightarrow> 'w \<Rightarrow> int \<times> string option \<times> u32"
  fsphQueryUlongProperty :: "string \<Rightarrow> 'w \<Rightarrow> int \<times> u32"
  fsphSetProperty :: "string \<Rightarrow> string \<Rightarrow> 'w \<Rightarrow> 'w"
  fsphNameElem :: "'w \<Rightarrow> (nat \<times> string) option"
  fsph_snprintf :: "nat \<Rightarrow> string \<Rightarrow> string list \<Rightarrow> string"
  smb_start :: "'w \<Rightarrow> bool \<times> 'w"
  gettid :: "'w \<Rightarrow> int"
  cli_has_async_calls :: "nat \<Rightarrow> 'w \<Rightarrow> bool"
  windows_parent_dirname :: "string \<Rightarrow> (string \<times> string) option"
  ms_has_wild :: "string \<Rightarrow> bool"
  cli_smb2_create_fnum :: "nat \<Rightarrow> string \<Rightarrow> 'w \<Rightarrow> u32 \<times> u16 \<times> 'w"
  map_fnum_to_smb2_handle :: "nat \<Rightarrow> u16 \<Rightarrow> 'w \<Rightarrow> u32 \<times> nat"
  smb2cli_max_trans :: "nat \<Rightarrow> 'w \<Rightarrow> u32"
  smb2cli_req_possible :: "nat \<Rightarrow> 'w \<Rightarrow> u32 option"
  smb2cli_query_directory :: "nat \<Rightarrow> nat \<Rightarrow> string \<Rightarrow> u32 \<Rightarrow> 'w \<Rightarrow> u32 \<times> string \<times> 'w"
  parse_finfo :: "string \<Rightarrow> u32 \<times> file_info \<times> nat"
  dir_check_ftype :: "u32 \<Rightarrow> u32 \<Rightarrow> bool"
  cli_smb2_close_fnum :: "nat \<Rightarrow> u16 \<Rightarrow> 'w \<Rightarrow> 'w"
  cli_list :: "nat \<Rightarrow> string \<Rightarrow> u16 \<Rightarrow> 'w \<Rightarrow> file_info list option \<times> 'w"
  cli_NetServerEnum :: "nat \<Rightarrow> string \<Rightarrow> u32 \<Rightarrow> 'w \<Rightarrow> (string \<times> u32) list \<times> 'w"
  net_share_enum_rpc :: "nat \<Rightarrow> 'w \<Rightarrow> int \<times> (string \<times> u32) list \<times> 'w"
  cli_RNetShareEnum :: "nat \<Rightarrow> 'w \<Rightarrow> int \<times> (string \<times> u32) list \<times> 'w"
  SV_TYPE_DOMAIN_ENUM :: u32
  SV_TYPE_ALL :: u32
  STYPE_PRINTQ :: u32
  STATUS_NO_MORE_FILES :: u32
  NT_STATUS_NO_SUCH_FILE :: u32
  NT_STATUS_INVALID_PARAMETER :: u32
  NT_STATUS_NO_MEMORY :: u32
  NT_STATUS_WAIT_1 :: u32

subsection \<open>Dates\<close>

text \<open>The fields are bit fields; a value that does not fit is cut to their width.\<close>

record FDATE =
  fd_day :: "5 word"
  fd_month :: "4 word"
  fd_year :: "7 word"

record FTIME =
  ft_twosecs :: "5 word"
  ft_minutes :: "6 word"
  ft_hours :: "5 word"

definition fsphUnixTimeToDosDate :: "('w, 'x) ndp_scheme \<Rightarrow> u32 \<Rightarrow> FDATE \<times> FTIME" where
  "fsphUnixTimeToDosDate S t =
     (let gmt = localtime S t in
      (\<lparr>fd_day = word_of_int (tm_mday gmt), fd_month = word_of_int (tm_mon gmt + 1),
        fd_year = word_of_int (tm_year gmt + 1900 - 1980)\<rparr>,
       \<lparr>ft_twosecs = word_of_int (cdiv (tm_sec gmt) 2), ft_minutes = word_of_int (tm_min gmt),
        ft_hours = word_of_int (tm_hour gmt)\<rparr>))"

definition fsphDosDateToUnixTime :: "('w, 'x) ndp_scheme \<Rightarrow> FDATE \<Rightarrow> FTIME \<Rightarrow> u32" where
  "fsphDosDateToUnixTime S fdate ftime =
     mktime S \<lparr>tm_sec = uint (ft_twosecs ftime) * 2, tm_min = uint (ft_minutes ftime),
               tm_hour = uint (ft_hours ftime), tm_mday = uint (fd_day fdate),
               tm_mon = uint (fd_month fdate) - 1, tm_year = uint (fd_year fdate) + 1980 - 1900\<rparr>"

subsection \<open>Entries of a result list\<close>

record FILESTATUS3L =
  cbFile :: u64
  cbFileAlloc :: u64
  attrFile :: u32
  dtLastWrite :: "FDATE \<times> FTIME"
  dtCreation :: "FDATE \<times> FTIME"
  dtLastAccess :: "FDATE \<times> FTIME"

text \<open>The list NetDrive passes in as \<open>plist\<close>: \<open>fsphAddFile32L\<close> copies its arguments to the end.\<close>

record plist_entry =
  pe_stat :: FILESTATUS3L
  pe_name :: string
  pe_data :: smbwrp_fileinfo

type_synonym plist = "plist_entry list"

text \<open>The last component of the path; for the root of a share, the name of the share.\<close>

definition find_name :: "('w, 'x) ndp_scheme \<Rightarrow> string \<Rightarrow> string \<Rightarrow> string" where
  "find_name S share fname =
     (let name = (case fsphStrRChr S fname backslash of Some i \<Rightarrow> drop (i + 1) fname | None \<Rightarrow> fname)
      in if name = [] then share else name)"

definition find_stat :: "('w, 'x) ndp_scheme \<Rightarrow> smbwrp_fileinfo \<Rightarrow> FILESTATUS3L" where
  "find_stat S finfo =
     \<lparr>cbFile = fi_size finfo, cbFileAlloc = fi_size finfo, attrFile = fi_attr finfo AND 0x37,
      dtLastWrite = fsphUnixTimeToDosDate S (fi_mtime finfo),
      dtCreation = fsphUnixTimeToDosDate S (fi_btime finfo),
      dtLastAccess = fsphUnixTimeToDosDate S (fi_atime finfo)\<rparr>"

definition getfindinfoL ::
  "('w, 'x) ndp_scheme \<Rightarrow> string \<Rightarrow> plist \<Rightarrow> smbwrp_fileinfo \<Rightarrow> u32 \<Rightarrow> string option \<Rightarrow> int \<times> plist" where
  "getfindinfoL S share plist finfo ulAttribute msk =
     (let name = find_name S share (fi_fname finfo) in
      if (case msk of None \<Rightarrow> False
          | Some m \<Rightarrow> fsphAttrMatch S ulAttribute (fi_attr finfo AND 0x37) = 0 \<or>
                         fsphWildMatch S m name = 0)
      then (0, plist)
      else (1, plist @ [\<lparr>pe_stat = find_stat S finfo, pe_name = name, pe_data = finfo\<rparr>]))"

lemma getfindinfoL_range: "getfindinfoL S share plist finfo attr msk = (n, plist') \<Longrightarrow> n = 0 \<or> n = 1"
  by (auto simp: getfindinfoL_def Let_def split: if_splits)

lemma getfindinfoL_no_mask [simp]: "getfindinfoL S share plist finfo attr None =
    (1, plist @ [\<lparr>pe_stat = find_stat S finfo, pe_name = find_name S share (fi_fname finfo), pe_data = finfo\<rparr>])"
  by (simp add: getfindinfoL_def Let_def)

text \<open>
  The entry of a 32-bit host, which nothing fills any more: sizes are cut to 32 bits, the length of
  the name to 8, and the name to 255 characters, in an array whose last character is left as it was.
\<close>

record FILEFINDBUF3 =
  fb_oNextEntryOffset :: u32
  fb_lastWrite :: "FDATE \<times> FTIME"
  fb_creation :: "FDATE \<times> FTIME"
  fb_lastAccess :: "FDATE \<times> FTIME"
  fb_cbFile :: u32
  fb_cbFileAlloc :: u32
  fb_attrFile :: u32
  fb_cchName :: u8
  fb_achName :: string

definition getfindinfo ::
  "('w, 'x) ndp_scheme \<Rightarrow> string \<Rightarrow> FILEFINDBUF3 \<Rightarrow> smbwrp_fileinfo \<Rightarrow> FILEFINDBUF3 option" where
  "getfindinfo S share stat finfo =
     (let name = find_name S share (fi_fname finfo);
          achName = take 255 (name @ replicate 255 NUL) @ drop 255 (fb_achName stat)
      in do {
        require (NUL \<in> set achName);
        Some (stat\<lparr>fb_achName := achName, fb_cbFile := ucast (fi_size finfo), fb_cbFileAlloc := ucast (fi_size finfo),
          fb_oNextEntryOffset := 0, fb_cchName := of_nat (length (cstring_of achName)),
          fb_attrFile := fi_attr finfo AND 0x37,
          fb_lastWrite := fsphUnixTimeToDosDate S (fi_mtime finfo),
          fb_creation := fsphUnixTimeToDosDate S (fi_btime finfo),
          fb_lastAccess := fsphUnixTimeToDosDate S (fi_atime finfo)\<rparr>) })"

subsection \<open>The round trip of a time\<close>

text \<open>
  What \<open>localtime\<close> promises about its fields, and what a date of NetDrive can represent: the years
  1980 to 2107 and even seconds.
\<close>

definition tm_ok :: "tm \<Rightarrow> bool" where
  "tm_ok g \<longleftrightarrow> 0 \<le> tm_sec g \<and> tm_sec g \<le> 60 \<and> 0 \<le> tm_min g \<and> tm_min g \<le> 59 \<and> 0 \<le> tm_hour g \<and>
     tm_hour g \<le> 23 \<and> 1 \<le> tm_mday g \<and> tm_mday g \<le> 31 \<and> 0 \<le> tm_mon g \<and> tm_mon g \<le> 11"

definition dos_year :: "tm \<Rightarrow> bool" where
  "dos_year g \<longleftrightarrow> 80 \<le> tm_year g \<and> tm_year g \<le> 207"

lemma uint_word_small: "0 \<le> k \<Longrightarrow> k < 2 ^ LENGTH('a) \<Longrightarrow> uint (word_of_int k :: 'a::len word) = k"
  by (simp add: unsigned_of_int take_bit_int_eq_self)

lemma dos_unix:
  assumes "localtime S t = g" "tm_ok g" "dos_year g" "fsphUnixTimeToDosDate S t = (d, f)"
  shows "fsphDosDateToUnixTime S d f = mktime S (g\<lparr>tm_sec := 2 * (tm_sec g div 2)\<rparr>)"
proof -
  note r = uint_word_small
  have s: "uint (word_of_int (cdiv (tm_sec g) 2) :: 5 word) = tm_sec g div 2"
    using assms(2) by (subst r) (auto simp: tm_ok_def)
  have f: "uint (word_of_int (tm_min g) :: 6 word) = tm_min g"
    "uint (word_of_int (tm_hour g) :: 5 word) = tm_hour g"
    "uint (word_of_int (tm_mday g) :: 5 word) = tm_mday g"
    "uint (word_of_int (tm_mon g + 1) :: 4 word) = tm_mon g + 1"
    using assms(2) by (auto simp: tm_ok_def simp del: of_int_add intro!: r)
  have y: "uint (word_of_int (tm_year g - 80) :: 7 word) = tm_year g - 80"
    using assms(3) by (subst r) (auto simp: dos_year_def)
  from assms(1,4) have "d = \<lparr>fd_day = word_of_int (tm_mday g), fd_month = word_of_int (tm_mon g + 1),
        fd_year = word_of_int (tm_year g + 1900 - 1980)\<rparr>"
    "f = \<lparr>ft_twosecs = word_of_int (cdiv (tm_sec g) 2), ft_minutes = word_of_int (tm_min g),
        ft_hours = word_of_int (tm_hour g)\<rparr>"
    by (simp_all add: fsphUnixTimeToDosDate_def Let_def del: of_int_add of_int_diff)
  then show ?thesis
    by (cases g) (use s f y in \<open>simp add: fsphDosDateToUnixTime_def mult.commute del: of_int_add of_int_diff\<close>)
qed

end
