(* ===== verification/Plugin.thy ===== *)
theory Plugin
  imports Findinfo Ea_List Path_Parser
begin

text \<open>
  The state of the plugin and the entry points on paths and extended attributes (\<open>ndpsmb.c\<close>).
  Resources and connections are heap objects named by handles; a freed object is unmapped, and using
  its handle is undefined, as are the other values \<^term>\<open>None\<close>. Log statements are left out, except
  that one which dereferences NULL or an unset pointer is undefined. A time is the clock of the
  directory cache during the call.
\<close>

subsection \<open>State\<close>

record 'w plugin =
  p_mutex :: nat
  p_res :: "nat \<rightharpoonup> Resource"
  p_con :: "nat \<rightharpoonup> Connection"
  p_mem :: dcmem
  p_next :: nat
  p_initialised :: bool
  p_ifL :: bool
  p_world :: 'w

text \<open>
  Every call is serialized by one recursive mutex, of which the state has the number of requests that
  are not released. \<open>ENTER\<close> returns the code of a request that fails to the caller.
\<close>

definition SEM_INDEFINITE_WAIT :: u32 where "SEM_INDEFINITE_WAIT = -1"

definition ENTER ::
  "('w, 'x) ndp_scheme \<Rightarrow> 'w plugin \<Rightarrow> (int \<Rightarrow> 'r option) \<Rightarrow> ('w plugin \<Rightarrow> 'r option) \<Rightarrow> 'r option" where
  "ENTER S p early body =
     (let rcLock = fsphRequestMutex S SEM_INDEFINITE_WAIT (p_mutex p)
      in if rcLock \<noteq> err S NO_ERROR then early rcLock else body (p\<lparr>p_mutex := p_mutex p + 1\<rparr>))"

definition LEAVE :: "'w plugin \<Rightarrow> 'w plugin" where
  "LEAVE p = p\<lparr>p_mutex := p_mutex p - 1\<rparr>"

definition p_malloc :: "'w plugin \<Rightarrow> bool \<times> 'w plugin" where
  "p_malloc p = (let (ok, m) = malloc (p_mem p) in (ok, p\<lparr>p_mem := m\<rparr>))"

text \<open>What a call reads through its handle, and the calls that work on these objects.\<close>

definition conn_of :: "'w plugin \<Rightarrow> nat \<Rightarrow> (Connection \<times> Resource) option" where
  "conn_of p h = do { c \<leftarrow> p_con p h; r \<leftarrow> p_res p (pRes c); Some (c, r) }"

definition parse_path ::
  "('w, 'x) ndp_scheme \<Rightarrow> 'w plugin \<Rightarrow> nat \<Rightarrow> string \<Rightarrow> (int \<times> string \<times> 'w plugin) option" where
  "parse_path S p h path =
     do { (c, r) \<leftarrow> conn_of p h;
          (rc, result, r, c', w) \<leftarrow> pathparser S r c path (p_world p);
          Some (rc, result, p\<lparr>p_res := (p_res p)(pRes c \<mapsto> r), p_con := (p_con p)(h \<mapsto> c'), p_world := w\<rparr>) }"

definition invalidate ::
  "('w, 'x) ndp_scheme \<Rightarrow> 'w plugin \<Rightarrow> nat \<Rightarrow> string \<Rightarrow> 'w plugin option" where
  "invalidate S p h path =
     do { (c, r) \<leftarrow> conn_of p h;
          m \<leftarrow> dircache_invalidate S (p_mem p) (pdc r) path True;
          Some (p\<lparr>p_mem := m\<rparr>) }"

definition on_cli :: "'w plugin \<Rightarrow> nat \<Rightarrow> (ptr \<Rightarrow> 'w \<Rightarrow> int \<times> 'w) \<Rightarrow> (int \<times> 'w plugin) option" where
  "on_cli p h f =
     do { c \<leftarrow> p_con p h;
          let (rc, w) = f (cli c) (p_world p);
          Some (rc, p\<lparr>p_world := w\<rparr>) }"

text \<open>
  The shape of most entry points on a path: parse it and, unless that fails, make one call on the
  path on the share.
\<close>

definition path_call ::
  "('w, 'x) ndp_scheme \<Rightarrow> 'w plugin \<Rightarrow> nat \<Rightarrow> string \<Rightarrow>
     (string \<Rightarrow> Resource \<Rightarrow> ptr \<Rightarrow> 'w \<Rightarrow> int \<times> 'w) \<Rightarrow> (int \<times> string \<times> 'w plugin) option" where
  "path_call S p h szPath f =
     do { (rc, path, p) \<leftarrow> parse_path S p h szPath;
          if rc \<noteq> 0 then Some (rc, path, p)
          else do { (c, r) \<leftarrow> conn_of p h;
                    (rc, p) \<leftarrow> on_cli p h (f path r);
                    Some (rc, path, p) } }"

subsection \<open>Attributes, directories, deleting and renaming\<close>

record NDFILEINFOL =
  pfi_stat :: FILESTATUS3L
  pfi_pszName :: "string option"
  pfi_data :: "smbwrp_fileinfo option"

definition NdpSetPathInfo ::
  "('w, 'x) ndp_scheme \<Rightarrow> 'w plugin \<Rightarrow> nat \<Rightarrow> NDFILEINFOL \<Rightarrow> string \<Rightarrow> (int \<times> 'w plugin) option" where
  "NdpSetPathInfo S p h pfi szPathName =
     ENTER S p (\<lambda>rc. Some (rc, p)) (\<lambda>p.
       do { p \<leftarrow> invalidate S p h szPathName;
            (rc, path, p) \<leftarrow> path_call S p h szPathName (\<lambda>path r c w.
               smbwrp_setattr S c (fileinfo0\<lparr>fi_fname := strncpy_z 260 path,
                 fi_mtime := fsphDosDateToUnixTime S (fst (dtLastWrite (pfi_stat pfi)))
                               (snd (dtLastWrite (pfi_stat pfi))),
                 fi_attr := attrFile (pfi_stat pfi) AND 0x37\<rparr>) w);
            Some (rc, LEAVE p) })"

definition NdpSetCurrentDir ::
  "('w, 'x) ndp_scheme \<Rightarrow> 'w plugin \<Rightarrow> nat \<Rightarrow> string \<Rightarrow> (int \<times> 'w plugin) option" where
  "NdpSetCurrentDir S p h szPath =
     ENTER S p (\<lambda>rc. Some (rc, p)) (\<lambda>p.
       do { (rc, path, p) \<leftarrow> path_call S p h szPath (\<lambda>path r c. smbwrp_chdir S (srv r) c path);
            Some (rc, LEAVE p) })"

definition NdpForceDelete ::
  "('w, 'x) ndp_scheme \<Rightarrow> 'w plugin \<Rightarrow> nat \<Rightarrow> string \<Rightarrow> (int \<times> 'w plugin) option" where
  "NdpForceDelete S p h szFile =
     ENTER S p (\<lambda>rc. Some (rc, p)) (\<lambda>p.
       do { p \<leftarrow> invalidate S p h szFile;
            (rc, path, p) \<leftarrow> path_call S p h szFile (\<lambda>path r c. smbwrp_unlink S c path);
            Some (rc, LEAVE p) })"

definition NdpDeleteDir ::
  "('w, 'x) ndp_scheme \<Rightarrow> 'w plugin \<Rightarrow> nat \<Rightarrow> string \<Rightarrow> (int \<times> 'w plugin) option" where
  "NdpDeleteDir S p h szDir =
     ENTER S p (\<lambda>rc. Some (rc, p)) (\<lambda>p.
       do { p \<leftarrow> invalidate S p h szDir;
            (rc, path, p) \<leftarrow> path_call S p h szDir (\<lambda>path r c. smbwrp_rmdir S c path);
            Some (rc, LEAVE p) })"

text \<open>A list of attributes is a buffer, or NULL.\<close>

definition helperEASet ::
  "('w, 'x) ndp_scheme \<Rightarrow> ptr \<Rightarrow> string option \<Rightarrow> string \<Rightarrow> 'w plugin \<Rightarrow> (int \<times> 'w plugin) option" where
  "helperEASet S cl pFEAList path p =
     (case pFEAList of None \<Rightarrow> Some (err S ERROR_EAS_NOT_SUPPORTED, p)
      | Some buf \<Rightarrow>
          do { cb \<leftarrow> rd32 buf 0;
               if cb \<le> 4 then Some (err S ERROR_EAS_NOT_SUPPORTED, p)
               else ENTER S p (\<lambda>rc. Some (rc, p)) (\<lambda>p.
                 do { (rc, w) \<leftarrow> helperEASet_loop S cl path buf cb 4 4 (p_world p);
                      Some (rc, LEAVE (p\<lparr>p_world := w\<rparr>)) }) })"

text \<open>The test of \<open>path\<close> before the attributes are set is a test of an array, so it is always true.\<close>

definition NdpCreateDir ::
  "('w, 'x) ndp_scheme \<Rightarrow> 'w plugin \<Rightarrow> nat \<Rightarrow> string \<Rightarrow> string option \<Rightarrow> (int \<times> 'w plugin) option" where
  "NdpCreateDir S p h szDirName pFEAList =
     ENTER S p (\<lambda>rc. Some (rc, p)) (\<lambda>p.
       do { p \<leftarrow> invalidate S p h szDirName;
            (rc, path, p) \<leftarrow> path_call S p h szDirName (\<lambda>path r c. smbwrp_mkdir S c path);
            let p = LEAVE p;
            (c, r) \<leftarrow> conn_of p h;
            (rcEASet, p) \<leftarrow> (if easupport r \<noteq> 0 then helperEASet S (cli c) pFEAList path p else Some (0, p));
            Some (if rc \<noteq> 0 then err S ERROR_NETWORK_ACCESS_DENIED else rc, p) })"

text \<open>
  The new name on the share is what follows the part of \<open>szDst\<close> that is as long as the part of
  \<open>szSrc\<close> the parser took away; it may start beyond the end of \<open>szDst\<close>.
\<close>

definition NdpMove ::
  "('w, 'x) ndp_scheme \<Rightarrow> 'w plugin \<Rightarrow> nat \<Rightarrow> string \<Rightarrow> string \<Rightarrow> (int \<times> 'w plugin) option" where
  "NdpMove S p h szDst szSrc =
     ENTER S p (\<lambda>rc. Some (rc, p)) (\<lambda>p.
       do { p \<leftarrow> invalidate S p h szSrc;
            p \<leftarrow> invalidate S p h szDst;
            (rc, src, p) \<leftarrow> parse_path S p h szSrc;
            (rc, p) \<leftarrow>
              (if rc \<noteq> 0 then Some (rc, p)
               else let l1 = length szSrc; l2 = length src in
                 if l1 > l2
                 then if fsphStrNICmp S szSrc szDst (l1 - l2) \<noteq> 0 then Some (err S ERROR_WRITE_PROTECT, p)
                      else do { require (l1 - l2 + 1 \<le> length szDst);
                                on_cli p h (\<lambda>c. smbwrp_rename S c src (drop (l1 - l2 + 1) szDst)) }
                 else on_cli p h (\<lambda>c. smbwrp_rename S c src szDst));
            Some (rc, LEAVE p) })"

definition NdpChangeCase ::
  "('w, 'x) ndp_scheme \<Rightarrow> 'w plugin \<Rightarrow> nat \<Rightarrow> string \<Rightarrow> string \<Rightarrow> (int \<times> 'w plugin) option" where
  "NdpChangeCase S p h szDst szSrc = NdpMove S p h szDst szSrc"

definition NdpRename ::
  "('w, 'x) ndp_scheme \<Rightarrow> 'w plugin \<Rightarrow> nat \<Rightarrow> string \<Rightarrow> string \<Rightarrow> (int \<times> 'w plugin) option" where
  "NdpRename S p h szDst szSrc = NdpMove S p h szDst szSrc"

definition NdpSetFileAttribute ::
  "('w, 'x) ndp_scheme \<Rightarrow> 'w plugin \<Rightarrow> nat \<Rightarrow> string \<Rightarrow> u16 \<Rightarrow> (int \<times> 'w plugin) option" where
  "NdpSetFileAttribute S p h szFileName usAttr =
     ENTER S p (\<lambda>rc. Some (rc, p)) (\<lambda>p.
       do { (rc, path, p) \<leftarrow> path_call S p h szFileName (\<lambda>path r c w.
               smbwrp_setattr S c (fileinfo0\<lparr>fi_fname := strncpy_z 260 path,
                 fi_attr := ucast usAttr AND 0x37\<rparr>) w);
            Some (rc, LEAVE p) })"

text \<open>The entry points that only answer.\<close>

definition NdpMove2 :: "('w, 'x) ndp_scheme \<Rightarrow> int" where
  "NdpMove2 S = err S ERROR_WRITE_PROTECT"

definition NdpCopy :: "('w, 'x) ndp_scheme \<Rightarrow> int" where
  "NdpCopy S = err S ERROR_CANNOT_COPY"

definition NdpCopy2 :: "('w, 'x) ndp_scheme \<Rightarrow> int" where
  "NdpCopy2 S = err S ERROR_CANNOT_COPY"

definition NdpFlush :: "('w, 'x) ndp_scheme \<Rightarrow> int" where
  "NdpFlush S = err S ERROR_NOT_SUPPORTED"

end
