(* ===== verification/Plugin_File.thy ===== *)
theory Plugin_File
  imports Plugin
begin

text \<open>
  The entry points on the file of a connection (\<open>ndpsmb.c\<close>). A connection has one file; it is open
  when its descriptor is not negative.
\<close>

subsection \<open>Calls on the file\<close>

definition on_file ::
  "'w plugin \<Rightarrow> nat \<Rightarrow> (ptr \<Rightarrow> smbwrp_file \<Rightarrow> 'w \<Rightarrow> int \<times> smbwrp_file \<times> 'w) \<Rightarrow> (int \<times> 'w plugin) option" where
  "on_file p h f =
     do { c \<leftarrow> p_con p h;
          let (rc, fl, w) = f (cli c) (cfile c) (p_world p);
          Some (rc, p\<lparr>p_con := (p_con p)(h \<mapsto> c\<lparr>cfile := fl\<rparr>), p_world := w\<rparr>) }"

definition set_file :: "'w plugin \<Rightarrow> nat \<Rightarrow> (smbwrp_file \<Rightarrow> smbwrp_file) \<Rightarrow> 'w plugin option" where
  "set_file p h f = do { c \<leftarrow> p_con p h; Some (p\<lparr>p_con := (p_con p)(h \<mapsto> c\<lparr>cfile := f (cfile c)\<rparr>)\<rparr>) }"

text \<open>The test most entry points start with.\<close>

definition if_open ::
  "('w, 'x) ndp_scheme \<Rightarrow> 'w plugin \<Rightarrow> nat \<Rightarrow> (int \<times> 'w plugin) option \<Rightarrow> (int \<times> 'w plugin) option" where
  "if_open S p h body =
     do { c \<leftarrow> p_con p h;
          if f_fd (cfile c) < 0 then Some (err S ERROR_INVALID_HANDLE, p) else body }"

subsection \<open>Extended attributes of the file\<close>

text \<open>The loop has the defect of \<open>helperEASet\<close>: the next element is read to advance the count.\<close>

function fset_loop ::
  "('w, 'x) samba_scheme \<Rightarrow> ptr \<Rightarrow> smbwrp_file \<Rightarrow> string \<Rightarrow> nat \<Rightarrow> nat \<Rightarrow> nat \<Rightarrow> 'w \<Rightarrow> (int \<times> 'w) option" where
  "fset_loop S cl fl buf cb pos ddone w =
     (if ddone < cb
      then do { (n, v) \<leftarrow> rd_fea buf pos;
                name \<leftarrow> rdstr buf (pos + 4);
                val \<leftarrow> rdmem buf (pos + 4 + n + 1) v;
                let (rc, w) = smbwrp_fsetea S cl fl name val w;
                if rc \<noteq> 0 then Some (rc, w)
                else do { let pos = pos + 4 + n + 1 + v;
                          (n, v) \<leftarrow> rd_fea buf pos;
                          fset_loop S cl fl buf cb pos (ddone + 4 + n + 1 + v) w } }
      else Some (0, w))"
  by pat_completeness auto
termination
  by (relation "measure (\<lambda>(S, cl, fl, buf, cb, pos, ddone, w). cb - ddone)") auto

declare fset_loop.simps [simp del]

definition NdpFileEASet ::
  "('w, 'x) ndp_scheme \<Rightarrow> 'w plugin \<Rightarrow> nat \<Rightarrow> string option \<Rightarrow> (int \<times> 'w plugin) option" where
  "NdpFileEASet S p h pFEAList =
     (case pFEAList of None \<Rightarrow> Some (err S ERROR_EAS_NOT_SUPPORTED, p)
      | Some buf \<Rightarrow>
          do { cb \<leftarrow> rd32 buf 0;
               (c, r) \<leftarrow> conn_of p h;
               if cb \<le> 4 \<or> easupport r = 0 then Some (err S ERROR_EAS_NOT_SUPPORTED, p)
               else ENTER S p (\<lambda>rc. Some (rc, p)) (\<lambda>p.
                 do { (rc, p) \<leftarrow> if_open S p h
                        (do { (rc, w) \<leftarrow> fset_loop S (cli c) (cfile c) buf cb 4 4 (p_world p);
                              Some (rc, p\<lparr>p_world := w\<rparr>) });
                      Some (rc, LEAVE p) }) })"

subsection \<open>Opening\<close>

definition O_RDONLY :: u32 where "O_RDONLY = 0x00"
definition O_RDWR :: u32 where "O_RDWR = 0x02"
definition O_BINARY :: u32 where "O_BINARY = 0x0100"
definition O_CREAT :: u32 where "O_CREAT = 0x0200"
definition O_TRUNC :: u32 where "O_TRUNC = 0x0400"
definition O_EXCL :: u32 where "O_EXCL = 0x0800"

definition open_file :: "string \<Rightarrow> string \<Rightarrow> u32 \<Rightarrow> u32 \<Rightarrow> u32 \<Rightarrow> smbwrp_file \<Rightarrow> smbwrp_file" where
  "open_file szFileName path flags ulOpenMode ulAttribute fl =
     fl\<lparr>f_fullname := strncpy_z 260 szFileName, f_fname := strncpy_z 260 path,
        f_openmode := flags OR O_BINARY OR (if ulOpenMode AND 3 = 0 then O_RDONLY else O_RDWR),
        f_openattr := ulAttribute AND 0x37, f_denymode := uint (drop_bit 4 (ulOpenMode AND 0x70))\<rparr>"

text \<open>A positive descriptor is refused; the descriptor 0 is taken for a closed file.\<close>

definition smbopen_try ::
  "('w, 'x) ndp_scheme \<Rightarrow> 'w plugin \<Rightarrow> nat \<Rightarrow> string \<Rightarrow> u32 \<Rightarrow> u32 \<Rightarrow> u32 \<Rightarrow> (int \<times> 'w plugin) option" where
  "smbopen_try S p h szFileName flags ulOpenMode ulAttribute =
     do { c \<leftarrow> p_con p h;
          if f_fd (cfile c) > 0 then Some (err S ERROR_TOO_MANY_OPEN_FILES, p)
          else do { (rc, path, p) \<leftarrow> parse_path S p h szFileName;
                    if rc \<noteq> 0 then Some (rc, p)
                    else do { p \<leftarrow> set_file p h (open_file szFileName path flags ulOpenMode ulAttribute);
                              on_file p h (smbwrp_open S) } } }"

definition smbopen ::
  "('w, 'x) ndp_scheme \<Rightarrow> 'w plugin \<Rightarrow> nat \<Rightarrow> string \<Rightarrow> u32 \<Rightarrow> u32 \<Rightarrow> u32 \<Rightarrow> string option \<Rightarrow>
     (int \<times> 'w plugin) option" where
  "smbopen S p h szFileName flags ulOpenMode ulAttribute pFEAList =
     ENTER S p (\<lambda>rc. Some (rc, p)) (\<lambda>p.
       do { p \<leftarrow> (if flags AND O_CREAT \<noteq> 0 then invalidate S p h szFileName else Some p);
            (rc, p) \<leftarrow> smbopen_try S p h szFileName flags ulOpenMode ulAttribute;
            p \<leftarrow> (if rc = 0 \<and> pFEAList \<noteq> None
                  then do { (rc1, p) \<leftarrow> NdpFileEASet S p h pFEAList; Some p }
                  else Some p);
            Some (rc, LEAVE p) })"

definition NdpOpenReplace ::
  "('w, 'x) ndp_scheme \<Rightarrow> 'w plugin \<Rightarrow> nat \<Rightarrow> string \<Rightarrow> u32 \<Rightarrow> u32 \<Rightarrow> string option \<Rightarrow> (int \<times> 'w plugin) option" where
  "NdpOpenReplace S p h szFileName = smbopen S p h szFileName O_TRUNC"

definition NdpOpenReplaceL ::
  "('w, 'x) ndp_scheme \<Rightarrow> 'w plugin \<Rightarrow> nat \<Rightarrow> string \<Rightarrow> u32 \<Rightarrow> u32 \<Rightarrow> string option \<Rightarrow> (int \<times> 'w plugin) option" where
  "NdpOpenReplaceL S p h szFileName = smbopen S p h szFileName O_TRUNC"

definition NdpOpenCreate ::
  "('w, 'x) ndp_scheme \<Rightarrow> 'w plugin \<Rightarrow> nat \<Rightarrow> string \<Rightarrow> u32 \<Rightarrow> u32 \<Rightarrow> string option \<Rightarrow> (int \<times> 'w plugin) option" where
  "NdpOpenCreate S p h szFileName = smbopen S p h szFileName (O_CREAT OR O_EXCL)"

definition NdpOpenCreateL ::
  "('w, 'x) ndp_scheme \<Rightarrow> 'w plugin \<Rightarrow> nat \<Rightarrow> string \<Rightarrow> u32 \<Rightarrow> u32 \<Rightarrow> string option \<Rightarrow> (int \<times> 'w plugin) option" where
  "NdpOpenCreateL S p h szFileName = smbopen S p h szFileName (O_CREAT OR O_EXCL)"

definition NdpOpenExisting ::
  "('w, 'x) ndp_scheme \<Rightarrow> 'w plugin \<Rightarrow> nat \<Rightarrow> string \<Rightarrow> u32 \<Rightarrow> (int \<times> 'w plugin) option" where
  "NdpOpenExisting S p h szFileName ulOpenMode = smbopen S p h szFileName 0 ulOpenMode 0 None"

subsection \<open>Reading, writing, positioning\<close>

text \<open>
  The list NetDrive passes in is returned with the new entry. The local \<open>finfo\<close> is not initialised
  (\<open>junk\<close>), so a name of 260 characters would not be terminated.
\<close>

definition NdpFileQueryInfo ::
  "('w, 'x) ndp_scheme \<Rightarrow> 'w plugin \<Rightarrow> nat \<Rightarrow> smbwrp_fileinfo \<Rightarrow> plist \<Rightarrow> (int \<times> plist \<times> 'w plugin) option" where
  "NdpFileQueryInfo S p h junk plist =
     ENTER S p (\<lambda>rc. Some (rc, plist, p)) (\<lambda>p.
       do { (c, r) \<leftarrow> conn_of p h;
            let fl = cfile c;
            if f_fd fl < 0 \<or> f_fname fl = [] then Some (err S ERROR_INVALID_HANDLE, plist, LEAVE p)
            else do {
              require (length (f_fname fl) < 260);
              let (rc, finfo, w) = smbwrp_fgetattr S (cli c) fl (junk\<lparr>fi_fname := f_fname fl\<rparr>) (p_world p);
              let plist = (if rc = 0
                           then snd (getfindinfoL S (share_name (srv r)) plist (finfo\<lparr>fi_easize := -1\<rparr>) 0 None)
                           else plist);
              Some (rc, plist, LEAVE (p\<lparr>p_world := w\<rparr>)) } })"

text \<open>The change is noted in the handle and made when the file is closed; the result is always success.\<close>

definition NdpFileSetInfo ::
  "('w, 'x) ndp_scheme \<Rightarrow> 'w plugin \<Rightarrow> nat \<Rightarrow> NDFILEINFOL \<Rightarrow> (int \<times> 'w plugin) option" where
  "NdpFileSetInfo S p h pfi =
     ENTER S p (\<lambda>rc. Some (rc, p)) (\<lambda>p.
       do { (c, r) \<leftarrow> conn_of p h;
            p \<leftarrow> invalidate S p h (f_fullname (cfile c));
            p \<leftarrow> (if f_fd (cfile c) < 0 \<or> f_fname (cfile c) = [] then Some p
                  else set_file p h (\<lambda>fl. fl\<lparr>f_openattr := attrFile (pfi_stat pfi),
                         f_mtime := fsphDosDateToUnixTime S (fst (dtLastWrite (pfi_stat pfi)))
                                      (snd (dtLastWrite (pfi_stat pfi))),
                         f_updatetime := 2\<rparr>));
            Some (err S NO_ERROR, LEAVE p) })"

text \<open>The position is returned only by a call that succeeds.\<close>

definition file_offset :: "'w plugin \<Rightarrow> nat \<Rightarrow> u64 option" where
  "file_offset p h = map_option (\<lambda>c. f_offset (cfile c)) (p_con p h)"

definition NdpFileSetFilePtrL ::
  "('w, 'x) ndp_scheme \<Rightarrow> 'w plugin \<Rightarrow> nat \<Rightarrow> u64 \<Rightarrow> u32 \<Rightarrow> (int \<times> u64 option \<times> 'w plugin) option" where
  "NdpFileSetFilePtrL S p h llOffset ulMethod =
     ENTER S p (\<lambda>rc. Some (rc, None, p)) (\<lambda>p.
       do { c \<leftarrow> p_con p h;
            if f_fd (cfile c) < 0 then Some (err S ERROR_INVALID_HANDLE, None, LEAVE p)
            else do { (rc, p) \<leftarrow> on_file p h (\<lambda>cl fl w. smbwrp_lseek S cl fl (sint ulMethod) llOffset w);
                      Some (rc, if rc = 0 then file_offset p h else None, LEAVE p) } })"

text \<open>The 32-bit variant reads the position from a variable that a failed call leaves unset.\<close>

definition NdpFileSetFilePtr ::
  "('w, 'x) ndp_scheme \<Rightarrow> 'w plugin \<Rightarrow> nat \<Rightarrow> u64 \<Rightarrow> u32 \<Rightarrow> u32 \<Rightarrow> (int \<times> u32 \<times> 'w plugin) option" where
  "NdpFileSetFilePtr S p h junk lOffset ulMethod =
     do { (rc, pos, p) \<leftarrow> NdpFileSetFilePtrL S p h (scast lOffset) ulMethod;
          Some (rc, ucast ((case pos of Some x \<Rightarrow> x | None \<Rightarrow> junk) AND 0xFFFFFFFF), p) }"

definition NdpFileClose :: "('w, 'x) ndp_scheme \<Rightarrow> 'w plugin \<Rightarrow> nat \<Rightarrow> (int \<times> 'w plugin) option" where
  "NdpFileClose S p h =
     ENTER S p (\<lambda>rc. Some (rc, p)) (\<lambda>p.
       do { (rc, p) \<leftarrow> if_open S p h (on_file p h (smbwrp_close S));
            p \<leftarrow> set_file p h (\<lambda>fl. fl\<lparr>f_fd := -1\<rparr>);
            Some (rc, LEAVE p) })"

definition NdpFileCommit :: "('w, 'x) ndp_scheme \<Rightarrow> int" where
  "NdpFileCommit S = err S NO_ERROR"

definition NdpFileNewSizeL ::
  "('w, 'x) ndp_scheme \<Rightarrow> 'w plugin \<Rightarrow> nat \<Rightarrow> u64 \<Rightarrow> (int \<times> 'w plugin) option" where
  "NdpFileNewSizeL S p h llLen =
     ENTER S p (\<lambda>rc. Some (rc, p)) (\<lambda>p.
       do { (rc, p) \<leftarrow> if_open S p h
              (on_file p h (\<lambda>cl fl w. let (rc, w) = smbwrp_setfilesize S cl fl llLen w in (rc, fl, w)));
            Some (rc, LEAVE p) })"

definition NdpFileNewSize ::
  "('w, 'x) ndp_scheme \<Rightarrow> 'w plugin \<Rightarrow> nat \<Rightarrow> u32 \<Rightarrow> (int \<times> 'w plugin) option" where
  "NdpFileNewSize S p h ulLen = NdpFileNewSizeL S p h (ucast ulLen)"

text \<open>
  There is no test of the descriptor; without a connection the count is the unset variable \<open>junk\<close>. The
  data and the count stored for the caller are the second and third component.
\<close>

definition NdpFileRead ::
  "('w, 'x) ndp_scheme \<Rightarrow> 'w plugin \<Rightarrow> nat \<Rightarrow> u32 \<Rightarrow> u32 \<Rightarrow> (int \<times> string \<times> u32 option \<times> 'w plugin) option" where
  "NdpFileRead S p h junk ulRead =
     ENTER S p (\<lambda>rc. Some (rc, [], None, p)) (\<lambda>p.
       do { c \<leftarrow> p_con p h;
            let (rc, fl, data, w) = smbwrp_read S (cli c) (cfile c) ulRead (p_world p);
            let ulActual = (if cli c = None then junk else word_of_nat (length data));
            let rc = (if ulActual > 0 then err S NO_ERROR else rc);
            Some (rc, data, if rc = err S NO_ERROR then Some ulActual else None,
                  LEAVE (p\<lparr>p_con := (p_con p)(h \<mapsto> c\<lparr>cfile := fl\<rparr>), p_world := w\<rparr>)) })"

definition NdpFileWrite ::
  "('w, 'x) ndp_scheme \<Rightarrow> 'w plugin \<Rightarrow> nat \<Rightarrow> string \<Rightarrow> u32 \<Rightarrow> (int \<times> u32 option \<times> 'w plugin) option" where
  "NdpFileWrite S p h buf ulWrite =
     ENTER S p (\<lambda>rc. Some (rc, None, p)) (\<lambda>p.
       do { (c, r) \<leftarrow> conn_of p h;
            p \<leftarrow> invalidate S p h (f_fullname (cfile c));
            if f_fd (cfile c) < 0 then Some (err S ERROR_INVALID_HANDLE, None, LEAVE p)
            else let (rc, fl, actual, w) = smbwrp_write S (cli c) (cfile c) buf ulWrite (p_world p)
                 in Some (rc, if cli c = None then None else Some actual,
                      LEAVE (p\<lparr>p_con := (p_con p)(h \<mapsto> c\<lparr>cfile := fl\<rparr>), p_world := w\<rparr>)) })"

end
