(* ===== verification/Plugin_Ea.thy ===== *)
theory Plugin_Ea
  imports Plugin_File
begin

text \<open>
  The entry points that query and set extended attributes, by path and by file (\<open>ndpsmb.c\<close>). They
  list the attributes into a block of 64 KB; \<open>blk\<close> is what \<open>malloc\<close> finds there. NetDrive keeps a copy
  of the \<open>smbwrp_fileinfo\<close> it was given with an entry, the component \<^const>\<open>pfi_data\<close>, and hands out
  a pointer to it.
\<close>

definition cbBuffer :: nat where "cbBuffer = 64 * 1024"

subsection \<open>The answers\<close>

text \<open>
  A file that does not exist has an empty list; any failure but a lack of room means no attributes.
\<close>

definition ea_query ::
  "('w, 'x) ndp_scheme \<Rightarrow> int \<Rightarrow> string \<Rightarrow> string option \<Rightarrow> string \<Rightarrow> (int \<times> string) option" where
  "ea_query S rc src gea dst =
     (if rc \<noteq> 0
      then if rc = err S ERROR_FILE_NOT_FOUND \<or> rc = err S ERROR_PATH_NOT_FOUND
           then do { dst \<leftarrow> wrmem dst 0 (le32 4); Some (err S NO_ERROR, dst) }
           else if rc = err S ERROR_BUFFER_OVERFLOW
           then do { cb \<leftarrow> rd32 src 0; dst \<leftarrow> wrmem dst 0 (le32 cb); Some (rc, dst) }
           else Some (err S ERROR_EAS_NOT_SUPPORTED, dst)
      else buildFEALIST S src gea dst)"

definition ea_size :: "('w, 'x) ndp_scheme \<Rightarrow> int \<Rightarrow> string \<Rightarrow> (int \<times> nat) option" where
  "ea_size S rc src =
     do { (rc, src) \<leftarrow>
            (if rc \<noteq> 0
             then if rc = err S ERROR_FILE_NOT_FOUND \<or> rc = err S ERROR_PATH_NOT_FOUND
                  then do { src \<leftarrow> wrmem src 0 (le32 4); Some (err S NO_ERROR, src) }
                  else if rc = err S ERROR_BUFFER_OVERFLOW then Some (err S NO_ERROR, src)
                  else Some (err S ERROR_EAS_NOT_SUPPORTED, src)
             else Some (rc, src));
          cb \<leftarrow> rd32 src 0;
          Some (rc, cb) }"

text \<open>The entry points on a path answer every failure with the same code.\<close>

definition ea_rc :: "('w, 'x) ndp_scheme \<Rightarrow> int \<Rightarrow> int" where
  "ea_rc S rc = (if rc \<noteq> 0 then err S ERROR_EAS_NOT_SUPPORTED else rc)"

subsection \<open>By path\<close>

text \<open>
  The path is that of the data NetDrive kept. The caller's list is returned with what was written.
\<close>

definition ea_data :: "NDFILEINFOL option \<Rightarrow> smbwrp_fileinfo option" where
  "ea_data pfi = do { f \<leftarrow> pfi; name \<leftarrow> pfi_pszName f; pfi_data f }"

definition NdpEAQuery ::
  "('w, 'x) ndp_scheme \<Rightarrow> 'w plugin \<Rightarrow> nat \<Rightarrow> string \<Rightarrow> string option \<Rightarrow> NDFILEINFOL option \<Rightarrow> string option \<Rightarrow>
     (int \<times> string option \<times> 'w plugin) option" where
  "NdpEAQuery S p h blk pGEAList pfi pFEAList =
     do { (c, r) \<leftarrow> conn_of p h;
          case pFEAList of None \<Rightarrow> Some (err S ERROR_EAS_NOT_SUPPORTED, None, p)
          | Some dst \<Rightarrow>
              (case ea_data pfi of
                 None \<Rightarrow> Some (err S ERROR_EAS_NOT_SUPPORTED, Some dst, p)
               | Some finfo \<Rightarrow>
                   if easupport r = 0 then Some (err S ERROR_EAS_NOT_SUPPORTED, Some dst, p)
                   else ENTER S p (\<lambda>rc. Some (rc, Some dst, p)) (\<lambda>p.
                     let (ok, p) = p_malloc p in
                     if \<not> ok then Some (err S ERROR_NOT_ENOUGH_MEMORY, Some dst, LEAVE p)
                     else do { (rc, src, w) \<leftarrow>
                                 smbwrp_listea S (cli c) (fi_fname finfo) blk cbBuffer (p_world p);
                               (rc, dst) \<leftarrow> ea_query S rc src pGEAList dst;
                               Some (ea_rc S rc, Some dst, LEAVE (p\<lparr>p_world := w\<rparr>)) })) }"

definition NdpEASet ::
  "('w, 'x) ndp_scheme \<Rightarrow> 'w plugin \<Rightarrow> nat \<Rightarrow> string option \<Rightarrow> NDFILEINFOL option \<Rightarrow> (int \<times> 'w plugin) option" where
  "NdpEASet S p h pFEAList pfi =
     do { (c, r) \<leftarrow> conn_of p h;
          case ea_data pfi of
            None \<Rightarrow> Some (err S ERROR_EAS_NOT_SUPPORTED, p)
          | Some finfo \<Rightarrow>
              if easupport r = 0 then Some (err S ERROR_EAS_NOT_SUPPORTED, p)
              else do { (rc, p) \<leftarrow> helperEASet S (cli c) pFEAList (fi_fname finfo) p;
                        Some (ea_rc S rc, p) } }"

text \<open>
  A size that is cached in the data of NetDrive is used once. The size stored for the caller, if one
  is, is the second component, the data after the call the third.
\<close>

definition NdpEASize ::
  "('w, 'x) ndp_scheme \<Rightarrow> 'w plugin \<Rightarrow> nat \<Rightarrow> string \<Rightarrow> NDFILEINFOL option \<Rightarrow>
     (int \<times> int option \<times> NDFILEINFOL option \<times> 'w plugin) option" where
  "NdpEASize S p h blk pfi =
     do { (c, r) \<leftarrow> conn_of p h;
          case pfi of
            None \<Rightarrow> Some (err S ERROR_EAS_NOT_SUPPORTED, None, pfi, p)
          | Some f \<Rightarrow>
              if easupport r = 0 then Some (err S ERROR_EAS_NOT_SUPPORTED, None, pfi, p)
              else (case pfi_data f of
                None \<Rightarrow> Some (err S ERROR_EAS_NOT_SUPPORTED, None, pfi, p)
              | Some finfo \<Rightarrow>
                  ENTER S p (\<lambda>rc. Some (rc, None, pfi, p)) (\<lambda>p.
                    let pfi = Some (f\<lparr>pfi_data := Some (finfo\<lparr>fi_easize := -1\<rparr>)\<rparr>) in
                    if fi_easize finfo \<ge> 0
                    then Some (err S NO_ERROR, Some (fi_easize finfo), pfi, LEAVE p)
                    else let (ok, p) = p_malloc p in
                    if \<not> ok then Some (err S ERROR_NOT_ENOUGH_MEMORY, None, pfi, LEAVE p)
                    else do { (rc, src, w) \<leftarrow>
                                smbwrp_listea S (cli c) (fi_fname finfo) blk cbBuffer (p_world p);
                              (rc, cb) \<leftarrow> ea_size S rc src;
                              Some (ea_rc S rc, Some (int cb), pfi, LEAVE (p\<lparr>p_world := w\<rparr>)) })) }"

subsection \<open>By file\<close>

text \<open>
  The block is allocated before the mutex is requested. Without an open file the log statement at
  the end of the query reads the list through a pointer that was never set.
\<close>

definition NdpFileEAQuery ::
  "('w, 'x) ndp_scheme \<Rightarrow> 'w plugin \<Rightarrow> nat \<Rightarrow> string \<Rightarrow> string option \<Rightarrow> string option \<Rightarrow>
     (int \<times> string option \<times> 'w plugin) option" where
  "NdpFileEAQuery S p h blk pGEAList pFEAList =
     do { (c, r) \<leftarrow> conn_of p h;
          case pFEAList of None \<Rightarrow> Some (err S ERROR_EAS_NOT_SUPPORTED, None, p)
          | Some dst \<Rightarrow>
              if easupport r = 0 then Some (err S ERROR_EAS_NOT_SUPPORTED, Some dst, p)
              else let (ok, p) = p_malloc p in
              if \<not> ok then Some (err S ERROR_NOT_ENOUGH_MEMORY, Some dst, p)
              else ENTER S p (\<lambda>rc. Some (rc, Some dst, p)) (\<lambda>p.
                if f_fd (cfile c) < 0 then None
                else do { (rc, src, w) \<leftarrow> smbwrp_flistea S (cli c) (cfile c) blk cbBuffer (p_world p);
                          (rc, dst) \<leftarrow> ea_query S rc src pGEAList dst;
                          Some (rc, Some dst, LEAVE (p\<lparr>p_world := w\<rparr>)) }) }"

definition NdpFileEASize ::
  "('w, 'x) ndp_scheme \<Rightarrow> 'w plugin \<Rightarrow> nat \<Rightarrow> string \<Rightarrow> (int \<times> nat option \<times> 'w plugin) option" where
  "NdpFileEASize S p h blk =
     do { (c, r) \<leftarrow> conn_of p h;
          if easupport r = 0 then Some (err S ERROR_EAS_NOT_SUPPORTED, None, p)
          else let (ok, p) = p_malloc p in
          if \<not> ok then Some (err S ERROR_NOT_ENOUGH_MEMORY, None, p)
          else ENTER S p (\<lambda>rc. Some (rc, None, p)) (\<lambda>p.
            if f_fd (cfile c) < 0 then Some (err S ERROR_INVALID_HANDLE, None, LEAVE p)
            else do { (rc, src, w) \<leftarrow> smbwrp_flistea S (cli c) (cfile c) blk cbBuffer (p_world p);
                      (rc, cb) \<leftarrow> ea_size S rc src;
                      Some (rc, Some cb, LEAVE (p\<lparr>p_world := w\<rparr>)) }) }"

end
