(* ===== verification/Password.thy ===== *)
theory Password
  imports Ndp_Prelude
begin

text \<open>
  The reversible encoding of the stored password (\<open>fromhex\<close>, \<open>tohex\<close>, \<open>decryptPassword\<close> and
  \<open>encryptPassword\<close> of \<open>ndpsmb.c\<close>): every character is written as two hexadecimal digits. The
  decoder is lenient (lower case digits, and 0 for anything that is no digit) and reads two
  characters per step without testing the second for the end of the string; a string of odd
  length makes it step over the terminating NUL, which is undefined behaviour.
\<close>

subsection \<open>Hexadecimal digits\<close>

definition fromhex :: "char \<Rightarrow> u8" where
  "fromhex c =
     (if byte_of CHR ''0'' \<le> byte_of c \<and> byte_of c \<le> byte_of CHR ''9''
      then byte_of c - byte_of CHR ''0''
      else if byte_of CHR ''A'' \<le> byte_of c \<and> byte_of c \<le> byte_of CHR ''F''
      then byte_of c - byte_of CHR ''A'' + 0xA
      else if byte_of CHR ''a'' \<le> byte_of c \<and> byte_of c \<le> byte_of CHR ''f''
      then byte_of c - byte_of CHR ''a'' + 0xA
      else 0)"

definition tohex :: "u8 \<Rightarrow> char" where
  "tohex b =
     (let b = b AND 0xF in
      if b \<le> 9 then char_of_byte (b + byte_of CHR ''0'')
      else char_of_byte (byte_of CHR ''A'' + (b - 0xA)))"

lemma byte_of_char_of_byte [simp]: "byte_of (char_of_byte b) = b"
proof -
  have "unat b < 256" using unsigned_less [of b, where 'a = nat] by simp
  then have "(of_char (char_of (unat b)) :: nat) = unat b" by simp
  then have "(of_nat (of_char (char_of (unat b)) :: nat) :: u8) = of_nat (unat b)" by (rule arg_cong)
  then show ?thesis
    unfolding byte_of_def char_of_byte_def of_nat_of_char by (simp only: of_nat_unat ucast_id)
qed

subsection \<open>The two directions\<close>

text \<open>
  \<open>encryptPassword\<close> shifts the signed character right and passes it as an unsigned char; the
  mask of \<open>tohex\<close> keeps the upper half of the byte.
\<close>

fun encryptPassword :: "string \<Rightarrow> string" where
  "encryptPassword [] = []"
| "encryptPassword (c # s) =
     tohex (signed_drop_bit 4 (byte_of c)) # tohex (byte_of c) # encryptPassword s"

text \<open>
  The result is the bytes stored before the final NUL; they can contain a NUL themselves
  (the pair \<open>00\<close>), so a reader of the buffer sees \<^const>\<open>cstring_of\<close> of them. The two
  \<open>*s++\<close> of the statement are read left to right.
\<close>

fun decryptPassword :: "string \<Rightarrow> string option" where
  "decryptPassword [] = Some []"
| "decryptPassword [c] = None"
| "decryptPassword (a # b # s) =
     map_option (\<lambda>d. char_of_byte (push_bit 4 (fromhex a) + fromhex b) # d) (decryptPassword s)"

subsection \<open>Round trip\<close>

lemma tohex_mask [simp]: "tohex (b AND 0xF) = tohex b"
  by (simp add: tohex_def and.assoc)

lemma fromhex_tohex_digits: "list_all (\<lambda>n. fromhex (tohex (word_of_nat n)) = word_of_nat n) [0..<16]"
  by code_simp

lemma fromhex_tohex: "fromhex (tohex b) = b AND 0xF"
proof -
  let ?n = "unat (b AND 0xF)"
  have "b AND 0xF \<le> 15" by (rule word_and_le1)
  then have "?n < 16" by (simp add: word_le_nat_alt)
  with fromhex_tohex_digits have "fromhex (tohex (word_of_nat ?n)) = word_of_nat ?n"
    unfolding list_all_iff by (drule_tac bspec [of _ _ ?n]) simp_all
  then have "fromhex (tohex (b AND 0xF)) = b AND 0xF"
    by (simp only: of_nat_unat ucast_id)
  then show ?thesis by (simp only: tohex_mask)
qed

lemma nibbles_join: "push_bit 4 (signed_drop_bit 4 b AND 0xF) + (b AND 0xF) = (b :: u8)"
proof -
  have m: "(0xF :: u8) = mask 4" by (simp add: mask_eq_exp_minus_1)
  have "push_bit 4 (signed_drop_bit 4 b AND mask 4) AND (b AND mask 4) = 0"
    by (rule bit_word_eqI) (auto simp: bit_simps)
  then have "push_bit 4 (signed_drop_bit 4 b AND mask 4) + (b AND mask 4)
      = push_bit 4 (signed_drop_bit 4 b AND mask 4) OR (b AND mask 4)"
    by (rule disjunctive_add_eq_or)
  also have "\<dots> = b"
    by (rule bit_word_eqI) (auto simp: bit_simps)
  finally show ?thesis by (simp add: m)
qed

lemma nibbles_char:
  "char_of_byte (push_bit 4 (fromhex (tohex (signed_drop_bit 4 (byte_of c)))) + fromhex (tohex (byte_of c))) = c"
  by (simp only: fromhex_tohex nibbles_join char_of_byte_byte_of)

lemma decrypt_encrypt: "decryptPassword (encryptPassword s) = Some s"
  by (induction s) (simp_all only: encryptPassword.simps decryptPassword.simps nibbles_char option.map)

interpretation password: codec encryptPassword decryptPassword "\<lambda>_. True"
  by unfold_locales (rule decrypt_encrypt)

subsection \<open>Shape and sizes\<close>

lemma length_encryptPassword: "length (encryptPassword s) = 2 * length s"
  by (induction s) auto

lemma decryptPassword_length: "decryptPassword s = Some d \<Longrightarrow> length s = 2 * length d"
  by (induction s arbitrary: d rule: decryptPassword.induct) auto

lemma decryptPassword_None_iff: "decryptPassword s = None \<longleftrightarrow> odd (length s)"
  by (induction s rule: decryptPassword.induct) auto

definition is_hex :: "char \<Rightarrow> bool" where
  "is_hex c \<longleftrightarrow> c \<in> set ''0123456789ABCDEF''"

lemma tohex_is_hex: "is_hex (tohex b)"
proof -
  have all: "list_all (\<lambda>n. is_hex (tohex (word_of_nat n))) [0..<16]" by code_simp
  let ?n = "unat (b AND 0xF)"
  have "b AND 0xF \<le> 15" by (rule word_and_le1)
  then have "?n < 16" by (simp add: word_le_nat_alt)
  then have "is_hex (tohex (word_of_nat ?n))"
    using all unfolding list_all_iff by (drule_tac bspec [of _ _ ?n]) simp_all
  then show ?thesis by (simp only: of_nat_unat ucast_id tohex_mask)
qed

lemma encryptPassword_is_hex: "\<forall>c \<in> set (encryptPassword s). is_hex c"
  by (induction s) (auto simp: tohex_is_hex)

lemma NUL_not_hex: "\<not> is_hex NUL"
  by (simp add: is_hex_def)

lemma encryptPassword_cstr: "cstr (encryptPassword s)"
  unfolding cstr_def using encryptPassword_is_hex NUL_not_hex by blast

end
