(* ===== verification/Resource_Ops.thy ===== *)
theory Resource_Ops
  imports Plugin_File Password
begin

text \<open>
  Resources and connections over their life (\<open>ndpsmb.c\<close>): reading the properties, mounting,
  comparing, describing, the free space, connecting and disconnecting.
\<close>

subsection \<open>Properties\<close>

text \<open>
  The query of a string property gives a code, a pointer and a length. A value is taken when there is
  no error, the length is not 0 and the string is not empty.
\<close>

definition string_property :: "('w, 'x) ndp_scheme \<Rightarrow> string \<Rightarrow> 'w \<Rightarrow> string option option" where
  "string_property S name w =
     (case fsphQueryStringProperty S name w of (rc, q, t) \<Rightarrow>
        if rc = 0 \<and> t \<noteq> 0
        then do { s \<leftarrow> q; Some (if s = [] then None else Some s) }
        else Some None)"

text \<open>Numbers above the limit are rejected and change nothing; the code of the query is the result.\<close>

definition ulong_property ::
  "('w, 'x) ndp_scheme \<Rightarrow> string \<Rightarrow> u32 \<Rightarrow> (int \<Rightarrow> Resource \<Rightarrow> Resource) \<Rightarrow> Resource \<Rightarrow> 'w \<Rightarrow> int \<times> Resource" where
  "ulong_property S name limit put r w =
     (case fsphQueryUlongProperty S name w of (rc, t) \<Rightarrow>
        if rc \<noteq> 0 then (rc, r)
        else if t > limit then (err S ERROR_INVALID_PARAMETER, r) else (rc, put (uint t) r))"

definition upd_srv :: "(smbwrp_server \<Rightarrow> smbwrp_server) \<Rightarrow> Resource \<Rightarrow> Resource" where
  "upd_srv f r = r\<lparr>srv := f (srv r)\<rparr>"

definition put_string :: "string option \<Rightarrow> (string \<Rightarrow> Resource \<Rightarrow> Resource) \<Rightarrow> Resource \<Rightarrow> Resource" where
  "put_string q put r = (case q of Some s \<Rightarrow> put (strncpy_z 255 s) r | None \<Rightarrow> r)"

text \<open>
  The stored password is used when it is there and no plain one is; otherwise the plain one is
  stored encoded. The plain one is cleared. Both go through buffers of 1024 characters.
\<close>

definition init_password ::
  "('w, 'x) ndp_scheme \<Rightarrow> bool \<Rightarrow> Resource \<Rightarrow> 'w \<Rightarrow> (Resource \<times> 'w) option" where
  "init_password S defaultPassword r w =
     (case fsphQueryStringProperty S ''SPASSWORD'' w of (rc, q, t) \<Rightarrow>
        do { stored \<leftarrow> (if rc = err S NO_ERROR then do { s \<leftarrow> q; Some (s \<noteq> [] \<and> defaultPassword) } else Some False);
             if stored
             then do { s \<leftarrow> q;
                       pw \<leftarrow> decryptPassword s;
                       require (length pw < 1024);
                       let pw = cstring_of pw;
                       if pw \<noteq> []
                       then Some (upd_srv (\<lambda>v. v\<lparr>password := strncpy_z 255 pw\<rparr>) r,
                                  fsphSetProperty S ''PASSWORD'' [] w)
                       else Some (r, w) }
             else do { let cr = encryptPassword (password (srv r));
                       require (length cr < 1024);
                       Some (r, fsphSetProperty S ''PASSWORD'' [] (fsphSetProperty S ''SPASSWORD'' cr w)) } })"

definition init_names :: "('w, 'x) ndp_scheme \<Rightarrow> Resource \<Rightarrow> 'w \<Rightarrow> (bool \<times> Resource) option" where
  "init_names S r w =
     do { q \<leftarrow> string_property S ''WORKGROUP'' w;
          let r = put_string q (\<lambda>s r. upd_srv (\<lambda>v. v\<lparr>workgroup := s\<rparr>) (r\<lparr>rootlevel := 1\<rparr>)) r;
          q \<leftarrow> string_property S ''SERVER'' w;
          let r = put_string q (\<lambda>s r. upd_srv (\<lambda>v. v\<lparr>server_name := s\<rparr>) (r\<lparr>rootlevel := 2\<rparr>)) r;
          q \<leftarrow> string_property S ''SHARE'' w;
          let r = put_string q (\<lambda>s r. upd_srv (\<lambda>v. v\<lparr>share_name := s\<rparr>) (r\<lparr>rootlevel := 3\<rparr>)) r;
          q \<leftarrow> string_property S ''USER'' w;
          let r = put_string q (\<lambda>s. upd_srv (\<lambda>v. v\<lparr>username := s\<rparr>)) r;
          q \<leftarrow> string_property S ''PASSWORD'' w;
          let r = put_string q (\<lambda>s. upd_srv (\<lambda>v. v\<lparr>password := s\<rparr>)) r;
          Some (q = None, r) }"

text \<open>Each number overwrites the code of the one before it, so only the last one is reported.\<close>

definition init_numbers :: "('w, 'x) ndp_scheme \<Rightarrow> Resource \<Rightarrow> 'w \<Rightarrow> int \<times> Resource" where
  "init_numbers S r w =
     (let (rc, r) = ulong_property S ''MASTERTYPE'' 1 (\<lambda>t. upd_srv (\<lambda>v. v\<lparr>ifmastergroup := t\<rparr>)) r w;
          (rc, r) = ulong_property S ''EASUPPORT'' 1 (\<lambda>t r. r\<lparr>easupport := t\<rparr>) r w;
          (rc, r) = ulong_property S ''KRB5SUPPORT'' 1 (\<lambda>t r. r\<lparr>krb5support := t\<rparr>) r w;
          (rc, r) = ulong_property S ''NTLMv1SUPPORT'' 1 (\<lambda>t r. r\<lparr>ntlmv1support := t\<rparr>) r w;
          (rc, r) = ulong_property S ''ENCRYPTIONSUPPORT'' 1 (\<lambda>t r. r\<lparr>encryptionsupport := t\<rparr>) r w;
          (rc, r) = ulong_property S ''CTO'' 600 (\<lambda>t r. r\<lparr>cachetimeout := t\<rparr>) r w
      in ulong_property S ''CLD'' 96 (\<lambda>t r. r\<lparr>cachedepth := t\<rparr>) r w)"

text \<open>
  The result of creating the cache is not looked at; \<open>dircache_create\<close> stores the pointer only when it
  succeeds.
\<close>

definition initResource ::
  "('w, 'x) ndp_scheme \<Rightarrow> Resource \<Rightarrow> int \<Rightarrow> dcmem \<Rightarrow> 'w \<Rightarrow> (int \<times> Resource \<times> dcmem \<times> 'w) option" where
  "initResource S r junk m w =
     do { (defaultPassword, r) \<leftarrow> init_names S (r\<lparr>rootlevel := 0, easupport := 1, krb5support := 0,
              ntlmv1support := 0, encryptionsupport := 0, pdc := None\<rparr>) w;
          (r, w) \<leftarrow> init_password S defaultPassword r w;
          q \<leftarrow> string_property S ''MASTER'' w;
          let r = put_string q (\<lambda>s. upd_srv (\<lambda>v. v\<lparr>master := s\<rparr>)) r;
          let (rc, r) = init_numbers S r w;
          (rcCache, c, m) \<leftarrow> dircache_create S m junk (word_of_int (cachetimeout r)) (cachedepth r);
          Some (rc, r\<lparr>pdc := c\<rparr>, m, w) }"

subsection \<open>Loading and mounting\<close>

text \<open>The mutex is created and the large file support noted; nothing checks the creation.\<close>

definition NdpPluginLoad :: "('w, 'x) ndp_scheme \<Rightarrow> bool \<Rightarrow> dcmem \<Rightarrow> 'w \<Rightarrow> int \<times> 'w plugin" where
  "NdpPluginLoad S large m w =
     (err S NO_ERROR, \<lparr>p_mutex = 0, p_res = Map.empty, p_con = Map.empty, p_mem = m, p_next = 0,
        p_initialised = False, p_ifL = large, p_world = w\<rparr>)"

definition smbwrp_init :: "('w, 'x) ndp_scheme \<Rightarrow> 'w plugin \<Rightarrow> int \<times> 'w plugin" where
  "smbwrp_init S p =
     (if p_initialised p then (0, p)
      else let (ok, w) = smb_start S (p_world p)
           in (if ok then 0 else 1, p\<lparr>p_initialised := True, p_world := w\<rparr>))"

definition server_zero :: smbwrp_server where
  "server_zero = \<lparr>server_name = [], share_name = [], workgroup = [], username = [], password = [],
     master = [], ifmastergroup = 0, no_pathinfo2 = 0\<rparr>"

definition resource_zero :: Resource where
  "resource_zero = \<lparr>rootlevel = 0, srv = server_zero, logfile = [], loglevel = 0, easupport = 0,
     krb5support = 0, ntlmv1support = 0, encryptionsupport = 0, cachetimeout = 0, cachedepth = 0,
     pdc = None\<rparr>"

text \<open>
  The connection is tried unless the call comes from the main thread. A resource that is refused is
  freed, its cache is not.
\<close>

definition NdpMountResource ::
  "('w, 'x) ndp_scheme \<Rightarrow> 'w plugin \<Rightarrow> int \<Rightarrow> (int \<times> ptr \<times> 'w plugin) option" where
  "NdpMountResource S p junk =
     ENTER S p (\<lambda>rc. Some (rc, None, p)) (\<lambda>p.
       let (rcInit, p) = smbwrp_init S p;
           (ok, p) = p_malloc p in
       if \<not> ok then Some (err S ERROR_NOT_ENOUGH_MEMORY, None, LEAVE p)
       else do { (rc, r, m, w) \<leftarrow> initResource S resource_zero junk (p_mem p) (p_world p);
                 let (rc, w) = (if rc = 0 \<and> gettid S w \<noteq> 1 then checkMountResource S r w else (rc, w));
                 let p = p\<lparr>p_mem := m, p_world := w\<rparr>;
                 if rc = 0
                 then Some (rc, Some (p_next p),
                        LEAVE (p\<lparr>p_res := (p_res p)(p_next p \<mapsto> r), p_next := Suc (p_next p)\<rparr>))
                 else Some (rc, None, LEAVE p) })"

definition NdpFreeResource ::
  "('w, 'x) ndp_scheme \<Rightarrow> 'w plugin \<Rightarrow> nat \<Rightarrow> (int \<times> 'w plugin) option" where
  "NdpFreeResource S p h =
     ENTER S p (\<lambda>rc. Some (rc, p)) (\<lambda>p.
       do { r \<leftarrow> p_res p h;
            m \<leftarrow> dircache_delete (p_mem p) (pdc r);
            Some (err S NO_ERROR, LEAVE (p\<lparr>p_res := (p_res p)(h := None), p_mem := m\<rparr>)) })"

subsection \<open>Questions about a resource\<close>

definition ND_RSRC_EQUAL :: int where "ND_RSRC_EQUAL = 0"
definition ND_RSRC_DIFFERENT :: int where "ND_RSRC_DIFFERENT = 1"

definition NdpRsrcCompare :: "('w, 'x) ndp_scheme \<Rightarrow> 'w plugin \<Rightarrow> nat \<Rightarrow> nat \<Rightarrow> int option" where
  "NdpRsrcCompare S p h h2 =
     do { r \<leftarrow> p_res p h; r2 \<leftarrow> p_res p h2;
          Some (if fsphStrICmp S (server_name (srv r)) (server_name (srv r2)) = 0 \<and>
                   fsphStrICmp S (share_name (srv r)) (share_name (srv r2)) = 0 \<and>
                   fsphStrICmp S (username (srv r)) (username (srv r2)) = 0 \<and>
                   fsphStrICmp S (workgroup (srv r)) (workgroup (srv r2)) = 0
                then ND_RSRC_EQUAL else ND_RSRC_DIFFERENT) }"

text \<open>The description is formatted into an array of 4096 characters.\<close>

definition rsrc_info :: "('w, 'x) ndp_scheme \<Rightarrow> bool \<Rightarrow> Resource \<Rightarrow> string" where
  "rsrc_info S large r =
     (let bits = (if large then ''64'' else ''32'');
          s = srv r;
          colon = (if workgroup s \<noteq> [] then '':'' else []);
          bs = [backslash, backslash]
      in if rootlevel r = 0
         then fsph_snprintf S 4095 (''SMBFS%s '' @ bs @ ''@%s'') [bits, username s]
         else if rootlevel r = 1
         then fsph_snprintf S 4095 (''SMBFS%s %s: '' @ bs @ ''@%s'') [bits, workgroup s, username s]
         else if rootlevel r = 2
         then fsph_snprintf S 4095 (''SMBFS%s '' @ bs @ ''%s%s%s@%s'')
                [bits, workgroup s, colon, server_name s, username s]
         else fsph_snprintf S 4095 (''SMBFS%s '' @ bs @ ''%s%s%s'' @ backslash # ''%s@%s'')
                [bits, workgroup s, colon, server_name s, share_name s, username s])"

text \<open>The result: the code, the length with the NUL, and the bytes copied to the caller, if they fit.\<close>

definition NdpRsrcQueryInfo ::
  "('w, 'x) ndp_scheme \<Rightarrow> 'w plugin \<Rightarrow> nat \<Rightarrow> nat \<Rightarrow> (int \<times> nat \<times> string option) option" where
  "NdpRsrcQueryInfo S p h insize =
     do { r \<leftarrow> p_res p h;
          let s = rsrc_info S (p_ifL p) r;
          let outlen = length s + 1;
          Some (if outlen > insize then (err S ERROR_BUFFER_OVERFLOW, outlen, None)
                else (err S NO_ERROR, outlen, Some (s @ [NUL]))) }"

definition NdpRsrcQueryFSAttach ::
  "('w, 'x) ndp_scheme \<Rightarrow> 'w plugin \<Rightarrow> nat \<Rightarrow> nat \<Rightarrow> (int \<times> nat \<times> string option) option" where
  "NdpRsrcQueryFSAttach S p h insize = NdpRsrcQueryInfo S p h insize"

definition fsa_unknown :: FSALLOCATE where
  "fsa_unknown = \<lparr>cSectorUnit = 1, cUnit = 123456, cUnitAvail = 123456, cbSector = 2048\<rparr>"

text \<open>A connection of its own is opened for the question and closed again.\<close>

definition NdpRsrcQueryFSAllocate ::
  "('w, 'x) ndp_scheme \<Rightarrow> 'w plugin \<Rightarrow> nat \<Rightarrow> FSALLOCATE option \<Rightarrow> (int \<times> FSALLOCATE option \<times> 'w plugin) option" where
  "NdpRsrcQueryFSAllocate S p h pfsa =
     ENTER S p (\<lambda>rc. Some (rc, pfsa, p)) (\<lambda>p.
       case pfsa of None \<Rightarrow> Some (err S NO_ERROR, None, LEAVE p)
       | Some fsa \<Rightarrow>
           do { r \<leftarrow> p_res p h;
                let (rc, cl, w) = smbwrp_connect S r None (p_world p);
                if rc \<noteq> 0
                then Some (err S (if rc = 7 then ERROR_BAD_DEV_TYPE else ERROR_ACCESS_DENIED),
                           Some fsa_unknown, LEAVE (p\<lparr>p_world := w\<rparr>))
                else let (rc, fsa', w) = smbwrp_dskattr S cl fsa w;
                         w = smbwrp_disconnect S cl w
                     in Some (rc, Some (if rc \<noteq> 0 then fsa_unknown else fsa'), LEAVE (p\<lparr>p_world := w\<rparr>)) })"

subsection \<open>Connections\<close>

definition file_zero :: smbwrp_file where
  "file_zero = \<lparr>f_fd = 0, f_offset = 0, f_openmode = 0, f_openattr = 0, f_denymode = 0, f_btime = 0,
     f_mtime = 0, f_atime = 0, f_ctime = 0, f_updatetime = 0, f_fullname = [], f_fname = []\<rparr>"

definition NdpCreateConnection ::
  "('w, 'x) ndp_scheme \<Rightarrow> 'w plugin \<Rightarrow> nat \<Rightarrow> (int \<times> ptr \<times> 'w plugin) option" where
  "NdpCreateConnection S p h =
     ENTER S p (\<lambda>rc. Some (rc, None, p)) (\<lambda>p.
       let (ok, p) = p_malloc p in
       if \<not> ok then Some (err S ERROR_NOT_ENOUGH_MEMORY, None, LEAVE p)
       else do { r \<leftarrow> p_res p h;
                 let (rc, cl, w) = smbwrp_connect S r None (p_world p);
                 let p = p\<lparr>p_world := w\<rparr>;
                 if rc \<noteq> 0
                 then Some (err S (if rc = 7 then ERROR_BAD_DEV_TYPE else ERROR_INVALID_PARAMETER), None, LEAVE p)
                 else Some (rc, Some (p_next p),
                        LEAVE (p\<lparr>p_con := (p_con p)(p_next p \<mapsto>
                                   \<lparr>pRes = h, cli = cl, cfile = file_zero\<lparr>f_fd := -1\<rparr>\<rparr>),
                                 p_next := Suc (p_next p)\<rparr>)) })"

definition NdpFreeConnection ::
  "('w, 'x) ndp_scheme \<Rightarrow> 'w plugin \<Rightarrow> nat \<Rightarrow> (int \<times> 'w plugin) option" where
  "NdpFreeConnection S p h =
     do { c \<leftarrow> p_con p h;
          ENTER S p (\<lambda>rc. Some (rc, p)) (\<lambda>p.
            let w = (if f_fd (cfile c) \<ge> 0 then snd (snd (smbwrp_close S (cli c) (cfile c) (p_world p)))
                     else p_world p)
            in Some (err S NO_ERROR, LEAVE (p\<lparr>p_con := (p_con p)(h := None),
                                             p_world := smbwrp_disconnect S (cli c) w\<rparr>))) }"

end
