(* ===== verification/Listing.thy ===== *)
theory Listing
  imports Findinfo
begin

text \<open>
  Directory listings (\<open>smbwrp.c\<close>): the callback that collects the entries, the listing of a directory
  of a share over SMB 2 and over SMB 1, both through the directory cache, and \<open>smbwrp_filelist\<close>,
  which also lists workgroups, servers and shares.
\<close>

subsection \<open>The collecting callback\<close>

text \<open>
  The state the callbacks share. \<open>fs_share\<close> and \<open>fs_pdc\<close> are what the code reads through
  \<open>pConn->pRes\<close>, the name of the share and the cache.
\<close>

record filelist_state =
  fs_mask :: string
  fs_dir :: string
  fs_dir_mask :: string
  fs_finfo :: smbwrp_fileinfo
  fs_share :: string
  fs_pdc :: ptr
  fs_plist :: plist
  fs_ulAttribute :: u32
  fs_fullpath :: string

text \<open>The full name is put together in a zeroed array of 260 characters.\<close>

definition smbwrp_dir_add ::
  "('w, 'x) ndp_scheme \<Rightarrow> smbwrp_fileinfo \<Rightarrow> filelist_state \<Rightarrow> (u32 \<times> filelist_state) option" where
  "smbwrp_dir_add S finfo st =
     do { require (length (fs_dir st) < 260);
          let f = finfo\<lparr>fi_fname := fs_dir st @ take (260 - length (fs_dir st) - 1) (fi_fname finfo)\<rparr>;
          let (n, plist) = getfindinfoL S (fs_share st) (fs_plist st) f (fs_ulAttribute st)
                             (Some (fs_dir_mask st));
          Some (no_return S n, st\<lparr>fs_finfo := f, fs_plist := plist\<rparr>) }"

fun dir_adds :: "('w, 'x) ndp_scheme \<Rightarrow> smbwrp_fileinfo list \<Rightarrow> filelist_state \<Rightarrow> filelist_state option" where
  "dir_adds S [] st = Some st"
| "dir_adds S (f # fs) st = do { (r, st) \<leftarrow> smbwrp_dir_add S f st; dir_adds S fs st }"

definition smbwrp_special_add ::
  "('w, 'x) ndp_scheme \<Rightarrow> string \<Rightarrow> filelist_state \<Rightarrow> filelist_state option" where
  "smbwrp_special_add S name st =
     do { (r, st) \<leftarrow> smbwrp_dir_add S
            (fileinfo0\<lparr>fi_fname := strncpy_z 260 name, fi_attr := aRONLY OR aDIR\<rparr>) st;
          Some st }"

definition smbwrp_share_add ::
  "('w, 'x) ndp_scheme \<Rightarrow> string \<times> u32 \<Rightarrow> filelist_state \<Rightarrow> filelist_state option" where
  "smbwrp_share_add S sh st = (case sh of (share, type) \<Rightarrow>
     if type = STYPE_PRINTQ S \<or> share = ''IPC$'' then Some st
     else do { (r, st) \<leftarrow> smbwrp_dir_add S
                 (fileinfo0\<lparr>fi_fname := strncpy_z 260 share, fi_attr := aRONLY OR aDIR\<rparr>) st;
               Some st })"

text \<open>
  A print job, of which only disabled code asks the server. The other times are assigned to themselves.
\<close>

record print_job_info =
  job_name :: string
  job_size :: u32
  job_t :: u32

definition smbwrp_printjob_add ::
  "('w, 'x) ndp_scheme \<Rightarrow> print_job_info \<Rightarrow> filelist_state \<Rightarrow> filelist_state option" where
  "smbwrp_printjob_add S job st =
     do { (r, st) \<leftarrow> smbwrp_dir_add S
            (fileinfo0\<lparr>fi_fname := strncpy_z 260 (job_name job), fi_mtime := job_t job - get_time_zone S (job_t job),
               fi_attr := aRONLY, fi_size := ucast (job_size job)\<rparr>) st;
          Some st }"

fun share_adds :: "('w, 'x) ndp_scheme \<Rightarrow> (string \<times> u32) list \<Rightarrow> filelist_state \<Rightarrow> filelist_state option" where
  "share_adds S [] st = Some st"
| "share_adds S (sh # shs) st = do { st \<leftarrow> smbwrp_share_add S sh st; share_adds S shs st }"

subsection \<open>Listings over SMB 2\<close>

text \<open>The element of the server as an element of the plugin.\<close>

definition wrp_info :: "('w, 'x) ndp_scheme \<Rightarrow> file_info \<Rightarrow> smbwrp_fileinfo" where
  "wrp_info S fi =
     \<lparr>fi_size = s_size fi, fi_attr = s_mode fi,
      fi_btime = convert_timespec_to_time_t S (s_btime fi),
      fi_mtime = convert_timespec_to_time_t S (s_mtime fi),
      fi_atime = convert_timespec_to_time_t S (s_atime fi),
      fi_ctime = convert_timespec_to_time_t S (s_ctime fi),
      fi_easize = -1, fi_fname = strncpy_z 260 (s_name fi)\<rparr>"

text \<open>How a loop ends: at the label \<open>fail\<close>, or behind the loop; both with a status.\<close>

datatype smb2_exit = GotoFail u32 | LoopDone u32

text \<open>
  The elements of one answer. An element is allocated, parsed, given to the callback and to the cache
  entry that is being written; a status the callback leaves ends the loop, unless it is
  \<open>NT_STATUS_WAIT_1\<close>. An offset beyond the answer is undefined.
\<close>

function smb2_entries ::
  "('w, 'x) ndp_scheme \<Rightarrow> ptr \<Rightarrow> u32 \<Rightarrow> string \<Rightarrow> bool \<Rightarrow> filelist_state \<Rightarrow> dcmem \<Rightarrow>
     (smb2_exit \<times> bool \<times> filelist_state \<times> dcmem) option" where
  "smb2_entries S ctx attribute buf processed st m =
     (let (ok, m) = malloc m in
      if \<not> ok then Some (GotoFail (NT_STATUS_NO_MEMORY S), processed, st, m)
      else
        let (status, fi, next_offset) = parse_finfo S buf in
        if \<not> NT_STATUS_IS_OK status then Some (GotoFail status, processed, st, m)
        else do {
          (status, processed, st, m) \<leftarrow>
            (if dir_check_ftype S (s_mode fi) attribute
             then do { (status, st) \<leftarrow> smbwrp_dir_add S (wrp_info S fi) st;
                       m \<leftarrow> dircache_write_entry S m ctx (wrp_info S fi);
                       Some (if status = NT_STATUS_WAIT_1 S then 0 else status, True, st, m) }
             else Some (status, processed, st, m));
          if \<not> NT_STATUS_IS_OK status then Some (LoopDone status, processed, st, m)
          else if next_offset = 0 then Some (LoopDone status, processed, st, m)
          else if length buf < next_offset then None
          else smb2_entries S ctx attribute (drop next_offset buf) processed st m })"
  by pat_completeness auto
termination
  by (relation "measure (\<lambda>(S, ctx, attribute, buf, processed, st, m). length buf)") auto

declare smb2_entries.simps [simp del]

text \<open>The answers of the server, until it has no more files. A server may go on for ever.\<close>

partial_function (option) smb2_answers ::
  "('w, 'x) ndp_scheme \<Rightarrow> nat \<Rightarrow> nat \<Rightarrow> ptr \<Rightarrow> string \<Rightarrow> u32 \<Rightarrow> u32 \<Rightarrow> bool \<Rightarrow> filelist_state \<Rightarrow> dcmem \<Rightarrow> 'w \<Rightarrow>
     (smb2_exit \<times> bool \<times> filelist_state \<times> dcmem \<times> 'w) option" where
  "smb2_answers S c hnd ctx msk max_trans attribute processed st m w =
     (let (status, data, w) = smb2cli_query_directory S c hnd msk max_trans w in
      if \<not> NT_STATUS_IS_OK status
      then Some (if status = STATUS_NO_MORE_FILES S then LoopDone status else GotoFail status,
                 processed, st, m, w)
      else do {
        (ex, processed, st, m) \<leftarrow> smb2_entries S ctx attribute data processed st m;
        case ex of
          GotoFail status \<Rightarrow> Some (GotoFail status, processed, st, m, w)
        | LoopDone status \<Rightarrow>
            if \<not> ms_has_wild S msk then Some (LoopDone (STATUS_NO_MORE_FILES S), processed, st, m, w)
            else if NT_STATUS_IS_OK status
            then smb2_answers S c hnd ctx msk max_trans attribute processed st m w
            else Some (LoopDone status, processed, st, m, w) })"

text \<open>
  At the label \<open>fail\<close> the handle of the directory is closed, if one was opened; the cache entry is
  finished only on the way that does not jump there.
\<close>

definition smb2_fail ::
  "('w, 'x) ndp_scheme \<Rightarrow> nat \<Rightarrow> u16 \<Rightarrow> u32 \<Rightarrow> filelist_state \<Rightarrow> dcmem \<Rightarrow> 'w \<Rightarrow>
     (u32 \<times> filelist_state \<times> dcmem \<times> 'w)" where
  "smb2_fail S c fn status st m w =
     (status, st, m, if fn \<noteq> 0xffff then cli_smb2_close_fnum S c fn w else w)"

definition smb2_end_status :: "('w, 'x) ndp_scheme \<Rightarrow> bool \<Rightarrow> u32 \<Rightarrow> u32" where
  "smb2_end_status S processed status =
     (let status = (if status = STATUS_NO_MORE_FILES S then 0 else status)
      in if NT_STATUS_IS_OK status \<and> \<not> processed then NT_STATUS_NO_SUCH_FILE S else status)"

definition list_files_smb2 ::
  "('w, 'x) ndp_scheme \<Rightarrow> u32 \<Rightarrow> nat \<Rightarrow> string \<Rightarrow> u32 \<Rightarrow> filelist_state \<Rightarrow> dcmem \<Rightarrow> 'w \<Rightarrow>
     (u32 \<times> filelist_state \<times> dcmem \<times> 'w) option" where
  "list_files_smb2 S timesec c pathname attribute st m w =
     do { (ctx, m) \<leftarrow> dircache_write_begin S timesec m (fs_pdc st) (fs_fullpath st) (fs_dir_mask st) 128;
          if cli_has_async_calls S c w
          then Some (smb2_fail S c 0xffff (NT_STATUS_INVALID_PARAMETER S) st m w)
          else if smbXcli_conn_protocol S c w < PROTOCOL_SMB2_02 S
          then Some (smb2_fail S c 0xffff (NT_STATUS_INVALID_PARAMETER S) st m w)
          else (case windows_parent_dirname S pathname of
            None \<Rightarrow> Some (smb2_fail S c 0xffff (NT_STATUS_NO_MEMORY S) st m w)
          | Some (parent_dir, msk) \<Rightarrow>
              let (status, fn, w) = cli_smb2_create_fnum S c parent_dir w in
              if \<not> NT_STATUS_IS_OK status then Some (smb2_fail S c fn status st m w)
              else let (status, hnd) = map_fnum_to_smb2_handle S c fn w in
              if \<not> NT_STATUS_IS_OK status then Some (smb2_fail S c fn status st m w)
              else
                let max_trans = (case smb2cli_req_possible S c w of
                                   Some avail \<Rightarrow> min (smb2cli_max_trans S c w) avail
                                 | None \<Rightarrow> smb2cli_max_trans S c w)
                in do { (ex, processed, st, m, w) \<leftarrow>
                          smb2_answers S c hnd ctx msk max_trans attribute False st m w;
                        case ex of
                          GotoFail status \<Rightarrow> Some (smb2_fail S c fn status st m w)
                        | LoopDone status \<Rightarrow>
                            do { m \<leftarrow> dircache_write_end S m ctx;
                                 Some (smb2_fail S c fn (smb2_end_status S processed status) st m w) } }) }"

subsection \<open>Listings through the cache\<close>

text \<open>
  \<open>list_files\<close> returns a count, or the status of the SMB 2 listing as an \<open>int\<close>; after a failure over
  SMB 1 it returns the value that happens to be in the unset variable (\<open>junk\<close>), and the cast of the
  count to \<open>int\<close> keeps its 32 bits. The result of the callback is not looked at.
\<close>

fun dircache_write_infos ::
  "('w, 'x) ndp_scheme \<Rightarrow> ptr \<Rightarrow> smbwrp_fileinfo list \<Rightarrow> filelist_state \<Rightarrow> dcmem \<Rightarrow> (filelist_state \<times> dcmem) option" where
  "dircache_write_infos S ctx [] st m = Some (st, m)"
| "dircache_write_infos S ctx (f # fs) st m =
     do { (r, st) \<leftarrow> smbwrp_dir_add S f st;
          m \<leftarrow> dircache_write_entry S m ctx f;
          dircache_write_infos S ctx fs st m }"

definition list_files ::
  "('w, 'x) ndp_scheme \<Rightarrow> u32 \<Rightarrow> u32 \<Rightarrow> nat \<Rightarrow> string \<Rightarrow> u16 \<Rightarrow> filelist_state \<Rightarrow> dcmem \<Rightarrow> 'w \<Rightarrow>
     (int \<times> filelist_state \<times> dcmem \<times> 'w) option" where
  "list_files S timesec junk c msk attribute st m w =
     do { (found, infos, ptotal, m) \<leftarrow>
            dircache_list_files S timesec m (fs_pdc st) (fs_fullpath st) (fs_dir_mask st);
          st \<leftarrow> dir_adds S infos st;
          if found then Some (case ptotal of Some n \<Rightarrow> n | None \<Rightarrow> sint junk, st, m, w)
          else if PROTOCOL_SMB2_02 S \<le> smbXcli_conn_protocol S c w
          then do { (status, st, m, w) \<leftarrow> list_files_smb2 S timesec c msk (ucast attribute) st m w;
                    Some (status_int status, st, m, w) }
          else if cli_has_async_calls S c w then Some (sint junk, st, m, w)
          else (case cli_list S c msk attribute w of
              (None, w) \<Rightarrow> Some (sint junk, st, m, w)
            | (Some fis, w) \<Rightarrow>
                do { (ctx, m) \<leftarrow> dircache_write_begin S timesec m (fs_pdc st) (fs_fullpath st)
                                   (fs_dir_mask st) (sint (word_of_nat (length fis) :: u32));
                     (st, m) \<leftarrow> dircache_write_infos S ctx (map (wrp_info S) fis) st m;
                     m \<leftarrow> dircache_write_end S m ctx;
                     Some (sint (word_of_nat (length fis) :: u32), st, m, w) }) }"

text \<open>
  The listing of the place a path names: all workgroups, the servers of a workgroup, the shares of a
  server, or a directory of a share.
\<close>

definition dots :: "('w, 'x) ndp_scheme \<Rightarrow> filelist_state \<Rightarrow> filelist_state option" where
  "dots S st = do { st \<leftarrow> smbwrp_special_add S ''.'' st; smbwrp_special_add S ''..'' st }"

definition smbwrp_filelist ::
  "('w, 'x) ndp_scheme \<Rightarrow> u32 \<Rightarrow> u32 \<Rightarrow> smbwrp_server \<Rightarrow> ptr \<Rightarrow> filelist_state \<Rightarrow> dcmem \<Rightarrow> 'w \<Rightarrow>
     (int \<times> filelist_state \<times> dcmem \<times> 'w) option" where
  "smbwrp_filelist S timesec junk sv cl st m w =
     (case cl of None \<Rightarrow> Some (maperror (err S) EINVAL, st, m, w)
      | Some c \<Rightarrow>
          if fs_mask st = [] then Some (maperror (err S) EINVAL, st, m, w)
          else if workgroup sv = [] \<and> server_name sv = []
          then do { st \<leftarrow> dots S st;
                    let (shs, w) = cli_NetServerEnum S c (master sv) (SV_TYPE_DOMAIN_ENUM S) w;
                    st \<leftarrow> share_adds S shs st;
                    Some (0, st, m, w) }
          else if server_name sv = []
          then do { st \<leftarrow> dots S st;
                    let (shs, w) = cli_NetServerEnum S c (workgroup sv) (SV_TYPE_ALL S) w;
                    st \<leftarrow> share_adds S shs st;
                    Some (0, st, m, w) }
          else if not_a_share sv
          then do { st \<leftarrow> dots S st;
                    let (n, shs, w) = net_share_enum_rpc S c w;
                    st \<leftarrow> share_adds S shs st;
                    if n < 0
                    then do { let (n, shs, w) = cli_RNetShareEnum S c w;
                              st \<leftarrow> share_adds S shs st;
                              Some (if n < 0 then os2cli_errno S c w else 0, st, m, w) }
                    else Some (0, st, m, w) }
          else do { (n, st, m, w) \<leftarrow>
                      list_files S timesec junk c (fs_mask st) (ucast (aHIDDEN OR aSYSTEM OR aDIR)) st m w;
                    Some (if n < 0 then os2cli_errno S c w else 0, st, m, w) })"

end
