(* ===== verification/Plugin_Query.thy ===== *)
theory Plugin_Query
  imports Plugin Listing
begin

text \<open>
  \<open>NdpQueryPathInfo\<close> and \<open>NdpFindStart\<close> (\<open>ndpsmb.c\<close>): the two entry points that use the directory
  cache, the path parser, the connection and the listings together. Both test the connection with an
  echo and connect again when it is lost, and both have a \<open>return\<close> that does not release the mutex;
  the last component of a result here says whether the function was left that way.
\<close>

subsection \<open>The connection of a handle\<close>

definition echo_on :: "('w, 'x) ndp_scheme \<Rightarrow> 'w plugin \<Rightarrow> nat \<Rightarrow> (int \<times> 'w plugin) option" where
  "echo_on S p h = on_cli p h (smbwrp_echo S)"

text \<open>The new connection takes the place of the old one, which nothing closes.\<close>

definition connect_on :: "('w, 'x) ndp_scheme \<Rightarrow> 'w plugin \<Rightarrow> nat \<Rightarrow> (int \<times> 'w plugin) option" where
  "connect_on S p h =
     do { (c, r) \<leftarrow> conn_of p h;
          let (rc, cl, w) = smbwrp_connect S r (cli c) (p_world p);
          Some (rc, p\<lparr>p_con := (p_con p)(h \<mapsto> c\<lparr>cli := cl\<rparr>), p_world := w\<rparr>) }"

text \<open>The pointer stays in the connection.\<close>

definition disconnect_on :: "('w, 'x) ndp_scheme \<Rightarrow> 'w plugin \<Rightarrow> nat \<Rightarrow> 'w plugin option" where
  "disconnect_on S p h =
     do { c \<leftarrow> p_con p h; Some (p\<lparr>p_world := smbwrp_disconnect S (cli c) (p_world p)\<rparr>) }"

definition getattr_on ::
  "('w, 'x) ndp_scheme \<Rightarrow> 'w plugin \<Rightarrow> nat \<Rightarrow> smbwrp_fileinfo \<Rightarrow> (int \<times> smbwrp_fileinfo \<times> 'w plugin) option" where
  "getattr_on S p h finfo =
     do { (c, r) \<leftarrow> conn_of p h;
          let (rc, finfo, w) = smbwrp_getattr S (srv r) (cli c) finfo (p_world p);
          Some (rc, finfo, p\<lparr>p_world := w\<rparr>) }"

subsection \<open>Information about a path\<close>

text \<open>Codes that are not in the list are replaced by \<open>ERROR_PATH_NOT_FOUND\<close>.\<close>

definition pass_rc :: "('w, 'x) ndp_scheme \<Rightarrow> os2err list \<Rightarrow> int \<Rightarrow> int" where
  "pass_rc S codes rc =
     (if list_ex (\<lambda>e. rc = err S e) codes then rc else err S ERROR_PATH_NOT_FOUND)"

definition parse_codes :: "os2err list" where
  "parse_codes = [NO_ERROR, ERROR_FILE_NOT_FOUND, ERROR_PATH_NOT_FOUND, ERROR_ACCESS_DENIED,
     ERROR_INVALID_PARAMETER]"

definition attr_codes :: "os2err list" where
  "attr_codes = [NO_ERROR, ERROR_FILE_NOT_FOUND, ERROR_PATH_NOT_FOUND, ERROR_ACCESS_DENIED,
     ERROR_INVALID_PARAMETER, ERROR_REM_NOT_LIST]"

definition FILE_DIRECTORY :: u32 where "FILE_DIRECTORY = 0x10"

text \<open>The attributes, asked for again over a new connection if the server was not available.\<close>

definition query_attr ::
  "('w, 'x) ndp_scheme \<Rightarrow> 'w plugin \<Rightarrow> nat \<Rightarrow> smbwrp_fileinfo \<Rightarrow> (int \<times> smbwrp_fileinfo \<times> 'w plugin) option" where
  "query_attr S p h finfo =
     do { (rc, finfo, p) \<leftarrow> getattr_on S p h finfo;
          if rc \<noteq> 0
          then do { (rc, finfo, p) \<leftarrow>
                      (if rc = err S ERROR_REM_NOT_LIST
                       then do { p \<leftarrow> disconnect_on S p h;
                                 (rcCon, p) \<leftarrow> connect_on S p h;
                                 if rcCon = err S NO_ERROR then getattr_on S p h finfo
                                 else Some (rc, finfo, p) }
                       else Some (rc, finfo, p));
                    Some (pass_rc S attr_codes rc, finfo, p) }
          else Some (rc, finfo, p) }"

text \<open>A file that is not found: does its directory exist?\<close>

definition query_parent ::
  "('w, 'x) ndp_scheme \<Rightarrow> 'w plugin \<Rightarrow> nat \<Rightarrow> smbwrp_fileinfo \<Rightarrow> (int \<times> 'w plugin) option" where
  "query_parent S p h finfo =
     (case fsphStrRChr S (fi_fname finfo) backslash of
        Some (Suc i) \<Rightarrow>
          do { (rc, finfo, p) \<leftarrow> getattr_on S p h (finfo\<lparr>fi_fname := take (Suc i) (fi_fname finfo)\<rparr>);
               Some (if rc = err S NO_ERROR
                     then if fi_attr finfo AND FILE_DIRECTORY \<noteq> 0 then err S ERROR_FILE_NOT_FOUND
                          else err S ERROR_PATH_NOT_FOUND
                     else if rc \<noteq> err S ERROR_REM_NOT_LIST then err S ERROR_PATH_NOT_FOUND else rc, p) }
      | _ \<Rightarrow> Some (err S ERROR_FILE_NOT_FOUND, p))"

text \<open>
  The path is on the share: \<open>finfo\<close> is the local structure, with the rest of what a stale hit in the
  cache left there, or unset. A name of 260 characters would not be terminated.
\<close>

definition query_server ::
  "('w, 'x) ndp_scheme \<Rightarrow> 'w plugin \<Rightarrow> nat \<Rightarrow> smbwrp_fileinfo \<Rightarrow> string \<Rightarrow> plist \<Rightarrow>
     (int \<times> plist \<times> 'w plugin \<times> bool) option" where
  "query_server S p h finfo path plist =
     do { require (length path < 260);
          let finfo = finfo\<lparr>fi_fname := path\<rparr>;
          (rc, p) \<leftarrow> echo_on S p h;
          (rcCon, p) \<leftarrow> (if rc \<noteq> 0 then connect_on S p h else Some (0, p));
          if rcCon \<noteq> 0 then Some (err S ERROR_PATH_NOT_FOUND, plist, p, True)
          else do {
            (rc, finfo, p) \<leftarrow> query_attr S p h finfo;
            if rc = err S NO_ERROR
            then do { (c, r) \<leftarrow> conn_of p h;
                      Some (rc, snd (getfindinfoL S (share_name (srv r)) plist
                                       (finfo\<lparr>fi_easize := -1\<rparr>) 0 None), p, False) }
            else if rc = err S ERROR_FILE_NOT_FOUND
            then do { (rc, p) \<leftarrow> query_parent S p h finfo; Some (rc, plist, p, False) }
            else Some (rc, plist, p, False) } }"

definition query_body ::
  "('w, 'x) ndp_scheme \<Rightarrow> u32 \<Rightarrow> 'w plugin \<Rightarrow> nat \<Rightarrow> smbwrp_fileinfo \<Rightarrow> plist \<Rightarrow> string \<Rightarrow>
     (int \<times> plist \<times> 'w plugin \<times> bool) option" where
  "query_body S timesec p h junk plist szPath =
     do { (c, r) \<leftarrow> conn_of p h;
          (hit, m) \<leftarrow> dircache_find_path S timesec (p_mem p) (pdc r) szPath;
          let p = p\<lparr>p_mem := m\<rparr>;
          case hit of
            Some (finfo, ulAge) \<Rightarrow>
              if ulAge \<le> 15
              then Some (err S NO_ERROR,
                snd (getfindinfoL S (share_name (srv r)) plist (finfo\<lparr>fi_easize := -1\<rparr>) 0 None), p, False)
              else do { (rc, path, p) \<leftarrow> parse_path S p h szPath;
                        let rc = pass_rc S parse_codes rc;
                        if rc \<noteq> 0 then Some (rc, plist, p, False)
                        else query_server S p h finfo path plist }
          | None \<Rightarrow>
              do { (rc, path, p) \<leftarrow> parse_path S p h szPath;
                   let rc = pass_rc S parse_codes rc;
                   if rc \<noteq> 0 then Some (rc, plist, p, False)
                   else query_server S p h junk path plist } }"

definition leave_unless :: "int \<times> plist \<times> 'w plugin \<times> bool \<Rightarrow> int \<times> plist \<times> 'w plugin" where
  "leave_unless x = (case x of (rc, plist, p, early) \<Rightarrow> (rc, plist, if early then p else LEAVE p))"

definition NdpQueryPathInfo ::
  "('w, 'x) ndp_scheme \<Rightarrow> u32 \<Rightarrow> 'w plugin \<Rightarrow> nat \<Rightarrow> smbwrp_fileinfo \<Rightarrow> plist \<Rightarrow> string \<Rightarrow>
     (int \<times> plist \<times> 'w plugin) option" where
  "NdpQueryPathInfo S timesec p h junk plist szPath =
     ENTER S p (\<lambda>rc. Some (rc, plist, p)) (\<lambda>p.
       if fsphStrChr S szPath CHR ''*'' \<noteq> None \<or> fsphStrChr S szPath CHR ''?'' \<noteq> None
       then Some (err S ERROR_FILE_NOT_FOUND, plist, LEAVE p)
       else map_option leave_unless (query_body S timesec p h junk plist szPath))"

subsection \<open>Listing a directory\<close>

text \<open>
  The directory of the request: the path without the last element, if NetDrive names one, and
  without a trailing backslash. The last character of an empty directory is not in the array.
\<close>

definition find_dir :: "(nat \<times> string) option \<Rightarrow> string \<Rightarrow> (string \<times> string) option" where
  "find_dir pel szPath =
     do { let dir = strncpy_z 260 szPath;
          (msk, dir) \<leftarrow> (case pel of None \<Rightarrow> Some (''*'', dir)
             | Some (len, name) \<Rightarrow>
                 do { require (len \<le> length szPath \<and> length szPath - len \<le> 260);
                      Some (name, take (length szPath - len) dir) });
          require (dir \<noteq> []);
          Some (msk, if last dir = backslash then butlast dir else dir) }"

text \<open>
  The state of the listing: \<open>path\<close> and \<open>dir\<close> are arrays of 261 characters, those of the state have
  260. The mask that is sent to the server is the directory with a star.
\<close>

definition find_state ::
  "string \<Rightarrow> string \<Rightarrow> (string \<times> string) option" where
  "find_state path msk =
     do { let dir = (if last path \<noteq> backslash then path @ [backslash] else path);
          require (length dir < 261);
          let full = dir @ take 260 msk;
          require (length full < 261);
          require (length dir < 260 \<and> length msk < 260 \<and> length full < 260);
          case getlastslash (Some full) of
            Some i \<Rightarrow> do { require (i + 2 < 260); Some (dir, take (i + 1) full @ ''*'') }
          | None \<Rightarrow> Some (dir, backslash # ''*'') }"

definition filelist_on ::
  "('w, 'x) ndp_scheme \<Rightarrow> u32 \<Rightarrow> u32 \<Rightarrow> 'w plugin \<Rightarrow> nat \<Rightarrow> filelist_state \<Rightarrow> (int \<times> filelist_state \<times> 'w plugin) option" where
  "filelist_on S timesec junk p h st =
     do { (c, r) \<leftarrow> conn_of p h;
          (rc, st, m, w) \<leftarrow> smbwrp_filelist S timesec junk (srv r) (cli c)
             (st\<lparr>fs_share := share_name (srv r), fs_pdc := pdc r\<rparr>) (p_mem p) (p_world p);
          Some (rc, st, p\<lparr>p_mem := m, p_world := w\<rparr>) }"

definition find_body ::
  "('w, 'x) ndp_scheme \<Rightarrow> u32 \<Rightarrow> 'w plugin \<Rightarrow> nat \<Rightarrow> smbwrp_fileinfo \<Rightarrow> u32 \<Rightarrow> plist \<Rightarrow> string \<Rightarrow> u32 \<Rightarrow>
     (int \<times> plist \<times> 'w plugin \<times> bool) option" where
  "find_body S timesec p h junk junkcount plist szPath ulAttribute =
     do { (msk, dir) \<leftarrow> find_dir (fsphNameElem S (p_world p)) szPath;
          (rc, path, p) \<leftarrow> parse_path S p h dir;
          if rc \<noteq> 0 then Some (rc, plist, p, True)
          else do {
            (dir, full) \<leftarrow> find_state path msk;
            let st = \<lparr>fs_mask = full, fs_dir = dir, fs_dir_mask = msk, fs_finfo = junk, fs_share = [],
                      fs_pdc = None, fs_plist = plist, fs_ulAttribute = ulAttribute,
                      fs_fullpath = szPath\<rparr>;
            (rc, p) \<leftarrow> echo_on S p h;
            (rcCon, p) \<leftarrow> (if rc \<noteq> 0 then connect_on S p h else Some (0, p));
            if rcCon \<noteq> 0 then Some (err S ERROR_PATH_NOT_FOUND, plist, p, True)
            else do {
              (rc, st, p) \<leftarrow> filelist_on S timesec junkcount p h st;
              (rc, st, p) \<leftarrow>
                (if rc = err S ERROR_REM_NOT_LIST
                 then do { p \<leftarrow> disconnect_on S p h;
                           (rcCon, p) \<leftarrow> connect_on S p h;
                           filelist_on S timesec junkcount p h st }
                 else Some (rc, st, p));
              Some (rc, fs_plist st, p, False) } } }"

definition NdpFindStart ::
  "('w, 'x) ndp_scheme \<Rightarrow> u32 \<Rightarrow> 'w plugin \<Rightarrow> nat \<Rightarrow> smbwrp_fileinfo \<Rightarrow> u32 \<Rightarrow> plist \<Rightarrow> string \<Rightarrow> u32 \<Rightarrow>
     (int \<times> plist \<times> 'w plugin) option" where
  "NdpFindStart S timesec p h junk junkcount plist szPath ulAttribute =
     ENTER S p (\<lambda>rc. Some (rc, plist, p)) (\<lambda>p.
       map_option leave_unless (find_body S timesec p h junk junkcount plist szPath ulAttribute))"

end
