(* ===== verification/Plugin_Calls.thy ===== *)
theory Plugin_Calls
  imports Plugin_Ea Resource_Ops Plugin_Query
begin

text \<open>
  The entry points as the calls of one machine, and what every call keeps: the objects that exist,
  the form of the file of a connection, and the mutex. The steps inside an entry point all keep these
  (\<open>keeps\<close>), so an entry point between \<open>ENTER\<close> and \<open>LEAVE\<close> does.
\<close>

subsection \<open>Well-formed states\<close>

definition file_ok :: "smbwrp_file \<Rightarrow> bool" where
  "file_ok fl \<longleftrightarrow> -1 \<le> f_fd fl \<and> f_fd fl \<le> 65535 \<and> (f_fd fl \<ge> 0 \<longrightarrow> f_fname fl \<noteq> []) \<and>
     length (f_fname fl) \<le> 260 \<and> length (f_fullname fl) \<le> 260 \<and> f_updatetime fl \<in> {0, 1, 2}"

definition objects_ok :: "(nat \<rightharpoonup> Connection) \<Rightarrow> (nat \<rightharpoonup> Resource) \<Rightarrow> nat \<Rightarrow> bool" where
  "objects_ok cs rs n \<longleftrightarrow> (\<forall>h c. cs h = Some c \<longrightarrow> file_ok (cfile c) \<and> h < n) \<and> (\<forall>h. rs h \<noteq> None \<longrightarrow> h < n)"

definition plugin_ok :: "'w plugin \<Rightarrow> bool" where
  "plugin_ok p \<longleftrightarrow> objects_ok (p_con p) (p_res p) (p_next p)"

lemma objects_ok_change:
  assumes "objects_ok cs rs n"
  shows "objects_ok cs (rs(n \<mapsto> r)) (Suc n)" "file_ok (cfile c) \<Longrightarrow> objects_ok (cs(n \<mapsto> c)) rs (Suc n)"
    "objects_ok cs (rs(h := None)) n" "objects_ok (cs(h := None)) rs n"
  using assms by (auto simp: objects_ok_def less_Suc_eq split: if_split_asm)

definition keeps_conn :: "Connection option \<Rightarrow> Connection option \<Rightarrow> bool" where
  "keeps_conn = rel_option (\<lambda>c c'. pRes c' = pRes c \<and> (file_ok (cfile c) \<longrightarrow> file_ok (cfile c')))"

definition keeps :: "'w plugin \<Rightarrow> 'w plugin \<Rightarrow> bool" where
  "keeps p p' \<longleftrightarrow> p_mutex p' = p_mutex p \<and> p_next p' = p_next p \<and> dom (p_res p') = dom (p_res p) \<and>
     (\<forall>h. keeps_conn (p_con p h) (p_con p' h))"

lemma keeps_conn_refl [simp]: "keeps_conn x x"
  by (simp add: keeps_conn_def option.rel_refl)

lemma keeps_refl [simp]: "keeps p p"
  by (simp add: keeps_def)

lemma keeps_conn_trans: "keeps_conn a b \<Longrightarrow> keeps_conn b c \<Longrightarrow> keeps_conn a c"
  by (auto simp: keeps_conn_def rel_option_iff split: option.splits)

lemma keeps_trans: "keeps p q \<Longrightarrow> keeps q r \<Longrightarrow> keeps p r"
  unfolding keeps_def by (metis keeps_conn_trans)

lemma keeps_fields [simp]:
  "keeps p (q\<lparr>p_world := w\<rparr>) = keeps p q" "keeps p (q\<lparr>p_mem := m\<rparr>) = keeps p q"
  "keeps p (q\<lparr>p_initialised := b\<rparr>) = keeps p q"
  "keeps (p\<lparr>p_world := w\<rparr>) q = keeps p q" "keeps (p\<lparr>p_mem := m\<rparr>) q = keeps p q"
  by (simp_all add: keeps_def)

lemma keeps_con:
  assumes "p_con p h = Some c" "pRes c' = pRes c" "file_ok (cfile c) \<Longrightarrow> file_ok (cfile c')"
  shows "keeps p (p\<lparr>p_con := (p_con p)(h \<mapsto> c')\<rparr>)"
  using assms by (auto simp: keeps_def keeps_conn_def option.rel_refl)

lemma keeps_res: "p_res p h \<noteq> None \<Longrightarrow> keeps p (p\<lparr>p_res := (p_res p)(h \<mapsto> r)\<rparr>)"
  by (auto simp: keeps_def)

lemma keeps_ok: "keeps p p' \<Longrightarrow> plugin_ok p \<Longrightarrow> plugin_ok p'"
proof -
  assume k: "keeps p p'" and ok: "plugin_ok p"
  have con: "\<exists>c0. p_con p h = Some c0 \<and> (file_ok (cfile c0) \<longrightarrow> file_ok (cfile c))" if "p_con p' h = Some c" for h c
  proof -
    from k have "keeps_conn (p_con p h) (p_con p' h)" by (simp add: keeps_def)
    with that show ?thesis by (auto simp: keeps_conn_def option_rel_Some2)
  qed
  from k have "p_next p' = p_next p" "\<And>h. p_res p' h \<noteq> None \<longleftrightarrow> p_res p h \<noteq> None"
    by (auto simp: keeps_def)
  with ok con show ?thesis unfolding plugin_ok_def objects_ok_def by metis
qed

lemma keeps_mutex: "keeps p p' \<Longrightarrow> p_mutex p' = p_mutex p"
  by (simp add: keeps_def)

subsection \<open>The steps inside the entry points\<close>

named_theorems keeps_steps

lemma conn_of_Some: "conn_of p h = Some (c, r) \<longleftrightarrow> p_con p h = Some c \<and> p_res p (pRes c) = Some r"
  by (auto simp: conn_of_def bind_Some_iff)

lemma keeps_parse [keeps_steps]: "parse_path S p h path = Some (rc, out, p') \<Longrightarrow> keeps p p'"
proof -
  assume "parse_path S p h path = Some (rc, out, p')"
  then obtain c r r' c' w where c: "p_con p h = Some c" "p_res p (pRes c) = Some r"
    and P: "pathparser S r c path (p_world p) = Some (rc, out, r', c', w)"
    and p': "p' = p\<lparr>p_res := (p_res p)(pRes c \<mapsto> r'), p_con := (p_con p)(h \<mapsto> c'), p_world := w\<rparr>"
    by (auto simp: parse_path_def conn_of_Some bind_Some_iff)
  have "keeps p (p\<lparr>p_res := (p_res p)(pRes c \<mapsto> r')\<rparr>)" (is "keeps p ?q") using c(2) by (simp add: keeps_res)
  moreover have "keeps ?q (?q\<lparr>p_con := (p_con ?q)(h \<mapsto> c')\<rparr>)"
    using c(1) pathparser_keeps [OF P] by (intro keeps_con) simp_all
  ultimately show ?thesis using p' by (auto intro: keeps_trans)
qed

lemma parse_path_result: "parse_path S p h path = Some (rc, out, p') \<Longrightarrow> out \<noteq> [] \<and> length out \<le> 260"
  by (auto simp: parse_path_def bind_Some_iff dest: pathparser_keeps)

lemma keeps_invalidate [keeps_steps]: "invalidate S p h path = Some p' \<Longrightarrow> keeps p p'"
  by (auto simp: invalidate_def bind_Some_iff)

lemma keeps_on_cli [keeps_steps]: "on_cli p h f = Some (rc, p') \<Longrightarrow> keeps p p'"
  by (auto simp: on_cli_def bind_Some_iff case_prod_beta)

lemma keeps_path_call [keeps_steps]: "path_call S p h path f = Some (rc, out, p') \<Longrightarrow> keeps p p'"
  by (auto simp: path_call_def bind_Some_iff case_prod_beta split: if_splits
      dest!: keeps_parse keeps_on_cli intro: keeps_trans)

lemma keeps_connect [keeps_steps]: "connect_on S p h = Some (rc, p') \<Longrightarrow> keeps p p'"
  by (auto simp: connect_on_def bind_Some_iff conn_of_Some case_prod_beta intro!: keeps_con)

lemma keeps_disconnect [keeps_steps]: "disconnect_on S p h = Some p' \<Longrightarrow> keeps p p'"
  by (auto simp: disconnect_on_def bind_Some_iff)

lemma keeps_echo [keeps_steps]: "echo_on S p h = Some (rc, p') \<Longrightarrow> keeps p p'"
  by (simp add: echo_on_def keeps_on_cli)

lemma keeps_getattr [keeps_steps]: "getattr_on S p h finfo = Some (rc, finfo', p') \<Longrightarrow> keeps p p'"
  by (auto simp: getattr_on_def bind_Some_iff case_prod_beta)

lemma keeps_filelist [keeps_steps]: "filelist_on S timesec junk p h st = Some (rc, st', p') \<Longrightarrow> keeps p p'"
  by (auto simp: filelist_on_def bind_Some_iff case_prod_beta)

lemma keeps_malloc [keeps_steps]: "p_malloc p = (ok, p') \<Longrightarrow> keeps p p'"
  by (auto simp: p_malloc_def case_prod_beta)

lemma keeps_init [keeps_steps]: "smbwrp_init S p = (rc, p') \<Longrightarrow> keeps p p'"
  by (auto simp: smbwrp_init_def case_prod_beta split: if_splits)

lemma on_file_keeps:
  assumes "on_file p h f = Some (rc, p')"
    "\<And>c. p_con p h = Some c \<Longrightarrow> file_ok (cfile c) \<Longrightarrow> file_ok (fst (snd (f (cli c) (cfile c) (p_world p))))"
  shows "keeps p p'"
  using assms by (auto simp: on_file_def bind_Some_iff case_prod_beta intro!: keeps_con)

lemma set_file_keeps:
  assumes "set_file p h f = Some p'" "\<And>fl. file_ok fl \<Longrightarrow> file_ok (f fl)"
  shows "keeps p p'"
  using assms by (auto simp: set_file_def bind_Some_iff intro!: keeps_con)

text \<open>An entry point: what happens between requesting and releasing the mutex keeps everything.\<close>

lemma ENTER_Some:
  "ENTER S p early body = Some x \<longleftrightarrow>
     (fsphRequestMutex S SEM_INDEFINITE_WAIT (p_mutex p) \<noteq> err S NO_ERROR \<and>
        early (fsphRequestMutex S SEM_INDEFINITE_WAIT (p_mutex p)) = Some x) \<or>
     (fsphRequestMutex S SEM_INDEFINITE_WAIT (p_mutex p) = err S NO_ERROR \<and>
        body (p\<lparr>p_mutex := p_mutex p + 1\<rparr>) = Some x)"
  by (simp add: ENTER_def Let_def)

lemma keeps_LEAVE: "keeps (p\<lparr>p_mutex := Suc (p_mutex p)\<rparr>) q \<Longrightarrow> keeps p (LEAVE q)"
  by (simp add: keeps_def LEAVE_def)

lemma keeps_LEAVE_world [simp]:
  "keeps p (LEAVE (q\<lparr>p_world := w\<rparr>)) = keeps p (LEAVE q)" "keeps p (LEAVE (q\<lparr>p_mem := m\<rparr>)) = keeps p (LEAVE q)"
  by (simp_all add: keeps_def LEAVE_def)

subsection \<open>The entry points\<close>

named_theorems keeps_calls

lemma SetPathInfo_keeps [keeps_calls]: "NdpSetPathInfo S p h pfi path = Some (rc, p') \<Longrightarrow> keeps p p'"
  unfolding NdpSetPathInfo_def ENTER_Some bind_Some_iff
  by (auto dest!: keeps_steps intro!: keeps_LEAVE intro: keeps_trans)

lemma SetCurrentDir_keeps [keeps_calls]: "NdpSetCurrentDir S p h path = Some (rc, p') \<Longrightarrow> keeps p p'"
  unfolding NdpSetCurrentDir_def ENTER_Some bind_Some_iff
  by (auto dest!: keeps_steps intro!: keeps_LEAVE intro: keeps_trans)

lemma ForceDelete_keeps [keeps_calls]: "NdpForceDelete S p h path = Some (rc, p') \<Longrightarrow> keeps p p'"
  unfolding NdpForceDelete_def ENTER_Some bind_Some_iff
  by (auto dest!: keeps_steps intro!: keeps_LEAVE intro: keeps_trans)

lemma DeleteDir_keeps [keeps_calls]: "NdpDeleteDir S p h path = Some (rc, p') \<Longrightarrow> keeps p p'"
  unfolding NdpDeleteDir_def ENTER_Some bind_Some_iff
  by (auto dest!: keeps_steps intro!: keeps_LEAVE intro: keeps_trans)

lemma helperEASet_keeps [keeps_calls]: "helperEASet S cl feas path p = Some (rc, p') \<Longrightarrow> keeps p p'"
  unfolding helperEASet_def
  by (auto simp: ENTER_Some bind_Some_iff intro!: keeps_LEAVE split: option.split_asm if_split_asm)

lemma CreateDir_keeps [keeps_calls]: "NdpCreateDir S p h path feas = Some (rc, p') \<Longrightarrow> keeps p p'"
proof -
  assume run: "NdpCreateDir S p h path feas = Some (rc, p')"
  show ?thesis
  proof (cases "fsphRequestMutex S SEM_INDEFINITE_WAIT (p_mutex p) = err S NO_ERROR")
    case True
    with run obtain p1 rc1 out p2 rc2 and c :: Connection and r :: Resource where
      "invalidate S (p\<lparr>p_mutex := Suc (p_mutex p)\<rparr>) h path = Some p1"
      "path_call S p1 h path (\<lambda>path r c. smbwrp_mkdir S c path) = Some (rc1, out, p2)"
      and 3: "(if easupport r \<noteq> 0 then helperEASet S (cli c) feas out (LEAVE p2) else Some (0, LEAVE p2)) = Some (rc2, p')"
      by (auto simp: NdpCreateDir_def ENTER_def bind_Some_iff Let_def simp del: if_split)
    then have "keeps p (LEAVE p2)" by (auto dest!: keeps_steps intro!: keeps_LEAVE intro: keeps_trans)
    moreover have "keeps (LEAVE p2) p'" using 3 by (auto dest: helperEASet_keeps split: if_split_asm)
    ultimately show ?thesis by (rule keeps_trans)
  qed (use run in \<open>simp add: NdpCreateDir_def ENTER_def\<close>)
qed

lemma Move_keeps [keeps_calls]: "NdpMove S p h dst src = Some (rc, p') \<Longrightarrow> keeps p p'"
  unfolding NdpMove_def ENTER_Some bind_Some_iff Let_def
  by (auto simp: bind_Some_iff dest!: keeps_steps split: if_split_asm intro!: keeps_LEAVE)
    (meson keeps_trans)+

lemma SetFileAttribute_keeps [keeps_calls]: "NdpSetFileAttribute S p h path a = Some (rc, p') \<Longrightarrow> keeps p p'"
  unfolding NdpSetFileAttribute_def ENTER_Some bind_Some_iff
  by (auto dest!: keeps_steps intro!: keeps_LEAVE intro: keeps_trans)

text \<open>The file: what the calls of the client library do to the form of a handle.\<close>

named_theorems file_ok_steps

lemma open_ok [file_ok_steps]: "file_ok fl \<Longrightarrow> file_ok (fst (snd (smbwrp_open S cl fl w)))"
proof -
  have "uint (u :: u16) \<le> 65535 \<and> - 1 \<le> uint u \<and> 0 \<le> uint u" for u
  proof -
    have "uint u < 65536" using uint_lt2p [of u] by simp
    with uint_ge_0 [of u] show ?thesis by linarith
  qed
  then show "file_ok fl \<Longrightarrow> ?thesis"
    by (auto simp: smbwrp_open_def file_ok_def Let_def case_prod_beta split: option.split)
qed

lemma close_ok [file_ok_steps]: "file_ok fl \<Longrightarrow> file_ok (fst (snd (smbwrp_close S cl fl w)))"
  by (auto simp: smbwrp_close_def file_ok_def Let_def case_prod_beta split: option.split)

lemma lseek_ok [file_ok_steps]: "file_ok fl \<Longrightarrow> file_ok (fst (snd (smbwrp_lseek S cl fl wh off w)))"
  by (auto simp: smbwrp_lseek_def file_ok_def Let_def case_prod_beta split: option.split)

lemma read_ok [file_ok_steps]: "file_ok fl \<Longrightarrow> file_ok (fst (snd (smbwrp_read S cl fl n w)))"
  by (auto simp: smbwrp_read_def file_ok_def Let_def case_prod_beta split: option.split)

lemma write_ok [file_ok_steps]: "file_ok fl \<Longrightarrow> file_ok (fst (snd (smbwrp_write S cl fl b n w)))"
  by (auto simp: smbwrp_write_def file_ok_def Let_def case_prod_beta split: option.split)

lemma open_file_ok: "path \<noteq> [] \<Longrightarrow> file_ok fl \<Longrightarrow> file_ok (open_file name path flags md attr fl)"
  using length_strncpy_z [of 260] by (auto simp: file_ok_def open_file_def strncpy_z_def)

lemma if_open_keeps:
  assumes "if_open S p h body = Some (rc, p')" "\<And>rc p'. body = Some (rc, p') \<Longrightarrow> keeps p p'"
  shows "keeps p p'"
  using assms by (auto simp: if_open_def bind_Some_iff split: if_split_asm)

lemma FileEASet_keeps [keeps_calls]: "NdpFileEASet S p h feas = Some (rc, p') \<Longrightarrow> keeps p p'"
  unfolding NdpFileEASet_def
  by (auto simp: ENTER_Some bind_Some_iff case_prod_beta intro!: keeps_LEAVE dest!: if_open_keeps
      split: option.split_asm if_split_asm)

lemma smbopen_try_keeps: "smbopen_try S p h name flags md attr = Some (rc, p') \<Longrightarrow> keeps p p'"
  unfolding smbopen_try_def
  by (auto simp: bind_Some_iff dest!: set_file_keeps [OF _ open_file_ok] on_file_keeps [OF _ open_ok]
      dest: parse_path_result keeps_parse split: if_split_asm)
    (meson keeps_trans keeps_parse parse_path_result)+

lemma smbopen_keeps [keeps_calls]: "smbopen S p h name flags md attr feas = Some (rc, p') \<Longrightarrow> keeps p p'"
  unfolding smbopen_def ENTER_Some
  by (auto simp: bind_Some_iff dest!: smbopen_try_keeps FileEASet_keeps keeps_invalidate
      split: if_split_asm intro!: keeps_LEAVE)
    (meson keeps_trans)+

lemma FileQueryInfo_keeps [keeps_calls]: "NdpFileQueryInfo S p h junk pl = Some (rc, pl', p') \<Longrightarrow> keeps p p'"
  unfolding NdpFileQueryInfo_def ENTER_Some
  by (auto simp: bind_Some_iff Let_def case_prod_beta intro!: keeps_LEAVE split: if_split_asm)

lemma FileSetInfo_keeps [keeps_calls]: "NdpFileSetInfo S p h pfi = Some (rc, p') \<Longrightarrow> keeps p p'"
  unfolding NdpFileSetInfo_def ENTER_Some
  by (auto simp: bind_Some_iff dest!: keeps_invalidate split: if_split_asm intro!: keeps_LEAVE)
    (auto elim!: keeps_trans set_file_keeps simp: file_ok_def)

lemma FileSetFilePtrL_keeps [keeps_calls]:
  "NdpFileSetFilePtrL S p h off meth = Some (rc, pos, p') \<Longrightarrow> keeps p p'"
  unfolding NdpFileSetFilePtrL_def ENTER_Some
  by (auto simp: bind_Some_iff dest!: on_file_keeps [OF _ lseek_ok] intro!: keeps_LEAVE split: if_split_asm)

lemma FileClose_keeps [keeps_calls]: "NdpFileClose S p h = Some (rc, p') \<Longrightarrow> keeps p p'"
proof -
  have "file_ok fl \<Longrightarrow> file_ok (fl\<lparr>f_fd := -1\<rparr>)" for fl by (auto simp: file_ok_def)
  note set = set_file_keeps [OF _ this]
  assume "NdpFileClose S p h = Some (rc, p')"
  then show ?thesis unfolding NdpFileClose_def ENTER_Some
    by (auto simp: bind_Some_iff dest!: set if_open_keeps [OF _ on_file_keeps [OF _ close_ok]]
        intro!: keeps_LEAVE intro: keeps_trans)
qed

lemma FileNewSizeL_keeps [keeps_calls]: "NdpFileNewSizeL S p h len = Some (rc, p') \<Longrightarrow> keeps p p'"
  unfolding NdpFileNewSizeL_def ENTER_Some
  by (auto simp: bind_Some_iff case_prod_beta intro!: keeps_LEAVE elim!: if_open_keeps on_file_keeps)

text \<open>A call that puts back the connection it read.\<close>

lemma keeps_put:
  assumes "p_con p h = Some c" "p_con q = p_con p" "p_res q = p_res p" "p_next q = p_next p"
    "p_mutex q = Suc (p_mutex p)" "file_ok (cfile c) \<Longrightarrow> file_ok fl"
  shows "keeps p (LEAVE (q\<lparr>p_con := (p_con q)(h \<mapsto> c\<lparr>cfile := fl\<rparr>)\<rparr>))"
  using assms by (auto simp: keeps_def keeps_conn_def LEAVE_def option.rel_refl)

lemma FileRead_keeps [keeps_calls]: "NdpFileRead S p h junk n = Some (rc, data, cnt, p') \<Longrightarrow> keeps p p'"
  unfolding NdpFileRead_def ENTER_Some
  using keeps_put [where p = p and q = "p\<lparr>p_mutex := Suc (p_mutex p)\<rparr>" and h = h]
  by (auto simp: bind_Some_iff Let_def case_prod_beta read_ok)

lemma invalidate_fields:
  "invalidate S p h path = Some p' \<Longrightarrow>
     p_con p' = p_con p \<and> p_res p' = p_res p \<and> p_next p' = p_next p \<and> p_mutex p' = p_mutex p \<and> p_world p' = p_world p"
  by (auto simp: invalidate_def bind_Some_iff)

lemma FileWrite_keeps [keeps_calls]: "NdpFileWrite S p h buf n = Some (rc, cnt, p') \<Longrightarrow> keeps p p'"
proof -
  assume run: "NdpFileWrite S p h buf n = Some (rc, cnt, p')"
  show ?thesis
  proof (cases "fsphRequestMutex S SEM_INDEFINITE_WAIT (p_mutex p) = err S NO_ERROR")
    case True
    with run obtain q and c :: Connection and r :: Resource where c: "p_con p h = Some c"
      and inv: "invalidate S (p\<lparr>p_mutex := Suc (p_mutex p)\<rparr>) h (f_fullname (cfile c)) = Some q"
      and cases: "p' = LEAVE q \<or> p' = LEAVE (q\<lparr>p_con := (p_con q)(h \<mapsto>
          c\<lparr>cfile := fst (snd (smbwrp_write S (cli c) (cfile c) buf n (p_world q)))\<rparr>),
          p_world := snd (snd (snd (smbwrp_write S (cli c) (cfile c) buf n (p_world q))))\<rparr>)"
      by (auto simp: NdpFileWrite_def ENTER_def bind_Some_iff conn_of_Some case_prod_beta Let_def
          split: if_split_asm)
    note q = invalidate_fields [OF inv]
    have "keeps p (LEAVE (q\<lparr>p_con := (p_con q)(h \<mapsto>
          c\<lparr>cfile := fst (snd (smbwrp_write S (cli c) (cfile c) buf n (p_world q)))\<rparr>)\<rparr>))"
      using c q by (intro keeps_put write_ok) simp_all
    moreover have "keeps p (LEAVE q)"
      using keeps_invalidate [OF inv] by (rule keeps_LEAVE)
    ultimately show ?thesis using cases by auto
  qed (use run in \<open>simp add: NdpFileWrite_def ENTER_def\<close>)
qed

text \<open>Extended attributes.\<close>

lemma EAQuery_keeps [keeps_calls]: "NdpEAQuery S p h blk gea pfi dst = Some (rc, dst', p') \<Longrightarrow> keeps p p'"
proof -
  assume run: "NdpEAQuery S p h blk gea pfi dst = Some (rc, dst', p')"
  obtain ok q where m: "p_malloc (p\<lparr>p_mutex := Suc (p_mutex p)\<rparr>) = (ok, q)" by fastforce
  from run have "p' = p \<or> p' = LEAVE q \<or> (\<exists>w. p' = LEAVE (q\<lparr>p_world := w\<rparr>))"
    by (cases dst; cases "ea_data pfi") (auto simp: NdpEAQuery_def bind_Some_iff m ENTER_Some split: if_split_asm)
  with keeps_LEAVE [OF keeps_malloc [OF m]] show ?thesis by auto
qed

lemma EASet_keeps [keeps_calls]: "NdpEASet S p h feas pfi = Some (rc, p') \<Longrightarrow> keeps p p'"
  unfolding NdpEASet_def
  by (auto simp: bind_Some_iff dest!: helperEASet_keeps split: if_split_asm option.split_asm)

lemma EASize_keeps [keeps_calls]: "NdpEASize S p h blk pfi = Some (rc, sz, pfi', p') \<Longrightarrow> keeps p p'"
proof -
  assume run: "NdpEASize S p h blk pfi = Some (rc, sz, pfi', p')"
  obtain ok q where m: "p_malloc (p\<lparr>p_mutex := Suc (p_mutex p)\<rparr>) = (ok, q)" by fastforce
  have "p' = p \<or> p' = LEAVE (p\<lparr>p_mutex := Suc (p_mutex p)\<rparr>) \<or> p' = LEAVE q \<or> (\<exists>w. p' = LEAVE (q\<lparr>p_world := w\<rparr>))"
  proof (cases pfi)
    case (Some f)
    with run show ?thesis
      by (cases "pfi_data f") (auto simp: NdpEASize_def bind_Some_iff m ENTER_Some Let_def split: if_split_asm)
  qed (use run in \<open>auto simp: NdpEASize_def bind_Some_iff\<close>)
  with keeps_LEAVE [OF keeps_malloc [OF m]] keeps_LEAVE [OF keeps_refl] show ?thesis by auto
qed

lemma FileEAQuery_keeps [keeps_calls]: "NdpFileEAQuery S p h blk gea dst = Some (rc, dst', p') \<Longrightarrow> keeps p p'"
proof -
  assume run: "NdpFileEAQuery S p h blk gea dst = Some (rc, dst', p')"
  obtain ok q where m: "p_malloc p = (ok, q)" by fastforce
  from run have "p' = p \<or> p' = q \<or> (\<exists>w. p' = LEAVE (q\<lparr>p_mutex := Suc (p_mutex q), p_world := w\<rparr>))"
    by (auto simp: NdpFileEAQuery_def bind_Some_iff m ENTER_Some split: option.split_asm if_split_asm)
  moreover have "keeps q (LEAVE (q\<lparr>p_mutex := Suc (p_mutex q), p_world := w\<rparr>))" for w
    by (simp add: keeps_def LEAVE_def)
  ultimately show ?thesis using keeps_malloc [OF m] by (auto intro: keeps_trans)
qed

lemma FileEASize_keeps [keeps_calls]: "NdpFileEASize S p h blk = Some (rc, sz, p') \<Longrightarrow> keeps p p'"
proof -
  assume run: "NdpFileEASize S p h blk = Some (rc, sz, p')"
  obtain ok q where m: "p_malloc p = (ok, q)" by fastforce
  from run have "p' = p \<or> p' = q \<or> p' = LEAVE (q\<lparr>p_mutex := Suc (p_mutex q)\<rparr>) \<or>
      (\<exists>w. p' = LEAVE (q\<lparr>p_mutex := Suc (p_mutex q), p_world := w\<rparr>))"
    by (auto simp: NdpFileEASize_def bind_Some_iff m ENTER_Some split: option.split_asm if_split_asm)
  moreover have "keeps q (LEAVE (q\<lparr>p_mutex := Suc (p_mutex q), p_world := w\<rparr>))"
    "keeps q (LEAVE (q\<lparr>p_mutex := Suc (p_mutex q)\<rparr>))" for w
    by (simp_all add: keeps_def LEAVE_def)
  ultimately show ?thesis using keeps_malloc [OF m] by (auto intro: keeps_trans)
qed

text \<open>
  Queries and searches: what happens under the mutex keeps everything, and the flag of the early
  \<open>return\<close> comes with a code that is not 0.
\<close>

lemma keeps_query_attr [keeps_steps]: "query_attr S p h finfo = Some (rc, finfo', p') \<Longrightarrow> keeps p p'"
  by (auto simp: query_attr_def bind_Some_iff split: if_split_asm dest!: keeps_steps intro: keeps_trans)

lemma keeps_query_parent [keeps_steps]: "query_parent S p h finfo = Some (rc, p') \<Longrightarrow> keeps p p'"
  by (auto simp: query_parent_def bind_Some_iff split: option.split_asm nat.split_asm dest!: keeps_getattr)

lemma query_server_keeps:
  assumes "query_server S p h finfo path plist = Some (rc, plist', p', early)"
  shows "keeps p p' \<and> (early \<longrightarrow> os2_codes (err S) \<longrightarrow> rc \<noteq> 0)"
  using assms unfolding query_server_def Let_def
  by (auto elim!: bindE split: if_split_asm dest!: keeps_steps) (meson keeps_trans)+

lemma query_body_keeps:
  assumes "query_body S timesec p h junk plist path = Some (rc, plist', p', early)"
  shows "keeps p p' \<and> (early \<longrightarrow> os2_codes (err S) \<longrightarrow> rc \<noteq> 0)"
  using assms unfolding query_body_def Let_def
  by (auto elim!: bindE split: option.split_asm if_split_asm
      dest!: keeps_parse query_server_keeps) (meson keeps_trans)+

lemma find_body_keeps:
  assumes "find_body S timesec p h junk junkcount plist path attr = Some (rc, plist', p', early)"
  shows "keeps p p' \<and> (early \<longrightarrow> os2_codes (err S) \<longrightarrow> rc \<noteq> 0)"
  using assms unfolding find_body_def Let_def
  by (auto elim!: bindE split: if_split_asm dest!: keeps_steps) (meson keeps_trans)+

lemma leave_unless_keeps:
  assumes "leave_unless (rc, plist, q, early) = (rc', plist', p')" "keeps (p\<lparr>p_mutex := Suc (p_mutex p)\<rparr>) q"
  shows "rc' = rc \<and> (\<not> early \<and> keeps p p' \<or> early \<and> keeps (p\<lparr>p_mutex := Suc (p_mutex p)\<rparr>) p')"
  using assms keeps_LEAVE by (auto simp: leave_unless_def split: if_split_asm)

lemma QueryPathInfo_keeps:
  assumes "NdpQueryPathInfo S timesec p h junk plist path = Some (rc, plist', p')"
  shows "keeps p p' \<or> keeps (p\<lparr>p_mutex := Suc (p_mutex p)\<rparr>) p' \<and> (os2_codes (err S) \<longrightarrow> rc \<noteq> 0)"
  using assms keeps_LEAVE [OF keeps_refl, of p] unfolding NdpQueryPathInfo_def ENTER_Some
  by (auto split: if_split_asm dest!: query_body_keeps leave_unless_keeps)

lemma FindStart_keeps:
  assumes "NdpFindStart S timesec p h junk junkcount plist path attr = Some (rc, plist', p')"
  shows "keeps p p' \<or> keeps (p\<lparr>p_mutex := Suc (p_mutex p)\<rparr>) p' \<and> (os2_codes (err S) \<longrightarrow> rc \<noteq> 0)"
  using assms unfolding NdpFindStart_def ENTER_Some
  by (auto dest!: find_body_keeps leave_unless_keeps)

subsection \<open>Resources and connections\<close>

text \<open>A call that makes or removes an object: the well-formedness and the mutex, one after the other.\<close>

lemma QueryFSAllocate_keeps [keeps_calls]: "NdpRsrcQueryFSAllocate S p h fsa = Some (rc, fsa', p') \<Longrightarrow> keeps p p'"
  unfolding NdpRsrcQueryFSAllocate_def ENTER_Some
  by (auto elim!: bindE simp: case_prod_beta Let_def split: option.split_asm if_split_asm intro!: keeps_LEAVE)

definition stays_ok :: "'w plugin \<Rightarrow> 'w plugin \<Rightarrow> bool" where
  "stays_ok p p' \<longleftrightarrow> p_mutex p' = p_mutex p \<and> (plugin_ok p \<longrightarrow> plugin_ok p')"

lemma keeps_stays_ok: "keeps p p' \<Longrightarrow> stays_ok p p'"
  by (auto simp: stays_ok_def keeps_mutex keeps_ok)

lemma LEAVE_fields [simp]:
  "p_mutex (LEAVE p) = p_mutex p - 1" "p_con (LEAVE p) = p_con p" "p_res (LEAVE p) = p_res p"
  "p_next (LEAVE p) = p_next p" "p_mem (LEAVE p) = p_mem p" "p_world (LEAVE p) = p_world p"
  by (simp_all add: LEAVE_def)

lemma file_zero_ok: "file_ok (file_zero\<lparr>f_fd := - 1\<rparr>)"
  by (simp add: file_ok_def file_zero_def)

lemma keeps_entered:
  assumes "keeps (p\<lparr>p_mutex := Suc (p_mutex p)\<rparr>) q"
  shows "p_mutex q = Suc (p_mutex p)" "plugin_ok p \<Longrightarrow> objects_ok (p_con q) (p_res q) (p_next q)"
  using keeps_mutex [OF assms] keeps_ok [OF assms] by (simp_all add: plugin_ok_def)

lemma MountResource_ok: "NdpMountResource S p junk = Some (rc, h, p') \<Longrightarrow> stays_ok p p'"
proof -
  assume run: "NdpMountResource S p junk = Some (rc, h, p')"
  obtain rc1 p1 ok p2 where 1: "smbwrp_init S (p\<lparr>p_mutex := Suc (p_mutex p)\<rparr>) = (rc1, p1)" "p_malloc p1 = (ok, p2)"
    by (metis surj_pair)
  then have "keeps (p\<lparr>p_mutex := Suc (p_mutex p)\<rparr>) p2" by (auto dest!: keeps_steps intro: keeps_trans)
  note k = keeps_entered [OF this]
  from run show ?thesis unfolding NdpMountResource_def ENTER_Some
    by (auto elim!: bindE simp: 1 Let_def case_prod_beta stays_ok_def plugin_ok_def k
        split: if_split_asm intro!: objects_ok_change dest!: k(2) [unfolded plugin_ok_def])
qed

lemma FreeResource_ok: "NdpFreeResource S p h = Some (rc, p') \<Longrightarrow> stays_ok p p'"
  unfolding NdpFreeResource_def ENTER_Some
  by (auto elim!: bindE simp: stays_ok_def plugin_ok_def objects_ok_change)

lemma CreateConnection_ok: "NdpCreateConnection S p h = Some (rc, hc, p') \<Longrightarrow> stays_ok p p'"
proof -
  assume run: "NdpCreateConnection S p h = Some (rc, hc, p')"
  obtain ok q where m: "p_malloc (p\<lparr>p_mutex := Suc (p_mutex p)\<rparr>) = (ok, q)" by fastforce
  note k = keeps_entered [OF keeps_malloc [OF m]]
  from run show ?thesis unfolding NdpCreateConnection_def ENTER_Some
    by (auto elim!: bindE simp: m Let_def case_prod_beta stays_ok_def plugin_ok_def k file_zero_ok
        split: if_split_asm intro!: objects_ok_change dest!: k(2) [unfolded plugin_ok_def])
qed

lemma FreeConnection_ok: "NdpFreeConnection S p h = Some (rc, p') \<Longrightarrow> stays_ok p p'"
  unfolding NdpFreeConnection_def
  by (auto elim!: bindE simp: stays_ok_def plugin_ok_def objects_ok_change ENTER_Some)

end
