(* ===== verification/Plugin_Machine.thy ===== *)
theory Plugin_Machine
  imports Plugin_Calls
begin

text \<open>
  The entry points as the calls of one machine (\<open>ndpsmb.c\<close>). A call names its handle and arguments and,
  where the code reads variables that nothing set, what happens to be there. The machine keeps the code
  of each call; what is stored for the caller beside it is left to the entry points themselves.
\<close>

subsection \<open>The calls\<close>

datatype (plugins only: size) ndp_call =
    MountResource int | FreeResource nat | CreateConnection nat | FreeConnection nat
  | QueryFSAllocate nat "FSALLOCATE option"
  | SetPathInfo nat NDFILEINFOL string | SetCurrentDir nat string | ForceDelete nat string
  | DeleteDir nat string | CreateDir nat string "string option" | Move nat string string
  | SetFileAttribute nat string u16
  | OpenReplace nat string u32 u32 "string option" | OpenCreate nat string u32 u32 "string option"
  | OpenExisting nat string u32
  | FileQueryInfo nat smbwrp_fileinfo plist | FileSetInfo nat NDFILEINFOL
  | FileSetFilePtr nat u64 u32 u32 | FileSetFilePtrL nat u64 u32 | FileClose nat
  | FileNewSize nat u32 | FileNewSizeL nat u64 | FileRead nat u32 u32 | FileWrite nat string u32
  | FileEASet nat "string option" | FileEAQuery nat string "string option" "string option"
  | FileEASize nat string
  | EAQuery nat string "string option" "NDFILEINFOL option" "string option"
  | EASet nat "string option" "NDFILEINFOL option" | EASize nat string "NDFILEINFOL option"
  | QueryPathInfo u32 nat smbwrp_fileinfo plist string
  | FindStart u32 nat smbwrp_fileinfo u32 plist string u32

definition code_state :: "(int \<times> 'a \<times> 'w plugin) option \<Rightarrow> (int \<times> 'w plugin) option" where
  "code_state x = map_option (\<lambda>(rc, a, p). (rc, p)) x"

lemma code_state_Some: "code_state x = Some (rc, p) \<longleftrightarrow> (\<exists>a. x = Some (rc, a, p))"
  by (auto simp: code_state_def)

definition ndp_run :: "('w, 'x) ndp_scheme \<Rightarrow> ndp_call \<Rightarrow> 'w plugin \<Rightarrow> (int \<times> 'w plugin) option" where
  "ndp_run S call p =
     (case call of
        MountResource junk \<Rightarrow> code_state (NdpMountResource S p junk)
      | FreeResource h \<Rightarrow> NdpFreeResource S p h
      | CreateConnection h \<Rightarrow> code_state (NdpCreateConnection S p h)
      | FreeConnection h \<Rightarrow> NdpFreeConnection S p h
      | QueryFSAllocate h fsa \<Rightarrow> code_state (NdpRsrcQueryFSAllocate S p h fsa)
      | SetPathInfo h pfi path \<Rightarrow> NdpSetPathInfo S p h pfi path
      | SetCurrentDir h path \<Rightarrow> NdpSetCurrentDir S p h path
      | ForceDelete h path \<Rightarrow> NdpForceDelete S p h path
      | DeleteDir h path \<Rightarrow> NdpDeleteDir S p h path
      | CreateDir h path feas \<Rightarrow> NdpCreateDir S p h path feas
      | Move h dst src \<Rightarrow> NdpMove S p h dst src
      | SetFileAttribute h path a \<Rightarrow> NdpSetFileAttribute S p h path a
      | OpenReplace h path md a feas \<Rightarrow> NdpOpenReplace S p h path md a feas
      | OpenCreate h path md a feas \<Rightarrow> NdpOpenCreate S p h path md a feas
      | OpenExisting h path md \<Rightarrow> NdpOpenExisting S p h path md
      | FileQueryInfo h junk plist \<Rightarrow> code_state (NdpFileQueryInfo S p h junk plist)
      | FileSetInfo h pfi \<Rightarrow> NdpFileSetInfo S p h pfi
      | FileSetFilePtr h junk off meth \<Rightarrow> code_state (NdpFileSetFilePtr S p h junk off meth)
      | FileSetFilePtrL h off meth \<Rightarrow> code_state (NdpFileSetFilePtrL S p h off meth)
      | FileClose h \<Rightarrow> NdpFileClose S p h
      | FileNewSize h len \<Rightarrow> NdpFileNewSize S p h len
      | FileNewSizeL h len \<Rightarrow> NdpFileNewSizeL S p h len
      | FileRead h junk n \<Rightarrow> map_option (\<lambda>(rc, data, cnt, p). (rc, p)) (NdpFileRead S p h junk n)
      | FileWrite h buf n \<Rightarrow> code_state (NdpFileWrite S p h buf n)
      | FileEASet h feas \<Rightarrow> NdpFileEASet S p h feas
      | FileEAQuery h blk gea dst \<Rightarrow> code_state (NdpFileEAQuery S p h blk gea dst)
      | FileEASize h blk \<Rightarrow> code_state (NdpFileEASize S p h blk)
      | EAQuery h blk gea pfi dst \<Rightarrow> code_state (NdpEAQuery S p h blk gea pfi dst)
      | EASet h feas pfi \<Rightarrow> NdpEASet S p h feas pfi
      | EASize h blk pfi \<Rightarrow> map_option (\<lambda>(rc, sz, pfi, p). (rc, p)) (NdpEASize S p h blk pfi)
      | QueryPathInfo t h junk plist path \<Rightarrow> code_state (NdpQueryPathInfo S t p h junk plist path)
      | FindStart t h junk junkcount plist path a \<Rightarrow>
          code_state (NdpFindStart S t p h junk junkcount plist path a))"

text \<open>A run of a machine: the codes of its calls, unless one of them is undefined.\<close>

fun runs :: "('c \<Rightarrow> 's \<Rightarrow> (int \<times> 's) option) \<Rightarrow> 'c list \<Rightarrow> 's \<Rightarrow> (int list \<times> 's) option" where
  "runs run [] s = Some ([], s)"
| "runs run (c # cs) s = do { (rc, s) \<leftarrow> run c s; (rcs, s) \<leftarrow> runs run cs s; Some (rc # rcs, s) }"

lemma runs_length: "runs run cs s = Some (rcs, s') \<Longrightarrow> length rcs = length cs"
  by (induction cs arbitrary: s rcs) (auto simp: bind_Some_iff)

subsection \<open>Calls that are serialized\<close>

text \<open>
  What a host relies on: every call keeps the state well formed and gives back the mutex. The calls
  that may keep it are told by their code.
\<close>

locale serialized_calls =
  fixes run :: "'c \<Rightarrow> 's \<Rightarrow> (int \<times> 's) option"
    and ok :: "'s \<Rightarrow> bool"
    and depth :: "'s \<Rightarrow> nat"
    and leak :: "'c \<Rightarrow> int \<Rightarrow> bool"
  assumes run_ok: "run c s = Some (rc, s') \<Longrightarrow> ok s \<Longrightarrow> ok s'"
    and run_depth: "run c s = Some (rc, s') \<Longrightarrow>
      depth s' = depth s \<or> leak c rc \<and> depth s' = Suc (depth s)"
begin

lemma runs_ok: "runs run cs s = Some (rcs, s') \<Longrightarrow> ok s \<Longrightarrow> ok s'"
  by (induction cs arbitrary: s rcs) (auto simp: bind_Some_iff dest: run_ok)

lemma runs_depth:
  "runs run cs s = Some (rcs, s') \<Longrightarrow>
     depth s \<le> depth s' \<and> depth s' \<le> depth s + length (filter (\<lambda>(c, rc). leak c rc) (zip cs rcs))"
proof (induction cs arbitrary: s rcs)
  case (Cons c cs)
  then obtain rc s1 rcs' where 1: "run c s = Some (rc, s1)" "runs run cs s1 = Some (rcs', s')" "rcs = rc # rcs'"
    by (auto simp: bind_Some_iff)
  from run_depth [OF 1(1)] Cons.IH [OF 1(2)] show ?case by (auto simp: 1(3))
qed simp

lemma runs_balanced:
  assumes "runs run cs s = Some (rcs, s')" "\<forall>(c, rc) \<in> set (zip cs rcs). \<not> leak c rc"
  shows "depth s' = depth s"
proof -
  have "filter (\<lambda>(c, rc). leak c rc) (zip cs rcs) = []"
    using assms(2) by (auto simp: filter_empty_conv)
  with runs_depth [OF assms(1)] show ?thesis by simp
qed

end

text \<open>The plugin: a call that keeps the mutex is a query or a search that failed.\<close>

definition is_search :: "ndp_call \<Rightarrow> bool" where
  "is_search call = (case call of QueryPathInfo t h junk plist path \<Rightarrow> True
     | FindStart t h junk junkcount plist path a \<Rightarrow> True | _ \<Rightarrow> False)"

definition may_keep_mutex :: "('w, 'x) ndp_scheme \<Rightarrow> ndp_call \<Rightarrow> int \<Rightarrow> bool" where
  "may_keep_mutex S call rc \<longleftrightarrow> is_search call \<and> (os2_codes (err S) \<longrightarrow> rc \<noteq> 0)"

lemma ndp_run_stays:
  assumes "ndp_run S call p = Some (rc, p')" "\<not> is_search call"
  shows "stays_ok p p'"
  using assms
  by (cases call)
    (auto simp: ndp_run_def is_search_def code_state_Some NdpOpenReplace_def NdpOpenCreate_def
      NdpOpenExisting_def NdpFileNewSize_def NdpFileSetFilePtr_def elim!: bindE
      dest!: keeps_calls [THEN keeps_stays_ok] MountResource_ok FreeResource_ok CreateConnection_ok FreeConnection_ok)

lemma ndp_run_search:
  assumes "ndp_run S call p = Some (rc, p')" "is_search call"
  shows "stays_ok p p' \<or> may_keep_mutex S call rc \<and> stays_ok (p\<lparr>p_mutex := Suc (p_mutex p)\<rparr>) p'"
  using assms
  by (cases call)
    (auto simp: ndp_run_def is_search_def may_keep_mutex_def code_state_Some
      dest!: QueryPathInfo_keeps FindStart_keeps dest: keeps_stays_ok)

interpretation ndp: serialized_calls "ndp_run S" plugin_ok p_mutex "may_keep_mutex S"
proof
  fix c s rc s' assume run: "ndp_run S c s = Some (rc, s')"
  show "plugin_ok s \<Longrightarrow> plugin_ok s'"
    using ndp_run_stays [OF run] ndp_run_search [OF run] by (auto simp: stays_ok_def plugin_ok_def)
  show "p_mutex s' = p_mutex s \<or> may_keep_mutex S c rc \<and> p_mutex s' = Suc (p_mutex s)"
    using ndp_run_stays [OF run] ndp_run_search [OF run] by (auto simp: stays_ok_def)
qed

end
