(* ===== verification/Plugin_Cache.thy ===== *)
theory Plugin_Cache
  imports Plugin_Machine Dircache_Theorems
begin

text \<open>
  The directory cache as the entry points use it: which listings a call that changes the share removes,
  and that the names it was about are not answered from the cache any more.
\<close>

subsection \<open>A connection with a cache\<close>

text \<open>The handle is that of a connection whose resource has the cache \<open>a\<close>.\<close>

definition uses_cache :: "'w plugin \<Rightarrow> nat \<Rightarrow> nat \<Rightarrow> bool" where
  "uses_cache p h a \<longleftrightarrow> (\<exists>c r. conn_of p h = Some (c, r) \<and> pdc r = Some a)"

definition connected :: "'w plugin \<Rightarrow> nat \<Rightarrow> bool" where
  "connected p h \<longleftrightarrow> (\<exists>c r. conn_of p h = Some (c, r))"

text \<open>What a step inside an entry point that is not about the cache leaves alone.\<close>

definition same_cache :: "nat \<Rightarrow> 'w plugin \<Rightarrow> 'w plugin \<Rightarrow> bool" where
  "same_cache h p p' \<longleftrightarrow> p_mem p' = p_mem p \<and> (connected p h \<longrightarrow> connected p' h) \<and>
     (\<forall>a. uses_cache p' h a = uses_cache p h a)"

lemma same_cache_refl [simp]: "same_cache h p p"
  by (simp add: same_cache_def)

lemma same_cache_trans: "same_cache h p q \<Longrightarrow> same_cache h q r \<Longrightarrow> same_cache h p r"
  by (auto simp: same_cache_def)

lemma conn_of_fields [simp]:
  "conn_of (p\<lparr>p_mutex := n\<rparr>) h = conn_of p h" "conn_of (p\<lparr>p_world := w\<rparr>) h = conn_of p h"
  "conn_of (p\<lparr>p_mem := m\<rparr>) h = conn_of p h" "conn_of (LEAVE p) h = conn_of p h"
  by (simp_all add: conn_of_def)

lemma uses_cache_fields [simp]:
  "uses_cache (p\<lparr>p_mutex := n\<rparr>) h a = uses_cache p h a" "uses_cache (p\<lparr>p_world := w\<rparr>) h a = uses_cache p h a"
  "uses_cache (p\<lparr>p_mem := m\<rparr>) h a = uses_cache p h a" "uses_cache (LEAVE p) h a = uses_cache p h a"
  by (simp_all add: uses_cache_def)

lemma connected_fields [simp]:
  "connected (p\<lparr>p_mutex := n\<rparr>) h = connected p h" "connected (p\<lparr>p_world := w\<rparr>) h = connected p h"
  "connected (p\<lparr>p_mem := m\<rparr>) h = connected p h" "connected (LEAVE p) h = connected p h"
  by (simp_all add: connected_def)

lemma same_cache_fields [simp]:
  "same_cache h p (q\<lparr>p_world := w\<rparr>) = same_cache h p q" "same_cache h p (LEAVE q) = same_cache h p q"
  "same_cache h (p\<lparr>p_mutex := n\<rparr>) q = same_cache h p q" "same_cache h p (q\<lparr>p_mutex := n\<rparr>) = same_cache h p q"
  "same_cache h (LEAVE p) q = same_cache h p q"
  by (simp_all add: same_cache_def)

named_theorems cache_steps

lemma parse_path_cache [cache_steps]: "parse_path S p h path = Some (rc, out, p') \<Longrightarrow> same_cache h p p'"
  by (auto simp: parse_path_def same_cache_def uses_cache_def connected_def conn_of_Some elim!: bindE dest!: pathparser_keeps)

lemma on_cli_cache [cache_steps]: "on_cli p h f = Some (rc, p') \<Longrightarrow> same_cache h p p'"
  by (auto simp: on_cli_def case_prod_beta elim!: bindE)

lemma path_call_cache [cache_steps]: "path_call S p h path f = Some (rc, out, p') \<Longrightarrow> same_cache h p p'"
  by (auto simp: path_call_def elim!: bindE split: if_split_asm dest!: parse_path_cache on_cli_cache
      intro: same_cache_trans)

lemma helperEASet_cache [cache_steps]: "helperEASet S cl feas path p = Some (rc, p') \<Longrightarrow> same_cache h p p'"
  by (auto simp: helperEASet_def ENTER_Some elim!: bindE split: option.split_asm if_split_asm)

lemma set_file_cache [cache_steps]: "set_file p h f = Some p' \<Longrightarrow> same_cache h p p'"
  by (auto simp: set_file_def same_cache_def uses_cache_def connected_def conn_of_Some elim!: bindE)

lemma on_file_cache [cache_steps]: "on_file p h f = Some (rc, p') \<Longrightarrow> same_cache h p p'"
  by (auto simp: on_file_def case_prod_beta same_cache_def uses_cache_def connected_def conn_of_Some elim!: bindE)

lemma FileEASet_cache [cache_steps]: "NdpFileEASet S p h feas = Some (rc, p') \<Longrightarrow> same_cache h p p'"
  by (auto simp: NdpFileEASet_def ENTER_Some if_open_def elim!: bindE split: option.split_asm if_split_asm)

lemma smbopen_try_cache [cache_steps]:
  "smbopen_try S p h name flags md attr = Some (rc, p') \<Longrightarrow> same_cache h p p'"
  by (auto simp: smbopen_try_def elim!: bindE split: if_split_asm dest!: cache_steps)
    (meson same_cache_trans)+

subsection \<open>Calls that change something on the share\<close>

text \<open>The removal of the listings of one directory, and of several, from a view.\<close>

definition s_drop :: "'a helpers_scheme \<Rightarrow> string \<Rightarrow> listing list \<Rightarrow> listing list" where
  "s_drop E path ls = filter (\<lambda>l. \<not> s_matches E (parent_of E path) l) ls"

definition dropped :: "'a helpers_scheme \<Rightarrow> nat \<Rightarrow> string list \<Rightarrow> view \<Rightarrow> writers \<Rightarrow> dcmem \<Rightarrow> bool" where
  "dropped E a paths v P m \<longleftrightarrow>
     (\<exists>v'. represents m a v' P \<and> same_settings v v' \<and> v_list v' = fold (s_drop E) paths (v_list v))"

lemma invalidate_dropped:
  assumes "invalidate S p h path = Some p'" "uses_cache p h a" "dropped S a paths v P (p_mem p)"
  shows "dropped S a (paths @ [path]) v P (p_mem p')" "uses_cache p' h a"
proof -
  from assms(1,2) obtain m where m: "dircache_invalidate S (p_mem p) (Some a) path True = Some m" "p' = p\<lparr>p_mem := m\<rparr>"
    by (auto simp: invalidate_def uses_cache_def bind_Some_iff)
  from assms(3) obtain v1 where v1: "represents (p_mem p) a v1 P" "same_settings v v1"
    "v_list v1 = fold (s_drop S) paths (v_list v)" by (auto simp: dropped_def)
  from invalidate_rep [OF v1(1), of S path True] m(1) have
    "represents m a (s_unlock (s_invalidate S (s_lock S v1) (parent_of S path))) P" by auto
  with v1 show "dropped S a (paths @ [path]) v P (p_mem p')"
    by (auto simp: dropped_def m(2) s_invalidate_def s_drop_def same_settings_def)
  show "uses_cache p' h a" using assms(2) m(2) by simp
qed

lemma dropped_same: "same_cache h p p' \<Longrightarrow> dropped S a paths v P (p_mem p) \<Longrightarrow> dropped S a paths v P (p_mem p')"
  by (simp add: same_cache_def)

text \<open>The calls that change a name, an entry or a file, with the names whose directories they touch.\<close>

definition changes :: "'w plugin \<Rightarrow> ndp_call \<Rightarrow> (nat \<times> string list) option" where
  "changes p call = (case call of
       SetPathInfo h pfi path \<Rightarrow> Some (h, [path])
     | ForceDelete h path \<Rightarrow> Some (h, [path])
     | DeleteDir h path \<Rightarrow> Some (h, [path])
     | CreateDir h path feas \<Rightarrow> Some (h, [path])
     | Move h dst src \<Rightarrow> Some (h, [src, dst])
     | OpenCreate h path md a feas \<Rightarrow> Some (h, [path])
     | FileSetInfo h pfi \<Rightarrow> map_option (\<lambda>c. (h, [f_fullname (cfile c)])) (p_con p h)
     | FileWrite h buf n \<Rightarrow> map_option (\<lambda>c. (h, [f_fullname (cfile c)])) (p_con p h)
     | _ \<Rightarrow> None)"

lemma changed_dropped:
  assumes "invalidate S p h path = Some p1" "uses_cache p h a" "represents (p_mem p) a v P"
    "same_cache h p1 p'"
  shows "dropped S a [path] v P (p_mem p')"
proof -
  have "dropped S a [] v P (p_mem p)" using assms(3) by (auto simp: dropped_def same_settings_def)
  from invalidate_dropped [OF assms(1,2) this] dropped_same [OF assms(4)] show ?thesis by simp
qed

text \<open>
  Every such call invalidates its names one after the other and does nothing to the cache afterwards,
  whatever the server answers.
\<close>

definition mutex_free :: "('w, 'x) ndp_scheme \<Rightarrow> 'w plugin \<Rightarrow> bool" where
  "mutex_free S p \<longleftrightarrow> fsphRequestMutex S SEM_INDEFINITE_WAIT (p_mutex p) = err S NO_ERROR"

definition invalidated :: "('w, 'x) ndp_scheme \<Rightarrow> 'w plugin \<Rightarrow> nat \<Rightarrow> string \<Rightarrow> 'w plugin \<Rightarrow> bool" where
  "invalidated S p h path p' \<longleftrightarrow> (\<exists>q. invalidate S (p\<lparr>p_mutex := Suc (p_mutex p)\<rparr>) h path = Some q \<and> same_cache h q p')"

lemma path_changes:
  assumes "mutex_free S p"
  shows "NdpSetPathInfo S p h pfi path = Some (rc, p') \<Longrightarrow> invalidated S p h path p'"
    "NdpForceDelete S p h path = Some (rc, p') \<Longrightarrow> invalidated S p h path p'"
    "NdpDeleteDir S p h path = Some (rc, p') \<Longrightarrow> invalidated S p h path p'"
  using assms
  by (auto simp: NdpSetPathInfo_def NdpForceDelete_def NdpDeleteDir_def ENTER_def mutex_free_def
      invalidated_def elim!: bindE dest!: path_call_cache)

lemma CreateDir_changes:
  assumes "mutex_free S p" "NdpCreateDir S p h path feas = Some (rc, p')"
  shows "invalidated S p h path p'"
  using assms
  by (auto simp: NdpCreateDir_def ENTER_def mutex_free_def invalidated_def Let_def elim!: bindE
      dest!: path_call_cache helperEASet_cache [where h = h] split: if_split_asm) (meson same_cache_trans)+

lemma smbopen_changes:
  assumes "mutex_free S p" "smbopen S p h path flags md attr feas = Some (rc, p')" "flags AND O_CREAT \<noteq> 0"
  shows "invalidated S p h path p'"
  using assms
  by (auto simp: smbopen_def ENTER_def mutex_free_def invalidated_def elim!: bindE
      dest!: smbopen_try_cache FileEASet_cache split: if_split_asm intro: same_cache_trans)

lemma FileSetInfo_changes:
  assumes "mutex_free S p" "NdpFileSetInfo S p h pfi = Some (rc, p')" "p_con p h = Some c"
  shows "invalidated S p h (f_fullname (cfile c)) p'"
  using assms
  by (auto simp: NdpFileSetInfo_def ENTER_def mutex_free_def invalidated_def conn_of_Some elim!: bindE
      dest!: set_file_cache split: if_split_asm)

lemma FileWrite_changes:
  assumes "mutex_free S p" "NdpFileWrite S p h buf n = Some (rc, cnt, p')" "p_con p h = Some c"
  shows "invalidated S p h (f_fullname (cfile c)) p'"
proof -
  have put: "same_cache h q (q\<lparr>p_con := (p_con q)(h \<mapsto> c\<lparr>cfile := fl\<rparr>)\<rparr>)"
    if "invalidate S (p\<lparr>p_mutex := Suc (p_mutex p)\<rparr>) h path = Some q" for q fl path
    using invalidate_fields [OF that] assms(3)
    by (auto simp: same_cache_def uses_cache_def connected_def conn_of_def bind_Some_iff)
  show ?thesis using assms put
    by (auto simp: NdpFileWrite_def ENTER_def mutex_free_def invalidated_def conn_of_Some
        case_prod_beta Let_def elim!: bindE split: if_split_asm)
qed

lemma Move_changes:
  assumes "mutex_free S p" "NdpMove S p h dst src = Some (rc, p')"
  shows "\<exists>q q'. invalidate S (p\<lparr>p_mutex := Suc (p_mutex p)\<rparr>) h src = Some q \<and>
    invalidate S q h dst = Some q' \<and> same_cache h q' p'"
  using assms
  by (auto simp: NdpMove_def ENTER_def mutex_free_def Let_def elim!: bindE
      dest!: parse_path_cache on_cli_cache split: if_split_asm intro: same_cache_trans)

lemma change_drops:
  assumes "uses_cache p h a" "represents (p_mem p) a v P" "mutex_free S p"
    "changes p call = Some (h, paths)" "ndp_run S call p = Some (rc, p')"
  shows "dropped S a paths v P (p_mem p')"
proof (cases "\<exists>path. paths = [path] \<and> invalidated S p h path p'")
  case True
  then show ?thesis using changed_dropped [OF _ _ _ ] assms(1,2)
    by (auto simp: invalidated_def intro!: changed_dropped)
next
  case False
  note facts = path_changes CreateDir_changes smbopen_changes FileSetInfo_changes FileWrite_changes
  from False assms(3-5) obtain src dst where call: "call = Move h dst src" "paths = [src, dst]"
    by (cases call) (auto simp: changes_def ndp_run_def code_state_Some NdpOpenCreate_def O_CREAT_def O_EXCL_def
        dest!: facts [OF assms(3)])
  with assms(5) have "NdpMove S p h dst src = Some (rc, p')" by (simp add: ndp_run_def)
  from Move_changes [OF assms(3) this] obtain q q' where
    q: "invalidate S (p\<lparr>p_mutex := Suc (p_mutex p)\<rparr>) h src = Some q"
    "invalidate S q h dst = Some q'" "same_cache h q' p'" by blast
  have "dropped S a [] v P (p_mem (p\<lparr>p_mutex := Suc (p_mutex p)\<rparr>))"
    using assms(2) by (auto simp: dropped_def same_settings_def)
  from invalidate_dropped [OF q(1) _ this] assms(1) have "dropped S a [src] v P (p_mem q)" "uses_cache q h a" by simp_all
  from invalidate_dropped [OF q(2) this(2,1)] dropped_same [OF q(3)] show ?thesis by (simp add: call)
qed

subsection \<open>Names that are not found any more\<close>

lemma fold_s_drop: "fold (s_drop E) paths ls = filter (\<lambda>l. \<forall>path \<in> set paths. \<not> s_matches E (parent_of E path) l) ls"
  by (induction paths arbitrary: ls) (auto simp: s_drop_def intro!: filter_cong)

lemma s_find_in_none: "\<forall>l \<in> set ls. \<not> s_matches E parent l \<Longrightarrow> s_find_in E t ls parent name = None"
  by (induction ls) auto

lemma dropped_not_found:
  assumes "dropped S a paths v P m" "path \<in> set paths"
  shows "\<exists>m'. dircache_find_path S t m (Some a) path = Some (None, m')"
proof -
  from assms(1) obtain v' where v': "represents m a v' P" "v_list v' = fold (s_drop S) paths (v_list v)"
    by (auto simp: dropped_def)
  have "s_find_path S t v' path = None"
    using assms(2) by (auto simp: s_find_path_def v'(2) fold_s_drop intro!: s_find_in_none)
  with find_path_rep [OF v'(1), of S t path] show ?thesis by auto
qed

end
