(* ===== verification/Ea_Safety.thy ===== *)
theory Ea_Safety
  imports Ea_Theorems Plugin_Ea
begin

text \<open>
  When the walks over attribute lists stay inside their buffers: a listing always does, a selection does
  when the attributes fit the block they were listed into, and setting does for the lists in which the
  headers that are read, also the one behind the list, lead to an end.
\<close>

subsection \<open>Listing\<close>

lemma wrmem_ok: "pos + length bytes \<le> length buf \<Longrightarrow> \<exists>buf'. wrmem buf pos bytes = Some buf' \<and> length buf' = length buf"
  by (simp add: wrmem_def)

lemma rd32_ok: "4 \<le> length buf \<Longrightarrow> \<exists>n. rd32 buf 0 = Some n"
  by (auto simp: rd32_def rd16_def rd8_def)

text \<open>An attribute that does not fit is counted, and after it nothing is written any more.\<close>

lemma unilistea_loop_returns:
  "pos \<le> gotsize \<Longrightarrow> cb \<le> length buf \<Longrightarrow>
     \<exists>n buf'. unilistea_loop cb gotsize pos buf eas = Some (n, buf') \<and> length buf' = length buf"
proof (induction eas arbitrary: gotsize pos buf)
  case (Cons ea eas)
  let ?g = "gotsize + 4 + length (ea_name ea) + length (ea_value ea) + 1"
  show ?case
  proof (cases "length (ea_name ea) > 0xFF \<or> length (ea_value ea) > 0xFFFF \<or> cb < ?g")
    case True
    with Cons.IH [OF Cons.prems] Cons.IH [of pos ?g buf] Cons.prems show ?thesis by (auto simp: Let_def)
  next
    case False
    from False Cons.prems wrmem_ok [of pos "bchr 0 # bchr (length (ea_name ea)) # le16 (length (ea_value ea))" buf]
    obtain b1 where 1: "wrmem buf pos (bchr 0 # bchr (length (ea_name ea)) # le16 (length (ea_value ea))) = Some b1"
      "length b1 = length buf" by auto
    from False Cons.prems 1(2) wrmem_ok [of "pos + 4" "ea_name ea @ [NUL]" b1] obtain b2 where
      2: "wrmem b1 (pos + 4) (ea_name ea @ [NUL]) = Some b2" "length b2 = length buf" by auto
    from False Cons.prems 2(2) wrmem_ok [of "pos + 4 + length (ea_name ea) + 1" "ea_value ea" b2] obtain b3 where
      3: "wrmem b2 (pos + 4 + length (ea_name ea) + 1) (ea_value ea) = Some b3" "length b3 = length buf" by auto
    have "pos + 4 + length (ea_name ea) + 1 + length (ea_value ea) \<le> ?g" "cb \<le> length b3"
      using Cons.prems 3(2) by simp_all
    from Cons.IH [OF this] 1 2 3 False show ?thesis by (auto simp: Let_def not_less)
  qed
qed simp

lemma unilistea_returns:
  assumes "4 \<le> cb" "cb \<le> length buf"
  shows "\<exists>rc buf' w'. unilistea S c fname buf cb w = Some (rc, buf', w') \<and> length buf' = length buf"
proof -
  from wrmem_ok [of 0 "le32 0" buf] assms obtain b1 where
    1: "wrmem buf 0 (le32 0) = Some b1" "length b1 = length buf" by auto
  obtain st eas w1 where q: "cli_get_ea_list_path S c fname w = (st, eas, w1)" by (metis surj_pair)
  from unilistea_loop_returns [of 4 4 cb b1 eas] assms(2) 1(2) obtain n b2 where
    2: "unilistea_loop cb 4 4 b1 eas = Some (n, b2)" "length b2 = length buf" by auto
  from wrmem_ok [of 0 "le32 n" b2] assms 2(2) obtain b3 where
    "wrmem b2 0 (le32 n) = Some b3" "length b3 = length buf" by auto
  with 1 2 q show ?thesis by (simp add: unilistea_def)
qed

lemma listea_returns:
  assumes "length blk = cbBuffer"
  shows "\<exists>rc src w'. smbwrp_listea S cl fname blk cbBuffer w = Some (rc, src, w') \<and> length src = cbBuffer"
    "\<exists>rc src w'. smbwrp_flistea S cl fl blk cbBuffer w = Some (rc, src, w') \<and> length src = cbBuffer"
  using unilistea_returns [of cbBuffer blk S _ _ w] assms
  by (auto simp: smbwrp_listea_def smbwrp_flistea_def cbBuffer_def split: option.split)

lemma ea_size_returns:
  assumes "4 \<le> length src" shows "\<exists>rc' cb. ea_size S rc src = Some (rc', cb)"
proof -
  from wrmem_ok [of 0 "le32 4" src] assms obtain s1 where "wrmem src 0 (le32 4) = Some s1" "4 \<le> length s1" by auto
  with rd32_ok [OF assms] rd32_ok [of s1] show ?thesis by (auto simp: ea_size_def)
qed

subsection \<open>Selecting\<close>

text \<open>
  The server's attributes fit the block (an OS/2 server has at most 64 KB of them), and the codes for
  errors are not those for success.
\<close>

definition eas_fit :: "('w, 'x) samba_scheme \<Rightarrow> bool" where
  "eas_fit S \<longleftrightarrow> os2_codes (err S) \<and>
     (\<forall>c fname w eas w'. cli_get_ea_list_path S c fname w = (0, eas, w') \<longrightarrow>
        list_all ea_ok (kept eas) \<and> feas_size (kept eas) \<le> cbBuffer)"

text \<open>The caller's buffer is as long as its first field says, and the names asked for are a packed list.\<close>

definition ea_dest_ok :: "'a helpers_scheme \<Rightarrow> string option \<Rightarrow> string \<Rightarrow> bool" where
  "ea_dest_ok E gea dst \<longleftrightarrow> (\<exists>sel. gea_means E gea sel) \<and>
     4 \<le> length dst \<and> (\<exists>n. rd32 dst 0 = Some n \<and> n \<le> length dst)"

lemma buildFEALIST_returns:
  assumes "ea_dest_ok E gea dst" "list_all ea_ok eas" "feas_size eas < 4294967296"
  shows "\<exists>rc dst'. buildFEALIST E (fealist_bytes eas @ ys) gea dst = Some (rc, dst')"
proof -
  from assms(1) obtain sel n where d: "gea_means E gea sel" "4 \<le> length dst" "rd32 dst 0 = Some n" "n \<le> length dst"
    unfolding ea_dest_ok_def by blast
  have cb: "rd32 (fealist_bytes eas @ ys) 0 = Some (feas_size eas)"
    using rd32_append [of 0 "[]" "feas_size eas" "concat (map fea_bytes eas) @ ys"] assms(3)
    by (simp add: fealist_bytes_def)
  have four: "(4 :: nat) = length (le32 (feas_size eas))" by simp
  have "4 \<le> n \<longrightarrow> (4 :: nat) = 4" by simp
  from buildFEALIST_loop_counts [OF d(1) assms(2) four this d(4), of ys] obtain dst1 where
    1: "buildFEALIST_loop E (fealist_bytes eas @ ys) (feas_size eas) gea 4 n 4 4 dst =
      Some (4 + sum_list (map fea_size (filter sel eas)), dst1)" "length dst1 = length dst"
    by (auto simp: fealist_bytes_def feas_size_def)
  from wrmem_ok [of 0 "le32 (4 + sum_list (map fea_size (filter sel eas)))" dst1] 1 d(2,3) cb show ?thesis
    by (auto simp: buildFEALIST_def)
qed

lemma buildFEALIST_empty:
  assumes "4 \<le> length dst" shows "\<exists>rc dst'. buildFEALIST E (le32 0 @ ys) gea dst = Some (rc, dst')"
proof -
  have "rd32 (le32 0 @ ys) 0 = Some 0" using rd32_append [of 0 "[]" 0 ys] by simp
  moreover have "buildFEALIST_loop E (le32 0 @ ys) 0 gea 4 n 4 4 dst = Some (4, dst)" for n
    by (subst buildFEALIST_loop.simps) simp
  ultimately show ?thesis using rd32_ok [OF assms] wrmem_ok [of 0 "le32 4" dst] assms
    by (auto simp: buildFEALIST_def)
qed

text \<open>What a listing without an error leaves in the block can be selected from.\<close>

lemma unilistea_query:
  assumes "eas_fit S" "ea_dest_ok S gea dst" "length blk = cbBuffer"
    "unilistea S c fname blk cbBuffer w = Some (0, src, w')"
  shows "\<exists>rc dst'. buildFEALIST S src gea dst = Some (rc, dst')"
proof -
  obtain st eas w1 where q: "cli_get_ea_list_path S c fname w = (st, eas, w1)" by (metis surj_pair)
  show ?thesis
  proof (cases "st = 0")
    case True
    with q assms(1) have eas: "list_all ea_ok (kept eas)" "feas_size (kept eas) \<le> cbBuffer"
      unfolding eas_fit_def by blast+
    from unilistea_fits [OF _ eas(2), of S c fname w w1 blk] q True assms(3,4)
    have "src = fealist_bytes (kept eas) @ drop (feas_size (kept eas)) blk" by simp
    with buildFEALIST_returns [OF assms(2) eas(1)] eas(2) show ?thesis by (simp add: cbBuffer_def)
  next
    case False
    have "wrmem blk 0 (le32 0) = Some (le32 0 @ drop 4 blk)" using assms(3) by (simp add: wrmem_def cbBuffer_def)
    with q False assms(4) have "src = le32 0 @ drop 4 blk" by (simp add: unilistea_def NT_STATUS_IS_OK_def)
    with buildFEALIST_empty assms(2) show ?thesis by (auto simp: ea_dest_ok_def)
  qed
qed

lemma listea_query:
  assumes "eas_fit S" "ea_dest_ok S gea dst" "length blk = cbBuffer"
  shows "smbwrp_listea S cl fname blk cbBuffer w = Some (0, src, w') \<Longrightarrow>
      \<exists>rc dst'. buildFEALIST S src gea dst = Some (rc, dst')"
    "smbwrp_flistea S cl fl blk cbBuffer w = Some (0, src, w') \<Longrightarrow>
      \<exists>rc dst'. buildFEALIST S src gea dst = Some (rc, dst')"
  using unilistea_query [OF assms] assms(1)
  by (auto simp: smbwrp_listea_def smbwrp_flistea_def eas_fit_def split: option.split_asm)

lemma ea_query_returns:
  assumes "4 \<le> length dst" "4 \<le> length src" "rc = 0 \<Longrightarrow> \<exists>rc' dst'. buildFEALIST S src gea dst = Some (rc', dst')"
  shows "\<exists>rc' dst'. ea_query S rc src gea dst = Some (rc', dst')"
proof -
  have "\<exists>dst'. wrmem dst 0 (le32 n) = Some dst'" for n using assms(1) by (simp add: wrmem_def)
  then obtain f where "\<And>n. wrmem dst 0 (le32 n) = Some (f n)" by metis
  with assms(3) rd32_ok [OF assms(2)] show ?thesis by (auto simp: ea_query_def)
qed

subsection \<open>Setting\<close>

text \<open>
  Every element that is set can be read, and so can the header of the next, until the count the code
  keeps has reached the length of the list.
\<close>

function ea_walk :: "string \<Rightarrow> nat \<Rightarrow> nat \<Rightarrow> nat \<Rightarrow> bool" where
  "ea_walk buf cb pos ddone =
     (ddone < cb \<longrightarrow>
        (case rd_fea buf pos of None \<Rightarrow> False
         | Some (n, v) \<Rightarrow> rdstr buf (pos + 4) \<noteq> None \<and> rdmem buf (pos + 4 + n + 1) v \<noteq> None \<and>
             (case rd_fea buf (pos + 4 + n + 1 + v) of None \<Rightarrow> False
              | Some (n', v') \<Rightarrow> ea_walk buf cb (pos + 4 + n + 1 + v) (ddone + 4 + n' + 1 + v'))))"
  by pat_completeness auto
termination
  by (relation "measure (\<lambda>(buf, cb, pos, ddone). cb - ddone)") auto

declare ea_walk.simps [simp del]

definition settable :: "string option \<Rightarrow> bool" where
  "settable feas \<longleftrightarrow> (case feas of None \<Rightarrow> True
     | Some buf \<Rightarrow> (case rd32 buf 0 of None \<Rightarrow> False | Some cb \<Rightarrow> cb \<le> 4 \<or> ea_walk buf cb 4 4))"

lemma settable_None [simp]: "settable None"
  by (simp add: settable_def)

lemma settable_Some:
  assumes "settable (Some buf)"
  obtains cb where "rd32 buf 0 = Some cb" "cb \<le> 4 \<or> ea_walk buf cb 4 4"
  using assms by (auto simp: settable_def split: option.split_asm)

lemma set_loops_return:
  assumes "ea_walk buf cb pos ddone"
  shows "\<exists>rc w'. helperEASet_loop S cl path buf cb pos ddone w = Some (rc, w')"
    "\<exists>rc w'. fset_loop S cl fl buf cb pos ddone w = Some (rc, w')"
proof -
  have "(\<exists>rc w'. helperEASet_loop S cl path buf cb pos ddone w = Some (rc, w')) \<and>
      (\<exists>rc w'. fset_loop S cl fl buf cb pos ddone w = Some (rc, w'))"
    using assms
  proof (induction buf cb pos ddone arbitrary: w rule: ea_walk.induct)
    case (1 buf cb pos ddone)
    note step = helperEASet_loop.simps [of S cl path buf cb pos ddone w] fset_loop.simps [of S cl fl buf cb pos ddone w]
    show ?case
    proof (cases "ddone < cb")
      case True
      with "1.prems" obtain n v name val n' v' where e: "rd_fea buf pos = Some (n, v)" "rdstr buf (pos + 4) = Some name"
        "rdmem buf (pos + 4 + n + 1) v = Some val" "rd_fea buf (pos + 4 + n + 1 + v) = Some (n', v')"
        "ea_walk buf cb (pos + 4 + n + 1 + v) (ddone + 4 + n' + 1 + v')"
        by (subst (asm) ea_walk.simps) (auto split: option.split_asm)
      from e(1,4) have IH: "\<And>w. ((\<exists>rc w'. helperEASet_loop S cl path buf cb (pos + 4 + n + 1 + v) (ddone + 4 + n' + 1 + v') w = Some (rc, w')) \<and>
          (\<exists>rc w'. fset_loop S cl fl buf cb (pos + 4 + n + 1 + v) (ddone + 4 + n' + 1 + v') w = Some (rc, w')))"
        by (intro "1.IH" [OF True, of "(n, v)" n v "(n', v')" n' v'] e(5)) simp_all
      with step True e(1-4) show ?thesis by (simp add: Let_def case_prod_beta del: add_Suc_right)
    qed (use step in simp)
  qed
  then show "\<exists>rc w'. helperEASet_loop S cl path buf cb pos ddone w = Some (rc, w')"
    "\<exists>rc w'. fset_loop S cl fl buf cb pos ddone w = Some (rc, w')" by blast+
qed

text \<open>Such a walk is what the loop needs: with a server that accepts every attribute it is the same.\<close>

lemma ea_walk_exact:
  assumes "sets_succeed S cl path"
  shows "ea_walk buf cb pos ddone \<longleftrightarrow> helperEASet_loop S cl path buf cb pos ddone w \<noteq> None"
proof (induction buf cb pos ddone arbitrary: w rule: ea_walk.induct)
  case (1 buf cb pos ddone)
  note step = helperEASet_loop.simps [of S cl path buf cb pos ddone w] ea_walk.simps [of buf cb pos ddone]
  have ok: "fst (smbwrp_setea S cl path name val w) = 0" for name val w using assms by (simp add: sets_succeed_def)
  show ?case
  proof (cases "ddone < cb \<and> (\<exists>n v n' v'. rd_fea buf pos = Some (n, v) \<and> rdstr buf (pos + 4) \<noteq> None \<and>
      rdmem buf (pos + 4 + n + 1) v \<noteq> None \<and> rd_fea buf (pos + 4 + n + 1 + v) = Some (n', v'))")
    case True
    then obtain n v name val n' v' where e: "ddone < cb" "rd_fea buf pos = Some (n, v)" "rdstr buf (pos + 4) = Some name"
      "rdmem buf (pos + 4 + n + 1) v = Some val" "rd_fea buf (pos + 4 + n + 1 + v) = Some (n', v')" by auto
    then have "\<And>w. ea_walk buf cb (pos + 4 + n + 1 + v) (ddone + 4 + n' + 1 + v') \<longleftrightarrow>
        helperEASet_loop S cl path buf cb (pos + 4 + n + 1 + v) (ddone + 4 + n' + 1 + v') w \<noteq> None"
      by (intro "1.IH" [of "(n, v)" n v "(n', v')" n' v']) simp_all
    with step e ok show ?thesis by (simp add: Let_def case_prod_beta del: add_Suc_right)
  next
    case False
    then show ?thesis using step ok
      by (auto simp: Let_def case_prod_beta bind_eq_None_conv split: option.split)
  qed
qed

text \<open>A list that is followed by what looks like an element at least as large as its first.\<close>

lemma settable_list:
  assumes "list_all ea_ok (ea # eas)" "feas_size (ea # eas) < 4294967296"
    "rd_fea (fealist_bytes (ea # eas) @ ys) (feas_size (ea # eas)) = Some (n, v)" "fea_size ea \<le> 4 + n + 1 + v"
  shows "settable (Some (fealist_bytes (ea # eas) @ ys))"
proof -
  let ?cb = "feas_size (ea # eas)"
  have s: "sets_succeed samba0 (Some 1) ''f''"
    by (simp add: sets_succeed_def smbwrp_setea_def status_rc_def samba0_simps NT_STATUS_IS_OK_def)
  have "helperEASet_loop samba0 (Some 1) ''f'' (fealist_bytes (ea # eas) @ ys) ?cb 4 4 () =
      Some (0, set_all samba0 (Some 1) ''f'' (ea # eas) ())"
    by (rule helperEASet_loop_all [OF s assms(1) _ assms(3)]) (use assms(4) in simp_all)
  then have "helperEASet_loop samba0 (Some 1) ''f'' (fealist_bytes (ea # eas) @ ys) ?cb 4 4 () \<noteq> None"
    by (rule ssubst) (rule option.distinct)
  then have "ea_walk (fealist_bytes (ea # eas) @ ys) ?cb 4 4" by (rule ea_walk_exact [OF s, THEN iffD2])
  moreover have "rd32 (fealist_bytes (ea # eas) @ ys) 0 = Some ?cb"
    using rd32_append [of 0 "[]" ?cb "concat (map fea_bytes (ea # eas)) @ ys"] assms(2)
    by (simp add: fealist_bytes_def)
  ultimately show ?thesis by (simp add: settable_def)
qed

definition ealist0 :: string where
  "ealist0 = fealist_bytes [(''A'', ''xyz'')] @ fea_bytes (''BBB'', ''vvv'')"

lemma settable_ealist0: "settable (Some ealist0)"
  unfolding ealist0_def
proof (rule settable_list)
  show "rd_fea (fealist_bytes [(''A'', ''xyz'')] @ fea_bytes (''BBB'', ''vvv'')) (feas_size [(''A'', ''xyz'')]) =
      Some (length ''BBB'', length ''vvv'')"
    using rd_fea_append(1) [of _ "fealist_bytes [(''A'', ''xyz'')]" "''BBB''" "''vvv''" "[]"] by (simp add: ea_ok_def)
qed (simp_all add: ea_ok_def feas_size_def fea_size_def)

end
