(* ===== verification/Plugin_Returns.thy ===== *)
theory Plugin_Returns
  imports Plugin_Cache Ea_Safety
begin

text \<open>
  The calls on a path or on the file of a connection return on any answer of the server, and stay with
  their connection: no other connection, resource or cache is touched, and the cache of the resource is
  well formed afterwards.
\<close>

subsection \<open>What a call leaves alone\<close>

text \<open>
  From the state \<open>p\<close> to the state \<open>p'\<close> only the connection \<open>h\<close>, its resource and the cache of this
  resource have changed. The connection stays with its resource, and every resource keeps its cache
  with its depth. A
  file name that leaves room for the NUL in its array stays one that does.
\<close>

definition fits :: "smbwrp_file \<Rightarrow> bool" where
  "fits fl \<longleftrightarrow> length (f_fname fl) < 260"

definition same_conn :: "Connection \<Rightarrow> Connection \<Rightarrow> bool" where
  "same_conn c c' \<longleftrightarrow> pRes c' = pRes c \<and> (fits (cfile c) \<longrightarrow> fits (cfile c'))"

definition cache_of :: "'w plugin \<Rightarrow> nat \<Rightarrow> ptr" where
  "cache_of p h = do { (c, r) \<leftarrow> conn_of p h; pdc r }"

definition mem_kept :: "ptr \<Rightarrow> dcmem \<Rightarrow> dcmem \<Rightarrow> bool" where
  "mem_kept q m m' \<longleftrightarrow> apart q m m' \<and> mallocs m' = mallocs m \<and>
     (\<forall>a v P. q = Some a \<longrightarrow> represents m a v P \<longrightarrow> (\<exists>v' P'. represents m' a v' P' \<and> view_kept v v'))"

definition confined :: "nat \<Rightarrow> 'w plugin \<Rightarrow> 'w plugin \<Rightarrow> bool" where
  "confined h p p' \<longleftrightarrow> p_next p' = p_next p \<and> (\<forall>k. k \<noteq> h \<longrightarrow> p_con p' k = p_con p k) \<and>
     rel_option same_conn (p_con p h) (p_con p' h) \<and>
     (\<forall>x. map_option pRes (p_con p h) \<noteq> Some x \<longrightarrow> p_res p' x = p_res p x) \<and>
     (\<forall>x. map_option pdc (p_res p' x) = map_option pdc (p_res p x)) \<and>
     (\<forall>x. map_option cachedepth (p_res p' x) = map_option cachedepth (p_res p x)) \<and>
     mem_kept (cache_of p h) (p_mem p) (p_mem p')"

lemma mem_kept_refl [simp]: "mem_kept q m m"
  using view_kept_refl unfolding mem_kept_def by (blast intro: apart_refl)

lemma mem_kept_trans:
  assumes "mem_kept q m m'" "mem_kept q m' m''"
  shows "mem_kept q m m''"
proof -
  have "\<exists>v' P'. represents m'' a v' P' \<and> view_kept v v'" if "q = Some a" "represents m a v P" for a v P
  proof -
    from assms(1) that obtain v1 P1 where "represents m' a v1 P1" "view_kept v v1" unfolding mem_kept_def by blast
    moreover from assms(2) that(1) this(1) obtain v2 P2 where "represents m'' a v2 P2" "view_kept v1 v2"
      unfolding mem_kept_def by blast
    ultimately show ?thesis by (blast intro: view_kept_trans)
  qed
  with assms show ?thesis unfolding mem_kept_def by (auto intro: apart_trans)
qed

lemma uses_cache_of: "uses_cache p h a \<longleftrightarrow> cache_of p h = Some a"
  by (auto simp: uses_cache_def cache_of_def bind_Some_iff)

lemma same_conn_refl [simp]: "same_conn c c"
  by (simp add: same_conn_def)

lemma same_conn_trans: "rel_option same_conn a b \<Longrightarrow> rel_option same_conn b c \<Longrightarrow> rel_option same_conn a c"
  by (auto simp: rel_option_iff same_conn_def split: option.splits)

lemma confined_pRes: "confined h p p' \<Longrightarrow> map_option pRes (p_con p' k) = map_option pRes (p_con p k)"
  by (cases "k = h") (auto simp: confined_def rel_option_iff same_conn_def split: option.splits)

lemma cache_of_eq:
  "cache_of p h = Option.bind (Option.bind (map_option pRes (p_con p h)) (\<lambda>x. map_option pdc (p_res p x))) id"
  by (cases "p_con p h") (auto simp: cache_of_def conn_of_def split: Option.bind_split)

lemma confined_cache_of: "confined h p p' \<Longrightarrow> cache_of p' k = cache_of p k"
  by (simp add: cache_of_eq confined_pRes) (simp add: confined_def)

lemma connected_eq:
  "connected p h \<longleftrightarrow> Option.bind (map_option pRes (p_con p h)) (\<lambda>x. map_option pdc (p_res p x)) \<noteq> None"
  by (cases "p_con p h") (auto simp: connected_def conn_of_def bind_Some_iff)

lemma confined_connected: "confined h p p' \<Longrightarrow> connected p' k = connected p k"
  by (simp add: connected_eq confined_pRes) (simp add: confined_def)

lemma confined_refl [simp]: "confined h p p"
  by (auto simp: confined_def option.rel_refl)

lemma confined_trans: "confined h p q \<Longrightarrow> confined h q r \<Longrightarrow> confined h p r"
  using confined_cache_of [of h p q h] confined_pRes [of h p q h]
  unfolding confined_def by (auto intro: same_conn_trans mem_kept_trans)

text \<open>Steps that do not touch the memory of the caches.\<close>

definition local_step :: "nat \<Rightarrow> 'w plugin \<Rightarrow> 'w plugin \<Rightarrow> bool" where
  "local_step h p p' \<longleftrightarrow> p_next p' = p_next p \<and> p_mem p' = p_mem p \<and> (\<forall>k. k \<noteq> h \<longrightarrow> p_con p' k = p_con p k) \<and>
     rel_option same_conn (p_con p h) (p_con p' h) \<and>
     (\<forall>x. map_option pRes (p_con p h) \<noteq> Some x \<longrightarrow> p_res p' x = p_res p x) \<and>
     (\<forall>x. map_option pdc (p_res p' x) = map_option pdc (p_res p x)) \<and>
     (\<forall>x. map_option cachedepth (p_res p' x) = map_option cachedepth (p_res p x))"

lemma local_step_confined: "local_step h p p' \<Longrightarrow> confined h p p'"
  by (simp add: local_step_def confined_def)

subsection \<open>Calls that return\<close>

text \<open>The connection and its resource are there, and the cache, if there is one, is in order.\<close>

definition in_order :: "'w plugin \<Rightarrow> nat \<Rightarrow> bool" where
  "in_order p h \<longleftrightarrow> connected p h \<and> (\<forall>a. uses_cache p h a \<longrightarrow> (\<exists>v P. represents (p_mem p) a v P))"

lemma in_order_fields [simp]:
  "in_order (p\<lparr>p_mutex := n\<rparr>) h = in_order p h" "in_order (p\<lparr>p_world := w\<rparr>) h = in_order p h"
  "in_order (LEAVE p) h = in_order p h"
  by (simp_all add: in_order_def)

lemma in_orderE:
  assumes "in_order p h"
  obtains c r where "conn_of p h = Some (c, r)" "p_con p h = Some c" "p_res p (pRes c) = Some r"
  using assms by (auto simp: in_order_def connected_def conn_of_Some)


text \<open>A call that began in \<open>z\<close> and has got to \<open>p\<close>.\<close>

definition on_track :: "'w plugin \<Rightarrow> 'w plugin \<Rightarrow> nat \<Rightarrow> bool" where
  "on_track z p h \<longleftrightarrow> in_order p h \<and> confined h z p"

lemma on_track_start: "in_order p h \<Longrightarrow> on_track p p h"
  by (simp add: on_track_def)

lemma confined_fields [simp]:
  "confined h z (p\<lparr>p_mutex := n\<rparr>) = confined h z p" "confined h z (p\<lparr>p_world := w\<rparr>) = confined h z p"
  "confined h z (LEAVE p) = confined h z p"
  by (simp_all add: confined_def LEAVE_def)

lemma on_track_fields [simp]:
  "on_track z (p\<lparr>p_mutex := n\<rparr>) h = on_track z p h" "on_track z (p\<lparr>p_world := w\<rparr>) h = on_track z p h"
  "on_track z (LEAVE p) h = on_track z p h"
  by (simp_all add: on_track_def)

lemma on_trackE:
  assumes "on_track z p h"
  obtains c r where "conn_of p h = Some (c, r)" "p_con p h = Some c" "p_res p (pRes c) = Some r"
  using assms by (auto simp: on_track_def elim: in_orderE)

lemma on_track_step:
  assumes "confined h p p'" "on_track z p h"
  shows "on_track z p' h"
proof -
  have "\<exists>v P. represents (p_mem p') a v P" if "cache_of p' h = Some a" for a
  proof -
    have a: "cache_of p h = Some a" using that confined_cache_of [OF assms(1)] by simp
    with assms(2) obtain v P where "represents (p_mem p) a v P" by (auto simp: on_track_def in_order_def uses_cache_of)
    with assms(1) a show ?thesis unfolding confined_def mem_kept_def by blast
  qed
  with assms confined_connected [OF assms(1)] show ?thesis
    by (auto simp: on_track_def in_order_def uses_cache_of intro: confined_trans)
qed

lemma on_track_local: "local_step h p p' \<Longrightarrow> on_track z p h \<Longrightarrow> on_track z p' h"
  by (rule on_track_step [OF local_step_confined])

text \<open>A step on the memory of the cache of the connection.\<close>

lemma on_track_mem:
  assumes "on_track z p h" "mem_kept (cache_of p h) (p_mem p) m"
  shows "on_track z (p\<lparr>p_mem := m\<rparr>) h"
  by (rule on_track_step [OF _ assms(1)]) (simp add: confined_def assms(2) option.rel_refl)

text \<open>The steps.\<close>

lemma parse_path_local: "parse_path S p h path = Some (rc, out, p') \<Longrightarrow> local_step h p p'"
  by (auto simp: parse_path_def local_step_def conn_of_Some same_conn_def elim!: bindE dest!: pathparser_keeps)

lemma set_file_local:
  assumes "set_file p h f = Some p'" "\<And>fl. fits fl \<Longrightarrow> fits (f fl)"
  shows "local_step h p p'"
  using assms by (auto simp: set_file_def local_step_def same_conn_def elim!: bindE)

lemma on_file_local:
  assumes "on_file p h f = Some (rc, p')" "\<And>cl fl w. fits fl \<Longrightarrow> fits (fst (snd (f cl fl w)))"
  shows "local_step h p p'"
  using assms by (auto simp: on_file_def local_step_def same_conn_def case_prod_beta elim!: bindE)

lemma connect_on_local: "connect_on S p h = Some (rc, p') \<Longrightarrow> local_step h p p'"
  by (auto simp: connect_on_def local_step_def same_conn_def conn_of_Some case_prod_beta elim!: bindE)

lemma fits_fields [simp]:
  "fits (fl\<lparr>f_openattr := a\<rparr>) = fits fl" "fits (fl\<lparr>f_mtime := t\<rparr>) = fits fl"
  "fits (fl\<lparr>f_updatetime := u\<rparr>) = fits fl" "fits (fl\<lparr>f_fd := d\<rparr>) = fits fl"
  by (simp_all add: fits_def)

lemma file_fits [simp]:
  assumes "fits fl"
  shows "fits (fst (snd (smbwrp_open S cl fl w)))" "fits (fst (snd (smbwrp_close S cl fl w)))"
    "fits (fst (snd (smbwrp_lseek S cl fl wh off w)))" "fits (fst (snd (smbwrp_read S cl fl n w)))"
    "fits (fst (snd (smbwrp_write S cl fl b n w)))"
  using assms
  by (auto simp: fits_def smbwrp_open_def smbwrp_close_def smbwrp_lseek_def smbwrp_read_def smbwrp_write_def Let_def
      case_prod_beta split: option.split)

text \<open>The cache keeps its settings and stays within its depth.\<close>

lemma view_kept_locked: "view_kept v (s_unlock (s_lock E v))"
  by (rule view_kept_shorter) (simp_all add: same_settings_def s_lock_def s_unlock_def)

lemma view_kept_invalidate: "view_kept v (s_unlock (s_invalidate E (s_lock E v) path))"
  by (rule view_kept_shorter) (auto simp: s_invalidate_def same_settings_def s_lock_def s_unlock_def)

lemma invalidate_kept:
  assumes "represents m a v0 P0"
  shows "\<exists>m'. dircache_invalidate S m (Some a) path True = Some m' \<and> mem_kept (Some a) m m'"
proof -
  from invalidate_rep [OF assms, of S path True] obtain m' where
    m': "dircache_invalidate S m (Some a) path True = Some m'" "mallocs m' = mallocs m" "apart (Some a) m m'" by blast
  have "\<exists>v' P'. represents m' a v' P' \<and> view_kept v v'" if "represents m a v P" for v P
    using invalidate_rep [OF that, of S path True] m'(1) view_kept_invalidate by auto
  with m' show ?thesis by (auto simp: mem_kept_def)
qed

lemma find_path_kept:
  assumes "represents m a v0 P0"
  shows "\<exists>hit m'. dircache_find_path S timesec m (Some a) path = Some (hit, m') \<and> mem_kept (Some a) m m'"
proof -
  from find_path_rep [OF assms, of S timesec path] obtain hit m' where
    m': "dircache_find_path S timesec m (Some a) path = Some (hit, m')" "mallocs m' = mallocs m" "apart (Some a) m m'" by blast
  have "\<exists>v' P'. represents m' a v' P' \<and> view_kept v v'" if "represents m a v P" for v P
    using find_path_rep [OF that, of S timesec path] m'(1) by (cases "has_wildcard S path") (auto intro: view_kept_locked)
  with m' show ?thesis by (auto simp: mem_kept_def)
qed

lemma on_track_represents:
  "on_track z p h \<Longrightarrow> cache_of p h = Some a \<Longrightarrow> \<exists>v P. represents (p_mem p) a v P"
  by (auto simp: on_track_def in_order_def uses_cache_of)

named_theorems returns

lemma invalidate_returns [returns]: "on_track z p h \<Longrightarrow> \<exists>p'. invalidate S p h path = Some p' \<and> on_track z p' h"
proof -
  assume ok: "on_track z p h"
  then obtain c r where c: "conn_of p h = Some (c, r)" by (rule on_trackE)
  show ?thesis
  proof (cases "pdc r")
    case None
    with c ok show ?thesis by (simp add: invalidate_def dircache_invalidate_def)
  next
    case (Some a)
    with c have a: "cache_of p h = Some a" by (simp add: cache_of_def)
    with on_track_represents [OF ok] invalidate_kept [of "p_mem p" a] obtain m where
      m: "dircache_invalidate S (p_mem p) (Some a) path True = Some m" "mem_kept (Some a) (p_mem p) m" by blast
    with on_track_mem [OF ok, of m] c Some a m show ?thesis by (simp add: invalidate_def)
  qed
qed

lemma parse_path_returns [returns]:
  assumes "on_track z p h" "strchr_ok S" "length path < 256"
  shows "\<exists>rc out p'. parse_path S p h path = Some (rc, out, p') \<and> length out \<le> 257 \<and>
    length out \<le> max 12 (Suc (length path)) \<and> on_track z p' h"
proof -
  from assms(1) obtain c r where c: "conn_of p h = Some (c, r)" by (rule on_trackE)
  obtain rc out r' c' w' where P: "pathparser S r c path (p_world p) = Some (rc, out, r', c', w')" "length out \<le> 257"
    "length out \<le> max 12 (Suc (length path))" using pathparser_returns [OF assms(2,3)] .
  then have run: "parse_path S p h path = Some (rc, out,
      p\<lparr>p_res := (p_res p)(pRes c \<mapsto> r'), p_con := (p_con p)(h \<mapsto> c'), p_world := w'\<rparr>)" (is "_ = Some (_, _, ?p)")
    using c by (simp add: parse_path_def)
  from on_track_local [OF parse_path_local [OF this] assms(1)] run P(2,3) show ?thesis by blast
qed

lemma on_cli_returns [returns]: "on_track z p h \<Longrightarrow> \<exists>rc p'. on_cli p h f = Some (rc, p') \<and> on_track z p' h"
proof -
  assume ok: "on_track z p h"
  then obtain c where "p_con p h = Some c" by (rule on_trackE)
  with ok show ?thesis by (simp add: on_cli_def case_prod_beta)
qed

lemma path_call_returns [returns]:
  assumes "on_track z p h" "strchr_ok S" "length path < 256"
  shows "\<exists>rc out p'. path_call S p h path f = Some (rc, out, p') \<and> on_track z p' h"
proof -
  from parse_path_returns [OF assms] obtain rc out p1 where
    1: "parse_path S p h path = Some (rc, out, p1)" "on_track z p1 h" by blast
  from 1(2) obtain c r where "conn_of p1 h = Some (c, r)" by (rule on_trackE)
  with on_cli_returns [OF 1(2), of "f out r"] 1 show ?thesis by (auto simp: path_call_def)
qed

lemma set_file_returns [returns]:
  assumes ok: "on_track z p h" and fits: "\<And>fl. fits fl \<Longrightarrow> fits (f fl)"
  shows "\<exists>p'. set_file p h f = Some p' \<and> on_track z p' h"
proof -
  from ok obtain c where "p_con p h = Some c" by (rule on_trackE)
  then obtain p' where run: "set_file p h f = Some p'" by (simp add: set_file_def)
  from on_track_local [OF set_file_local [OF this fits] ok] run show ?thesis by blast
qed

lemma on_file_returns [returns]:
  assumes ok: "on_track z p h" and same: "\<And>cl fl w. fits fl \<Longrightarrow> fits (fst (snd (f cl fl w)))"
  shows "\<exists>rc p'. on_file p h f = Some (rc, p') \<and> on_track z p' h"
proof -
  from ok obtain c where "p_con p h = Some c" by (rule on_trackE)
  then obtain rc p' where run: "on_file p h f = Some (rc, p')" by (simp add: on_file_def case_prod_beta)
  from on_track_local [OF on_file_local [OF this same] ok] run show ?thesis by blast
qed

lemma smbopen_try_returns [returns]:
  assumes "on_track z p h" "strchr_ok S" "length path < 256"
  shows "\<exists>rc p'. smbopen_try S p h path flags md attr = Some (rc, p') \<and> on_track z p' h"
proof -
  from assms(1) obtain c where c: "p_con p h = Some c" by (rule on_trackE)
  from parse_path_returns [OF assms] obtain rc out p1 where
    1: "parse_path S p h path = Some (rc, out, p1)" "length out \<le> 257" "on_track z p1 h" by blast
  have "fits (open_file path out flags md attr fl)" for fl
    using 1(2) by (simp add: open_file_def fits_def)
  from set_file_returns [OF 1(3), of "open_file path out flags md attr", OF this] obtain p2 where
    2: "set_file p1 h (open_file path out flags md attr) = Some p2" "on_track z p2 h" by blast
  from on_file_returns [OF 2(2), of "smbwrp_open S"] c 1 2 assms(1) show ?thesis
    by (auto simp: smbopen_try_def)
qed

text \<open>Queries.\<close>

lemma echo_on_returns: "on_track z p h \<Longrightarrow> \<exists>rc p'. echo_on S p h = Some (rc, p') \<and> on_track z p' h"
  by (simp add: echo_on_def on_cli_returns)

lemma connect_on_returns: "on_track z p h \<Longrightarrow> \<exists>rc p'. connect_on S p h = Some (rc, p') \<and> on_track z p' h"
proof -
  assume ok: "on_track z p h"
  then obtain c r where "conn_of p h = Some (c, r)" by (rule on_trackE)
  then obtain rc p' where run: "connect_on S p h = Some (rc, p')" by (simp add: connect_on_def case_prod_beta)
  from on_track_local [OF connect_on_local [OF this] ok] run show ?thesis by blast
qed

lemma disconnect_on_returns: "on_track z p h \<Longrightarrow> \<exists>p'. disconnect_on S p h = Some p' \<and> on_track z p' h"
proof -
  assume ok: "on_track z p h"
  then obtain c where "p_con p h = Some c" by (rule on_trackE)
  with ok show ?thesis by (simp add: disconnect_on_def)
qed

lemma getattr_on_returns:
  "on_track z p h \<Longrightarrow> \<exists>rc finfo' p'. getattr_on S p h finfo = Some (rc, finfo', p') \<and> on_track z p' h"
proof -
  assume ok: "on_track z p h"
  then obtain c r where "conn_of p h = Some (c, r)" by (rule on_trackE)
  with ok show ?thesis by (simp add: getattr_on_def case_prod_beta)
qed

lemma query_attr_returns:
  assumes "on_track z p h"
  shows "\<exists>rc finfo' p'. query_attr S p h finfo = Some (rc, finfo', p') \<and> on_track z p' h"
proof -
  from getattr_on_returns [OF assms] obtain rc f1 p1 where
    1: "getattr_on S p h finfo = Some (rc, f1, p1)" "on_track z p1 h" by blast
  from disconnect_on_returns [OF 1(2)] obtain p2 where 2: "disconnect_on S p1 h = Some p2" "on_track z p2 h" by blast
  from connect_on_returns [OF 2(2)] obtain rc3 p3 where 3: "connect_on S p2 h = Some (rc3, p3)" "on_track z p3 h" by blast
  from getattr_on_returns [OF 3(2), of S f1] 1 2 3 show ?thesis by (auto simp: query_attr_def)
qed

lemma query_parent_returns:
  assumes "on_track z p h"
  shows "\<exists>rc p'. query_parent S p h finfo = Some (rc, p') \<and> on_track z p' h"
proof (cases "\<exists>i. fsphStrRChr S (fi_fname finfo) backslash = Some (Suc i)")
  case True
  then obtain i where i: "fsphStrRChr S (fi_fname finfo) backslash = Some (Suc i)" by blast
  from getattr_on_returns [OF assms, of S "finfo\<lparr>fi_fname := take (Suc i) (fi_fname finfo)\<rparr>"] i
  show ?thesis by (auto simp: query_parent_def)
qed (use assms in \<open>auto simp: query_parent_def split: option.split nat.split\<close>)

lemma query_server_returns:
  assumes "on_track z p h" "length path < 260"
  shows "\<exists>rc plist' p' early. query_server S p h finfo path plist = Some (rc, plist', p', early) \<and> on_track z p' h"
proof -
  from echo_on_returns [OF assms(1), of S] obtain rc1 p1 where
    1: "echo_on S p h = Some (rc1, p1)" "on_track z p1 h" by blast
  from connect_on_returns [OF 1(2), of S] 1(2) obtain rc2 p2 where
    2: "(if rc1 \<noteq> 0 then connect_on S p1 h else Some (0, p1)) = Some (rc2, p2)" "on_track z p2 h"
    by (cases "rc1 = 0") auto
  from query_attr_returns [OF 2(2), of S "finfo\<lparr>fi_fname := path\<rparr>"] obtain rc3 f p3 where
    3: "query_attr S p2 h (finfo\<lparr>fi_fname := path\<rparr>) = Some (rc3, f, p3)" "on_track z p3 h" by blast
  from query_parent_returns [OF 3(2), of S f] obtain rc4 p4 where
    4: "query_parent S p3 h f = Some (rc4, p4)" "on_track z p4 h" by blast
  from 3(2) obtain c r where "conn_of p3 h = Some (c, r)" by (rule on_trackE)
  with 1(1) 2 3 4 assms(2) show ?thesis by (simp add: query_server_def Let_def del: if_split) auto
qed

lemma find_path_returns:
  assumes "on_track z p h" "conn_of p h = Some (c, r)"
  shows "\<exists>hit m. dircache_find_path S timesec (p_mem p) (pdc r) path = Some (hit, m) \<and> on_track z (p\<lparr>p_mem := m\<rparr>) h"
proof (cases "pdc r")
  case None
  with assms show ?thesis by (simp add: dircache_find_path_def)
next
  case (Some a)
  with assms(2) have a: "cache_of p h = Some a" by (simp add: cache_of_def)
  with on_track_represents [OF assms(1)] find_path_kept [of "p_mem p" a] obtain hit m where
    "dircache_find_path S timesec (p_mem p) (Some a) path = Some (hit, m)" "mem_kept (Some a) (p_mem p) m" by blast
  with on_track_mem [OF assms(1), of m] Some a show ?thesis by auto
qed

lemma query_body_returns:
  assumes "on_track z p h" "strchr_ok S" "length path < 256"
  shows "\<exists>rc plist' p' early. query_body S timesec p h junk plist path = Some (rc, plist', p', early) \<and> on_track z p' h"
proof -
  from assms(1) obtain c r where c: "conn_of p h = Some (c, r)" by (rule on_trackE)
  from find_path_returns [OF assms(1) c] obtain hit m where
    1: "dircache_find_path S timesec (p_mem p) (pdc r) path = Some (hit, m)" "on_track z (p\<lparr>p_mem := m\<rparr>) h" by blast
  from parse_path_returns [OF 1(2) assms(2,3)] obtain rc out p1 where
    2: "parse_path S (p\<lparr>p_mem := m\<rparr>) h path = Some (rc, out, p1)" "length out \<le> 257" "on_track z p1 h" by blast
  have "\<exists>rc plist' p' early. query_server S p1 h f out plist = Some (rc, plist', p', early) \<and> on_track z p' h" for f
    by (rule query_server_returns [OF 2(3)]) (use 2(2) in simp)
  with c 1 2(1,3) show ?thesis by (cases hit) (fastforce simp: query_body_def Let_def)+
qed

lemma ENTER_returns:
  assumes "on_track z p h" "\<And>q. on_track z q h \<Longrightarrow> \<exists>rc p'. body q = Some (rc, p') \<and> on_track z p' h"
  shows "\<exists>rc p'. ENTER S p (\<lambda>rc. Some (rc, p)) body = Some (rc, p') \<and> on_track z p' h"
  using assms(1) assms(2) [of "p\<lparr>p_mutex := p_mutex p + 1\<rparr>"] by (simp add: ENTER_def Let_def)

text \<open>Setting attributes.\<close>

lemma helperEASet_returns:
  assumes "on_track z p h" "settable feas"
  shows "\<exists>rc p'. helperEASet S cl feas path p = Some (rc, p') \<and> on_track z p' h"
proof (cases feas)
  case None
  with assms(1) show ?thesis by (simp add: helperEASet_def)
next
  case (Some buf)
  with assms(2) obtain cb where cb: "rd32 buf 0 = Some cb" "cb \<le> 4 \<or> ea_walk buf cb 4 4" by (auto elim: settable_Some)
  show ?thesis
  proof (cases "cb \<le> 4")
    case False
    with cb(2) have "ea_walk buf cb 4 4" by simp
    from set_loops_return(1) [OF this, of S cl path "p_world p"] obtain rc w where
      "helperEASet_loop S cl path buf cb 4 4 (p_world p) = Some (rc, w)" by blast
    with Some cb(1) False assms(1) show ?thesis by (simp add: helperEASet_def ENTER_def Let_def)
  qed (use Some cb assms in \<open>simp add: helperEASet_def\<close>)
qed

lemma FileEASet_returns:
  assumes "on_track z p h" "settable feas"
  shows "\<exists>rc p'. NdpFileEASet S p h feas = Some (rc, p') \<and> on_track z p' h"
proof (cases feas)
  case None
  with assms(1) show ?thesis by (simp add: NdpFileEASet_def)
next
  case (Some buf)
  with assms(2) obtain cb where cb: "rd32 buf 0 = Some cb" "cb \<le> 4 \<or> ea_walk buf cb 4 4" by (auto elim: settable_Some)
  from assms(1) obtain c r where c: "conn_of p h = Some (c, r)" "p_con p h = Some c" by (rule on_trackE)
  show ?thesis
  proof (cases "cb \<le> 4")
    case False
    with cb(2) have "ea_walk buf cb 4 4" by simp
    from set_loops_return(2) [OF this, of S "cli c" "cfile c" "p_world p"] obtain rc w where
      "fset_loop S (cli c) (cfile c) buf cb 4 4 (p_world p) = Some (rc, w)" by blast
    with Some cb(1) c assms(1) show ?thesis by (simp add: NdpFileEASet_def if_open_def ENTER_def Let_def)
  qed (use Some cb c assms in \<open>simp add: NdpFileEASet_def\<close>)
qed

text \<open>The calls for which this is shown: those on a path or on the file, attribute lists only to set them.\<close>

definition plain_call :: "nat \<Rightarrow> ndp_call \<Rightarrow> bool" where
  "plain_call h call = (case call of
       SetPathInfo k pfi path \<Rightarrow> k = h \<and> length path < 256
     | SetCurrentDir k path \<Rightarrow> k = h \<and> length path < 256
     | ForceDelete k path \<Rightarrow> k = h \<and> length path < 256
     | DeleteDir k path \<Rightarrow> k = h \<and> length path < 256
     | SetFileAttribute k path a \<Rightarrow> k = h \<and> length path < 256
     | OpenReplace k path md a feas \<Rightarrow> k = h \<and> length path < 256 \<and> settable feas
     | OpenCreate k path md a feas \<Rightarrow> k = h \<and> length path < 256 \<and> settable feas
     | OpenExisting k path md \<Rightarrow> k = h \<and> length path < 256
     | FileSetInfo k pfi \<Rightarrow> k = h | FileSetFilePtrL k off meth \<Rightarrow> k = h
     | FileSetFilePtr k junk off meth \<Rightarrow> k = h | FileClose k \<Rightarrow> k = h
     | FileNewSize k len \<Rightarrow> k = h | FileNewSizeL k len \<Rightarrow> k = h
     | FileRead k junk n \<Rightarrow> k = h | FileWrite k buf n \<Rightarrow> k = h
     | QueryPathInfo t k junk plist path \<Rightarrow> k = h \<and> length path < 256
     | _ \<Rightarrow> False)"

lemma path_entries_return:
  assumes "on_track z p h" "strchr_ok S" "length path < 256"
  shows "\<exists>rc p'. NdpSetPathInfo S p h pfi path = Some (rc, p') \<and> on_track z p' h"
    "\<exists>rc p'. NdpSetCurrentDir S p h path = Some (rc, p') \<and> on_track z p' h"
    "\<exists>rc p'. NdpForceDelete S p h path = Some (rc, p') \<and> on_track z p' h"
    "\<exists>rc p'. NdpDeleteDir S p h path = Some (rc, p') \<and> on_track z p' h"
    "\<exists>rc p'. NdpSetFileAttribute S p h path a = Some (rc, p') \<and> on_track z p' h"
    "settable feas \<Longrightarrow> \<exists>rc p'. smbopen S p h path flags md attr feas = Some (rc, p') \<and> on_track z p' h"
proof -
  have call: "\<exists>rc p'. (do { (rc, out, p) \<leftarrow> path_call S q h path f; Some (rc, LEAVE p) }) = Some (rc, p') \<and> on_track z p' h"
    if "on_track z q h" for q f
    using path_call_returns [OF that assms(2,3), of f] by auto
  have inv_call: "\<exists>rc p'. (do { p \<leftarrow> invalidate S q h path; (rc, out, p) \<leftarrow> path_call S p h path f;
      Some (rc, LEAVE p) }) = Some (rc, p') \<and> on_track z p' h" if "on_track z q h" for q f
    using invalidate_returns [OF that, of S path] call by fastforce
  show "\<exists>rc p'. NdpSetPathInfo S p h pfi path = Some (rc, p') \<and> on_track z p' h"
    "\<exists>rc p'. NdpForceDelete S p h path = Some (rc, p') \<and> on_track z p' h"
    "\<exists>rc p'. NdpDeleteDir S p h path = Some (rc, p') \<and> on_track z p' h"
    unfolding NdpSetPathInfo_def NdpForceDelete_def NdpDeleteDir_def
    by ((rule ENTER_returns [OF assms(1)], erule inv_call)+)
  show "\<exists>rc p'. NdpSetCurrentDir S p h path = Some (rc, p') \<and> on_track z p' h"
    "\<exists>rc p'. NdpSetFileAttribute S p h path a = Some (rc, p') \<and> on_track z p' h"
    unfolding NdpSetCurrentDir_def NdpSetFileAttribute_def
    by ((rule ENTER_returns [OF assms(1)], erule call)+)
  assume feas: "settable feas"
  show "\<exists>rc p'. smbopen S p h path flags md attr feas = Some (rc, p') \<and> on_track z p' h"
    unfolding smbopen_def
  proof (intro ENTER_returns assms(1))
    fix q :: "'a plugin" assume q: "on_track z q h"
    from invalidate_returns [OF q, of S path] q obtain q1 where
      1: "(if flags AND O_CREAT \<noteq> 0 then invalidate S q h path else Some q) = Some q1" "on_track z q1 h"
      by (cases "flags AND O_CREAT = 0") auto
    from smbopen_try_returns [OF 1(2) assms(2,3), of flags md attr] obtain rc q2 where
      2: "smbopen_try S q1 h path flags md attr = Some (rc, q2)" "on_track z q2 h" by blast
    from FileEASet_returns [OF 2(2) feas] obtain rc3 q3 where
      3: "NdpFileEASet S q2 h feas = Some (rc3, q3)" "on_track z q3 h" by blast
    from 1(1) 2 3 show "\<exists>rc p'. (do {
        p \<leftarrow> (if flags AND O_CREAT \<noteq> 0 then invalidate S q h path else Some q);
        (rc, p) \<leftarrow> smbopen_try S p h path flags md attr;
        p \<leftarrow> (if rc = 0 \<and> feas \<noteq> None
              then do { (rc1, p) \<leftarrow> NdpFileEASet S p h feas; Some p } else Some p);
        Some (rc, LEAVE p) }) = Some (rc, p') \<and> on_track z p' h" by (cases "rc = 0 \<and> feas \<noteq> None") auto
  qed
qed

lemma file_entries_return:
  assumes "on_track z p h"
  shows "\<exists>rc p'. NdpFileSetInfo S p h pfi = Some (rc, p') \<and> on_track z p' h"
    "\<exists>rc pos p'. NdpFileSetFilePtrL S p h off meth = Some (rc, pos, p') \<and> on_track z p' h"
    "\<exists>rc p'. NdpFileClose S p h = Some (rc, p') \<and> on_track z p' h"
    "\<exists>rc p'. NdpFileNewSizeL S p h len = Some (rc, p') \<and> on_track z p' h"
    "\<exists>rc data cnt p'. NdpFileRead S p h junk n = Some (rc, data, cnt, p') \<and> on_track z p' h"
    "\<exists>rc cnt p'. NdpFileWrite S p h buf n = Some (rc, cnt, p') \<and> on_track z p' h"
proof -
  let ?p = "p\<lparr>p_mutex := Suc (p_mutex p)\<rparr>"
  from assms obtain c r where c: "conn_of p h = Some (c, r)" "p_con p h = Some c" by (rule on_trackE)
  have ok: "on_track z ?p h" using assms by simp
  from invalidate_returns [OF ok, of S "f_fullname (cfile c)"] obtain q where
    q: "invalidate S ?p h (f_fullname (cfile c)) = Some q" "on_track z q h" by blast
  have put: "on_track z (p1\<lparr>p_con := (p_con p1)(h \<mapsto> c1\<lparr>cfile := fl\<rparr>)\<rparr>) h"
    if "on_track z p1 h" "p_con p1 h = Some c1" "fits (cfile c1) \<Longrightarrow> fits fl" for p1 c1 fl
    by (rule on_track_local [OF _ that(1)]) (use that(2,3) in \<open>auto simp: local_step_def same_conn_def\<close>)
  show "\<exists>rc p'. NdpFileSetInfo S p h pfi = Some (rc, p') \<and> on_track z p' h"
    using assms c q set_file_returns [OF q(2), of "\<lambda>fl. fl\<lparr>f_openattr := attrFile (pfi_stat pfi),
        f_mtime := fsphDosDateToUnixTime S (fst (dtLastWrite (pfi_stat pfi))) (snd (dtLastWrite (pfi_stat pfi))),
        f_updatetime := 2\<rparr>"]
    by (auto simp: NdpFileSetInfo_def ENTER_def Let_def)
  show "\<exists>rc pos p'. NdpFileSetFilePtrL S p h off meth = Some (rc, pos, p') \<and> on_track z p' h"
    using assms c on_file_returns [OF ok, of "\<lambda>cl fl w. smbwrp_lseek S cl fl (sint meth) off w"]
    by (auto simp: NdpFileSetFilePtrL_def ENTER_def Let_def)
  show "\<exists>rc p'. NdpFileNewSizeL S p h len = Some (rc, p') \<and> on_track z p' h"
    using assms c on_file_returns [OF ok, of "\<lambda>cl fl w. let (rc, w) = smbwrp_setfilesize S cl fl len w in (rc, fl, w)"]
    by (auto simp: NdpFileNewSizeL_def if_open_def ENTER_def Let_def case_prod_beta)
  from on_file_returns [OF ok, of "smbwrp_close S"] ok c obtain rc1 q1 where
    "if_open S ?p h (on_file ?p h (smbwrp_close S)) = Some (rc1, q1)" "on_track z q1 h"
    by (cases "f_fd (cfile c) < 0") (auto simp: if_open_def)
  with set_file_returns [OF this(2), of "\<lambda>fl. fl\<lparr>f_fd := -1\<rparr>"] assms show "\<exists>rc p'. NdpFileClose S p h = Some (rc, p') \<and> on_track z p' h"
    by (auto simp: NdpFileClose_def ENTER_def Let_def)
  show "\<exists>rc data cnt p'. NdpFileRead S p h junk n = Some (rc, data, cnt, p') \<and> on_track z p' h"
    using assms c put [OF ok] by (auto simp: NdpFileRead_def ENTER_def Let_def case_prod_beta)
  show "\<exists>rc cnt p'. NdpFileWrite S p h buf n = Some (rc, cnt, p') \<and> on_track z p' h"
    using assms c q put [OF q(2)] invalidate_fields [OF q(1)]
    by (auto simp: NdpFileWrite_def ENTER_def Let_def case_prod_beta)
qed

lemma query_returns:
  assumes "on_track z p h" "strchr_ok S" "length path < 256"
  shows "\<exists>rc plist' p'. NdpQueryPathInfo S timesec p h junk plist path = Some (rc, plist', p') \<and> on_track z p' h"
proof -
  let ?p = "p\<lparr>p_mutex := Suc (p_mutex p)\<rparr>"
  have "on_track z ?p h" using assms(1) by simp
  from query_body_returns [OF this assms(2,3), of timesec junk plist] obtain rc plist' q early where
    "query_body S timesec ?p h junk plist path = Some (rc, plist', q, early)" "on_track z q h" by blast
  with assms(1) show ?thesis by (auto simp: NdpQueryPathInfo_def ENTER_def Let_def leave_unless_def)
qed

lemma code_state_returns:
  "\<exists>rc a p'. x = Some (rc, a, p') \<and> Q p' \<Longrightarrow> \<exists>rc p'. code_state x = Some (rc, p') \<and> Q p'"
  by (auto simp: code_state_def)

lemma plain_call_returns:
  assumes "on_track z p h" "strchr_ok S" "plain_call h call"
  shows "\<exists>rc p'. ndp_run S call p = Some (rc, p') \<and> on_track z p' h"
proof -
  note fe = file_entries_return [OF assms(1)]
  have read: "\<exists>rc p'. (\<exists>data cnt. NdpFileRead S p h junk n = Some (rc, data, cnt, p')) \<and> on_track z p' h"
    for junk n using fe(5) [of S junk n] by blast
  have seek: "\<exists>rc pos p'. NdpFileSetFilePtr S p h junk off meth = Some (rc, pos, p') \<and> on_track z p' h"
    for junk off meth using fe(2) [of S "scast off" meth] by (auto simp: NdpFileSetFilePtr_def)
  note r = path_entries_return [OF assms(1,2)] fe(1-4,6) query_returns [OF assms(1,2)] read seek
  show ?thesis using assms(3)
    by (cases call) (simp_all add: plain_call_def ndp_run_def NdpOpenReplace_def NdpOpenCreate_def
        NdpOpenExisting_def NdpFileNewSize_def r code_state_returns)
qed

lemma plain_calls_return:
  assumes "on_track z p h" "strchr_ok S" "\<forall>call \<in> set calls. plain_call h call"
  shows "\<exists>rcs p'. runs (ndp_run S) calls p = Some (rcs, p') \<and> on_track z p' h"
  using assms(1,3)
proof (induction calls arbitrary: p)
  case (Cons call calls)
  from plain_call_returns [OF Cons.prems(1) assms(2), of call] Cons.prems(2) obtain rc q where
    "ndp_run S call p = Some (rc, q)" "on_track z q h" by auto
  with Cons.IH [of q] Cons.prems(2) show ?case by auto
qed simp

end
