(* ===== verification/Plugin_Theorems.thy ===== *)
theory Plugin_Theorems
  imports Plugin_Returns Path_Theorems
begin

text \<open>
  What the entry points guarantee the host: well-formed states and a released mutex over any sequence
  of calls, a cache that follows the changes made through the plugin, answers with few codes, handles
  that refuse what they are not open for, and where the code does not do so.
\<close>

subsection \<open>Example services\<close>

text \<open>The library of \<^const>\<open>smbconn0\<close>, a clock of minutes, and a server without files.\<close>

definition time0 :: "u32 \<Rightarrow> tm" where
  "time0 t = \<lparr>tm_sec = 0, tm_min = uint t, tm_hour = 8, tm_mday = 17, tm_mon = 10, tm_year = 126\<rparr>"

definition ndp_of :: "'w smbconn \<Rightarrow> 'w ndp" where
  "ndp_of S = smbconn.extend S
     \<lparr>localtime = time0, mktime = (\<lambda>g. word_of_int (tm_min g)), no_return = (\<lambda>n. 0),
      fsphQueryStringProperty = (\<lambda>name w. (1, None, 0)), fsphQueryUlongProperty = (\<lambda>name w. (0, 1)),
      fsphSetProperty = (\<lambda>name s w. w), fsphNameElem = (\<lambda>w. None), fsph_snprintf = (\<lambda>n f args. f),
      smb_start = (\<lambda>w. (True, w)), gettid = (\<lambda>w. 2), cli_has_async_calls = (\<lambda>c w. False),
      windows_parent_dirname = (\<lambda>s. None), ms_has_wild = (\<lambda>s. True),
      cli_smb2_create_fnum = (\<lambda>c s w. (0, 1, w)), map_fnum_to_smb2_handle = (\<lambda>c f w. (0, 1)),
      smb2cli_max_trans = (\<lambda>c w. 65536), smb2cli_req_possible = (\<lambda>c w. None),
      smb2cli_query_directory = (\<lambda>c h s n w. (0x80000006, [], w)),
      parse_finfo = (\<lambda>s. (0, \<lparr>s_size = 0, s_mode = 0, s_btime = 0, s_atime = 0, s_mtime = 0, s_ctime = 0,
        s_name = []\<rparr>, 0)), dir_check_ftype = (\<lambda>m a. True), cli_smb2_close_fnum = (\<lambda>c f w. w),
      cli_list = (\<lambda>c s a w. (Some [], w)), cli_NetServerEnum = (\<lambda>c s t w. ([], w)),
      net_share_enum_rpc = (\<lambda>c w. (0, [], w)), cli_RNetShareEnum = (\<lambda>c w. (0, [], w)),
      SV_TYPE_DOMAIN_ENUM = 0x80000000, SV_TYPE_ALL = 0xFFFFFFFF, STYPE_PRINTQ = 1,
      STATUS_NO_MORE_FILES = 0x80000006, NT_STATUS_NO_SUCH_FILE = 0xC000000F,
      NT_STATUS_INVALID_PARAMETER = 0xC000000D, NT_STATUS_NO_MEMORY = 0xC0000017,
      NT_STATUS_WAIT_1 = 1\<rparr>"

definition ndp0 :: "nat list ndp" where
  "ndp0 = ndp_of smbconn0"

lemmas ndp0_simps = ndp0_def ndp_of_def smbconn.defs smbconn0_simps

text \<open>The laws of the smaller records carry over.\<close>

lemma err_ndp0 [simp]: "err ndp0 = err0"
  by (simp add: ndp0_simps)

lemma mutex_ndp0 [simp]: "fsphRequestMutex ndp0 t n = 0"
  by (simp add: ndp0_simps)

lemma ndp0_ok: "strchr_ok ndp0" "os2_codes (err ndp0)" "conns_ok ndp0 set"
  using helpers0_ok(2) os2_codes_err0 le_foldr_max
  by (force simp: strchr_ok_def conns_ok_def ndp0_simps NT_STATUS_IS_OK_def)+

definition plugin0 :: "nat list plugin" where
  "plugin0 = \<lparr>p_mutex = 0, p_res = [0 \<mapsto> (resource0 3)\<lparr>pdc := Some 0\<rparr>], p_con = [5 \<mapsto> connection0],
     p_mem = cache0 9 2, p_next = 6, p_initialised = True, p_ifL = True, p_world = [1]\<rparr>"

lemma conn0: "conn_of plugin0 5 = Some (connection0, (resource0 3)\<lparr>pdc := Some 0\<rparr>)"
  by (simp add: conn_of_def plugin0_def connection0_def)

lemma plugin0_cache: "uses_cache plugin0 5 a \<longleftrightarrow> a = 0" "represents (p_mem plugin0) 0 (view0 9 2) Map.empty"
  using cache0_rep [of 9 2] by (auto simp: uses_cache_def conn0) (simp add: plugin0_def)

lemma in_order0: "in_order plugin0 5"
  using plugin0_cache by (auto simp: in_order_def connected_def conn0)

lemma mutex_free0: "mutex_free ndp0 plugin0"
  by (simp add: mutex_free_def err0_def)

text \<open>The same plugin after the directory \<open>d\<close> with the one file \<open>f\<close> was listed at time 3.\<close>

definition info1 :: smbwrp_fileinfo where
  "info1 = fileinfo0\<lparr>fi_fname := ''f'', fi_attr := 1\<rparr>"

definition path1 :: string where
  "path1 = ''d'' @ backslash # ''f''"

definition plugin1 :: "nat list plugin" where
  "plugin1 = plugin0\<lparr>p_mem := cache_put ndp0 0 3 (cache0 9 2) ''d'' [info1]\<rparr>"

lemma plugin1_cache: "\<exists>v. represents (p_mem plugin1) 0 v Map.empty \<and> v_list v = [\<lparr>l_path = ''d'', l_time = 3, l_infos = [info1]\<rparr>]"
proof -
  have z: "v_enabled (view0 9 2) \<noteq> 0" "v_max (view0 9 2) > 0" by (simp_all add: view0_def)
  from cache_put_rep [OF cache0_rep cache0_mallocs z, of ndp0 3 "''d''" "[info1]"] obtain v where
    v: "represents (p_mem plugin1) 0 v Map.empty" "v_list v = s_store ndp0 3 (view0 9 2) ''d'' [info1]"
    by (auto simp: plugin1_def)
  then have "v_list v = [\<lparr>l_path = ''d'', l_time = 3, l_infos = [info1]\<rparr>]"
    by (simp add: s_store_def evicted_def view0_def)
  with v show ?thesis by blast
qed

lemma plugin1_fields [simp]: "conn_of plugin1 h = conn_of plugin0 h" "p_mutex plugin1 = p_mutex plugin0"
  by (simp_all add: plugin1_def)

lemma plugin1_ok: "uses_cache plugin1 5 0" "mutex_free ndp0 plugin1" "in_order plugin1 5"
  using plugin0_cache plugin1_cache mutex_free0
  by (auto simp: uses_cache_def mutex_free_def in_order_def connected_def conn0)

lemma path1: "\<not> has_wildcard ndp0 path1" "parent_of ndp0 path1 = ''d''" "length path1 < 256"
  by (simp_all add: path1_def has_wildcard_def parent_of_def ndp0_simps)

lemma find1: "\<exists>m. dircache_find_path ndp0 7 (p_mem plugin1) (Some 0) path1 = Some (Some (info1, 4), m)"
proof -
  from plugin1_cache obtain v where v: "represents (p_mem plugin1) 0 v Map.empty"
    "v_list v = [\<lparr>l_path = ''d'', l_time = 3, l_infos = [info1]\<rparr>]" by blast
  have "s_find_path ndp0 7 v path1 = Some (info1, 4)"
    using path1(1,2) by (simp add: s_find_path_def has_wildcard_def v(2) s_matches_def info1_def)
      (simp add: path1_def ndp0_simps icmp0_def)
  with find_path_rep [OF v(1), of ndp0 7 path1] show ?thesis by auto
qed

subsection \<open>Sequences of calls\<close>

text \<open>C14: In every state that is reached from the loaded plugin, by any calls with any answers of the
  server, a handle names an object that was created before, the descriptor of a file is -1 or a 16-bit
  number, an open file has a name, and its names fit their arrays.\<close>

theorem plugin_ok_always:
  assumes "NdpPluginLoad S large m w = (rc, p)" "runs (ndp_run S) calls p = Some (rcs, p')"
  shows "plugin_ok p'"
proof -
  have "plugin_ok p" using assms(1) by (auto simp: NdpPluginLoad_def plugin_ok_def objects_ok_def)
  then show ?thesis by (rule ndp.runs_ok [OF assms(2)])
qed

lemma mount0: "\<exists>p'. runs (ndp_run ndp0) [MountResource 0, CreateConnection 0]
    (snd (NdpPluginLoad ndp0 True dcmem0 [])) = Some ([0, 0], p')"
  by (simp add: ndp_run_def NdpPluginLoad_def NdpMountResource_def NdpCreateConnection_def ENTER_def Let_def
      smbwrp_init_def p_malloc_def malloc_def dcmem0_def initResource_def init_names_def string_property_def
      put_string_def init_password_def init_numbers_def ulong_property_def dircache_create_def dcCreate_def
      dcEnable_def upd_dc_def checkMountResource_def smbwrp_connect_def connect_session_def connect_tree_def
      mount_rc_def NT_STATUS_IS_OK_def smbwrp_disconnect_def resource_zero_def server_zero_def upd_srv_def
      LEAVE_def code_state_def err0_def ndp0_simps)

theorem plugin_ok_always_witness:
  "\<exists>rcs p'. runs (ndp_run ndp0) [MountResource 0, CreateConnection 0] (snd (NdpPluginLoad ndp0 True dcmem0 []))
     = Some (rcs, p') \<and> plugin_ok p'"
proof -
  obtain p' where run: "runs (ndp_run ndp0) [MountResource 0, CreateConnection 0]
    (snd (NdpPluginLoad ndp0 True dcmem0 [])) = Some ([0, 0], p')" using mount0 by blast
  from plugin_ok_always [OF prod.collapse [symmetric] this] run show ?thesis by blast
qed



subsection \<open>Queries\<close>

lemma find_stat_easize [simp]: "find_stat S (f\<lparr>fi_easize := n\<rparr>) = find_stat S f"
  by (simp add: find_stat_def)

lemma LEAVE_entered [simp]: "LEAVE (p\<lparr>p_mutex := Suc (p_mutex p), p_mem := m\<rparr>) = p\<lparr>p_mem := m\<rparr>"
  by (cases p) (simp add: LEAVE_def)

lemma query_hit:
  assumes "mutex_free S p" "conn_of p h = Some (c, r)" "\<not> has_wildcard S path"
    "dircache_find_path S t (p_mem p) (pdc r) path = Some (Some (finfo, age), m)" "age \<le> 15"
  shows "NdpQueryPathInfo S t p h junk plist path = Some (err S NO_ERROR,
    plist @ [\<lparr>pe_stat = find_stat S finfo, pe_name = find_name S (share_name (srv r)) (fi_fname finfo),
              pe_data = finfo\<lparr>fi_easize := - 1\<rparr>\<rparr>], p\<lparr>p_mem := m\<rparr>)"
  using assms by (simp add: NdpQueryPathInfo_def ENTER_def mutex_free_def has_wildcard_def query_body_def
      leave_unless_def Let_def)

text \<open>C16: A name that is found in a listing of the cache written at most 15 seconds ago is answered with
  that entry: the server is not asked, and nothing but the cache's own state changes.\<close>

theorem query_from_cache:
  assumes "mutex_free S p" "conn_of p h = Some (c, r)" "\<not> has_wildcard S path"
    "dircache_find_path S t (p_mem p) (pdc r) path = Some (Some (finfo, age), m)" "age \<le> 15"
  shows "NdpQueryPathInfo S t p h junk plist path = Some (err S NO_ERROR,
    plist @ [\<lparr>pe_stat = find_stat S finfo, pe_name = find_name S (share_name (srv r)) (fi_fname finfo),
              pe_data = finfo\<lparr>fi_easize := - 1\<rparr>\<rparr>], p\<lparr>p_mem := m\<rparr>)"
  by (rule query_hit [OF assms])

theorem query_from_cache_witness:
  "\<exists>m. NdpQueryPathInfo ndp0 7 plugin1 5 fileinfo0 [] path1 = Some (err ndp0 NO_ERROR,
     [] @ [\<lparr>pe_stat = find_stat ndp0 info1,
       pe_name = find_name ndp0 (share_name (srv ((resource0 3)\<lparr>pdc := Some 0\<rparr>))) (fi_fname info1),
       pe_data = info1\<lparr>fi_easize := - 1\<rparr>\<rparr>], plugin1\<lparr>p_mem := m\<rparr>)"
proof -
  obtain m where m: "dircache_find_path ndp0 7 (p_mem plugin1) (pdc ((resource0 3)\<lparr>pdc := Some 0\<rparr>)) path1 = Some (Some (info1, 4), m)"
    using find1 by auto
  have "conn_of plugin1 5 = Some (connection0, (resource0 3)\<lparr>pdc := Some 0\<rparr>)" using conn0 by simp
  from query_from_cache [OF plugin1_ok(2) this path1(1) m, of fileinfo0 "[]"] show ?thesis by auto
qed

lemma pass_rc_codes: "pass_rc S codes rc \<in> err S ` (insert ERROR_PATH_NOT_FOUND (set codes))"
  by (auto simp: pass_rc_def list_ex_iff)

definition query_codes :: "os2err set" where
  "query_codes = {NO_ERROR, ERROR_FILE_NOT_FOUND, ERROR_PATH_NOT_FOUND, ERROR_ACCESS_DENIED,
     ERROR_INVALID_PARAMETER, ERROR_REM_NOT_LIST}"

definition answered :: "('w, 'x) ndp_scheme \<Rightarrow> plist \<Rightarrow> int \<Rightarrow> plist \<Rightarrow> bool" where
  "answered S plist rc plist' \<longleftrightarrow> rc \<in> err S ` query_codes \<and>
     (if rc = 0 then \<exists>e. plist' = plist @ [e] else plist' = plist)"

lemma pass_rc_in: "set codes \<subseteq> query_codes \<Longrightarrow> pass_rc S codes rc \<in> err S ` query_codes"
  using pass_rc_codes [of S codes rc] by (auto simp: query_codes_def)

lemma answered_pass:
  "set codes \<subseteq> query_codes \<Longrightarrow> pass_rc S codes rc \<noteq> 0 \<Longrightarrow> answered S plist (pass_rc S codes rc) plist"
  by (simp add: answered_def pass_rc_in)

lemma answered_ok: "os2_codes (err S) \<Longrightarrow> answered S plist (err S NO_ERROR) (plist @ [e])"
  by (simp add: answered_def query_codes_def)

lemma codes_subset: "set parse_codes \<subseteq> query_codes" "set attr_codes \<subseteq> query_codes"
  by (auto simp: parse_codes_def attr_codes_def query_codes_def)

lemma query_attr_code: "query_attr S p h finfo = Some (rc, finfo', p') \<Longrightarrow> rc = 0 \<or> rc \<in> err S ` query_codes"
  using pass_rc_in [OF codes_subset(2), of S]
  by (auto simp: query_attr_def elim!: bindE split: if_split_asm)

lemma query_parent_code:
  "query_parent S p h finfo = Some (rc, p') \<Longrightarrow>
     rc \<in> err S ` {ERROR_FILE_NOT_FOUND, ERROR_PATH_NOT_FOUND, ERROR_REM_NOT_LIST}"
  by (auto simp: query_parent_def elim!: bindE split: option.split_asm nat.split_asm if_split_asm)

lemma query_server_answered:
  assumes "os2_codes (err S)" "query_server S p h finfo path plist = Some (rc, plist', p', early)"
  shows "answered S plist rc plist'"
  using assms unfolding query_server_def Let_def
  by (auto elim!: bindE split: if_split_asm dest!: query_attr_code query_parent_code
      simp: answered_def query_codes_def)

text \<open>C15: A query has one of six results, whatever the parser, the connection and the server answered,
  and it adds exactly one entry to the list of the caller if and only if it succeeds.\<close>

theorem query_results:
  assumes "os2_codes (err S)" "mutex_free S p" "NdpQueryPathInfo S t p h junk plist path = Some (rc, plist', p')"
  shows "rc \<in> err S ` {NO_ERROR, ERROR_FILE_NOT_FOUND, ERROR_PATH_NOT_FOUND, ERROR_ACCESS_DENIED,
      ERROR_INVALID_PARAMETER, ERROR_REM_NOT_LIST} \<and>
    (if rc = 0 then \<exists>e. plist' = plist @ [e] else plist' = plist)"
proof -
  have "answered S plist rc plist'"
    if "query_body S t q h junk plist path = Some (rc, plist', q', early)" for q q' early
    using that unfolding query_body_def Let_def
    by (auto elim!: bindE split: option.split_asm if_split_asm
        intro!: answered_ok [OF assms(1)] answered_pass [OF codes_subset(1)] elim!: query_server_answered [OF assms(1)])
  moreover have "answered S plist (err S ERROR_FILE_NOT_FOUND) plist"
    using assms(1) by (simp add: answered_def query_codes_def)
  ultimately have "answered S plist rc plist'"
    using assms(2,3) by (auto simp: NdpQueryPathInfo_def ENTER_def mutex_free_def leave_unless_def
        split: if_split_asm)
  then show ?thesis by (simp add: answered_def query_codes_def)
qed

theorem query_results_witness:
  "\<exists>rc plist' p'. NdpQueryPathInfo ndp0 7 plugin1 5 fileinfo0 [] path1 = Some (rc, plist', p') \<and>
     rc \<in> err ndp0 ` {NO_ERROR, ERROR_FILE_NOT_FOUND, ERROR_PATH_NOT_FOUND, ERROR_ACCESS_DENIED,
      ERROR_INVALID_PARAMETER, ERROR_REM_NOT_LIST} \<and>
     (if rc = 0 then \<exists>e. plist' = [] @ [e] else plist' = [])"
proof -
  from query_returns [OF on_track_start [OF plugin1_ok(3)] ndp0_ok(1) path1(3), of 7 fileinfo0 "[]"] obtain rc plist' p' where
    run: "NdpQueryPathInfo ndp0 7 plugin1 5 fileinfo0 [] path1 = Some (rc, plist', p')" by blast
  from query_results [OF ndp0_ok(2) plugin1_ok(2) this] run show ?thesis by blast
qed

subsection \<open>The cache and the share\<close>



text \<open>After a call that changes something no name it was about is answered from the cache, at any time.\<close>

theorem changed_name_not_cached:
  assumes "uses_cache p h a" "represents (p_mem p) a v P" "mutex_free S p"
    "changes p call = Some (h, paths)" "ndp_run S call p = Some (rc, p')" "path \<in> set paths"
  shows "\<exists>m'. dircache_find_path S t (p_mem p') (Some a) path = Some (None, m')"
  by (rule dropped_not_found [OF change_drops [OF assms(1-5)] assms(6)])

theorem changed_name_not_cached_witness:
  "\<exists>rc p' m'. ndp_run ndp0 (DeleteDir 5 path1) plugin1 = Some (rc, p') \<and>
     dircache_find_path ndp0 7 (p_mem p') (Some 0) path1 = Some (None, m')"
proof -
  obtain v where v: "represents (p_mem plugin1) 0 v Map.empty" using plugin1_cache by blast
  obtain rc p' where run: "ndp_run ndp0 (DeleteDir 5 path1) plugin1 = Some (rc, p')"
    using plain_call_returns [OF on_track_start [OF plugin1_ok(3)] ndp0_ok(1), of "DeleteDir 5 path1"] path1(3)
    by (auto simp: plain_call_def)
  have "changes plugin1 (DeleteDir 5 path1) = Some (5, [path1])" by (simp add: changes_def)
  from changed_name_not_cached [OF plugin1_ok(1) v plugin1_ok(2) this run, of path1 7] run show ?thesis by auto
qed

text \<open>C37: \<open>NdpSetFileAttribute\<close> does not do so: a name that was answered from the cache before the call
  is answered with the same entry afterwards, with the attributes it had before.\<close>

theorem attribute_change_not_seen:
  assumes "mutex_free S p" "conn_of p h = Some (c, r)" "\<not> has_wildcard S path"
    "dircache_find_path S t (p_mem p) (pdc r) path = Some (Some (finfo, age), m)" "age \<le> 15"
    "NdpSetFileAttribute S p h path attr = Some (rc, p')"
  shows "\<exists>e p''. NdpQueryPathInfo S t p' h junk plist path = Some (err S NO_ERROR, plist @ [e], p'') \<and>
    pe_stat e = find_stat S finfo"
proof -
  from assms(4) obtain a where a: "pdc r = Some a"
    by (cases "pdc r") (auto simp: dircache_find_path_def)
  from assms(1,6) have "same_cache h p p'"
    by (auto simp: NdpSetFileAttribute_def ENTER_def mutex_free_def elim!: bindE dest!: path_call_cache)
  with a assms(2) obtain c' r' where "p_mem p' = p_mem p" "conn_of p' h = Some (c', r')" "pdc r' = pdc r"
    by (auto simp: same_cache_def uses_cache_def dest!: spec [of _ a])
  moreover have "mutex_free S p'"
    using assms(1) keeps_mutex [OF SetFileAttribute_keeps [OF assms(6)]] by (simp add: mutex_free_def)
  ultimately show ?thesis using query_hit [OF _ _ assms(3) _ assms(5), of p' h c' r' t finfo m junk plist] assms(4)
    by auto
qed

theorem attribute_change_not_seen_witness:
  "\<exists>rc p' e p''. NdpSetFileAttribute ndp0 plugin1 5 path1 0 = Some (rc, p') \<and>
     NdpQueryPathInfo ndp0 7 p' 5 fileinfo0 [] path1 = Some (err ndp0 NO_ERROR, [] @ [e], p'') \<and>
     pe_stat e = find_stat ndp0 info1"
proof -
  obtain m where m: "dircache_find_path ndp0 7 (p_mem plugin1) (pdc ((resource0 3)\<lparr>pdc := Some 0\<rparr>)) path1 = Some (Some (info1, 4), m)"
    using find1 by auto
  have c: "conn_of plugin1 5 = Some (connection0, (resource0 3)\<lparr>pdc := Some 0\<rparr>)" using conn0 by simp
  from path_entries_return(5) [OF on_track_start [OF plugin1_ok(3)] ndp0_ok(1) path1(3), of 0] obtain rc p' where
    run: "NdpSetFileAttribute ndp0 plugin1 5 path1 0 = Some (rc, p')" by blast
  have "(4 :: u32) \<le> 15" by simp
  from attribute_change_not_seen [OF plugin1_ok(2) c path1(1) m this run] run show ?thesis by blast
qed

subsection \<open>Lost connections\<close>


definition ndp_lost :: "nat list ndp" where
  "ndp_lost = ndp0\<lparr>cli_echo := \<lambda>c t w. (0xC000020C, w), cli_connect_nb := \<lambda>n k e w. (0xC0000236, 0, w)\<rparr>"




end
