(* ===== verification/File_Theorems.thy ===== *)
theory File_Theorems
  imports Plugin_Theorems Smb_Theorems
begin

text \<open>
  The file of a connection from open to close, connections from their creation to their end, and the
  conversions the plugin makes for the host: dates and the stored password.
\<close>

subsection \<open>Closed and open handles\<close>

lemma LEAVE_mutex_only [simp]: "LEAVE (p\<lparr>p_mutex := Suc (p_mutex p)\<rparr>) = p"
  by (cases p) (simp add: LEAVE_def)

text \<open>C33: On a file that is not open, positioning, truncating and asking for information are refused
  and change nothing; a write is refused, too, and does not reach the server. A read is not refused:
  the server is asked to read from the descriptor 0xFFFF.\<close>

theorem closed_file:
  assumes "mutex_free S p" "in_order p h" "p_con p h = Some c" "f_fd (cfile c) = -1" "cli c = Some k"
    "cli_read S k 0xFFFF (f_offset (cfile c)) n (p_world p) = (status, data, w)"
  shows "NdpFileSetFilePtrL S p h off meth = Some (err S ERROR_INVALID_HANDLE, None, p) \<and>
    NdpFileNewSizeL S p h len = Some (err S ERROR_INVALID_HANDLE, p) \<and>
    NdpFileQueryInfo S p h junk plist = Some (err S ERROR_INVALID_HANDLE, plist, p) \<and>
    (\<exists>p'. NdpFileWrite S p h buf cnt = Some (err S ERROR_INVALID_HANDLE, None, p') \<and> p_world p' = p_world p) \<and>
    (\<exists>rc data' cnt' p'. NdpFileRead S p h j n = Some (rc, data', cnt', p') \<and> p_world p' = w)"
proof -
  from assms(2,3) obtain r where c: "conn_of p h = Some (c, r)" by (elim in_orderE) (auto simp: conn_of_Some)
  have "on_track p (p\<lparr>p_mutex := Suc (p_mutex p)\<rparr>) h" using assms(2) by (simp add: on_track_start)
  from invalidate_returns [OF this, of S "f_fullname (cfile c)"] obtain q where
    q: "invalidate S (p\<lparr>p_mutex := Suc (p_mutex p)\<rparr>) h (f_fullname (cfile c)) = Some q" by blast
  have "fnum (cfile c) = 0xFFFF" using assms(4) by (simp add: fnum_def)
  then have "snd (snd (snd (smbwrp_read S (cli c) (cfile c) n (p_world p)))) = w"
    using assms(5,6) by (simp add: smbwrp_read_def)
  then show ?thesis using assms(1,3,4) c q invalidate_fields [OF q]
    by (simp add: NdpFileSetFilePtrL_def NdpFileNewSizeL_def NdpFileQueryInfo_def NdpFileWrite_def NdpFileRead_def
        ENTER_def mutex_free_def if_open_def Let_def case_prod_beta)
qed

theorem closed_file_witness:
  "NdpFileSetFilePtrL ndp0 plugin0 5 7 0 = Some (err ndp0 ERROR_INVALID_HANDLE, None, plugin0) \<and>
    NdpFileNewSizeL ndp0 plugin0 5 7 = Some (err ndp0 ERROR_INVALID_HANDLE, plugin0) \<and>
    NdpFileQueryInfo ndp0 plugin0 5 fileinfo0 [] = Some (err ndp0 ERROR_INVALID_HANDLE, [], plugin0) \<and>
    (\<exists>p'. NdpFileWrite ndp0 plugin0 5 ''x'' 1 = Some (err ndp0 ERROR_INVALID_HANDLE, None, p') \<and> p_world p' = p_world plugin0) \<and>
    (\<exists>rc data' cnt' p'. NdpFileRead ndp0 plugin0 5 0 9 = Some (rc, data', cnt', p') \<and> p_world p' = [1])"
  by (rule closed_file [OF mutex_free0 in_order0, where c = connection0 and k = 1 and status = 0 and data = "[]"])
    (simp_all add: plugin0_def connection0_def file0_def ndp0_simps)



text \<open>C26: \<open>NdpFileSetInfo\<close> sends nothing: it reports success and keeps the attributes and the time of
  the last write in the handle, and closing the file sends exactly these to the server.\<close>

theorem set_info_at_close:
  assumes "os2_codes (err S)" "mutex_free S p" "in_order p h" "p_con p h = Some c" "cli c = Some k"
    "0 \<le> f_fd (cfile c)" "f_fname (cfile c) \<noteq> []" "attrFile (pfi_stat pfi) \<noteq> 0"
    "cli_close S k (fnum (cfile c)) (p_world p) = (0, w)"
  shows "\<exists>p1 p2. NdpFileSetInfo S p h pfi = Some (0, p1) \<and> p_world p1 = p_world p \<and>
    NdpFileClose S p1 h = Some (0, p2) \<and>
    p_world p2 = snd (cli_setpathinfo_basic S k (f_fname (cfile c)) (f_btime (cfile c)) (f_atime (cfile c))
      (fsphDosDateToUnixTime S (fst (dtLastWrite (pfi_stat pfi))) (snd (dtLastWrite (pfi_stat pfi))))
      (f_ctime (cfile c)) (attrFile (pfi_stat pfi)) w)"
proof -
  let ?t = "fsphDosDateToUnixTime S (fst (dtLastWrite (pfi_stat pfi))) (snd (dtLastWrite (pfi_stat pfi)))"
  let ?fl = "(cfile c)\<lparr>f_openattr := attrFile (pfi_stat pfi), f_mtime := ?t, f_updatetime := 2\<rparr>"
  from assms(3,4) obtain r where c: "conn_of p h = Some (c, r)" by (elim in_orderE) (auto simp: conn_of_Some)
  have "on_track p (p\<lparr>p_mutex := Suc (p_mutex p)\<rparr>) h" using assms(3) by (simp add: on_track_start)
  from invalidate_returns [OF this, of S "f_fullname (cfile c)"] obtain q where
    q: "invalidate S (p\<lparr>p_mutex := Suc (p_mutex p)\<rparr>) h (f_fullname (cfile c)) = Some q" by blast
  note qf = invalidate_fields [OF q]
  define p1 where "p1 = LEAVE (q\<lparr>p_con := (p_con q)(h \<mapsto> c\<lparr>cfile := ?fl\<rparr>)\<rparr>)"
  have run1: "NdpFileSetInfo S p h pfi = Some (0, p1)"
    using assms(1,2,4,6,7) c q qf
    by (simp add: NdpFileSetInfo_def ENTER_def mutex_free_def set_file_def p1_def)
  have p1: "p_world p1 = p_world p" "p_con p1 h = Some (c\<lparr>cfile := ?fl\<rparr>)" "mutex_free S p1"
    using qf assms(2) by (simp_all add: p1_def mutex_free_def)
  have fn: "fnum ?fl = fnum (cfile c)" by (simp add: fnum_def)
  have "smbwrp_close S (Some k) ?fl (p_world p) = (0, fst (snd (smbwrp_close S (Some k) ?fl (p_world p))),
      snd (cli_setpathinfo_basic S k (f_fname (cfile c)) (f_btime (cfile c)) (f_atime (cfile c)) ?t
        (f_ctime (cfile c)) (attrFile (pfi_stat pfi)) w))"
    using assms(8,9) fn by (simp add: smbwrp_close_def status_rc_def NT_STATUS_IS_OK_def Let_def)
  then obtain fl' w' where close: "smbwrp_close S (Some k) ?fl (p_world p) = (0, fl', w')"
    "w' = snd (cli_setpathinfo_basic S k (f_fname (cfile c)) (f_btime (cfile c)) (f_atime (cfile c)) ?t
        (f_ctime (cfile c)) (attrFile (pfi_stat pfi)) w)" by blast
  have "\<exists>p2. NdpFileClose S p1 h = Some (0, p2) \<and> p_world p2 = w'"
    using p1 close(1) assms(5,6)
    by (simp add: NdpFileClose_def ENTER_def mutex_free_def if_open_def on_file_def set_file_def)
  with run1 p1(1) close(2) show ?thesis by blast
qed

text \<open>A plugin with an open file.\<close>

definition plugin2 :: "nat list plugin" where
  "plugin2 = plugin0\<lparr>p_con := [5 \<mapsto> connection0\<lparr>cfile := file1\<rparr>]\<rparr>"

definition pfi2 :: NDFILEINFOL where
  "pfi2 = \<lparr>pfi_stat = \<lparr>cbFile = 0, cbFileAlloc = 0, attrFile = 0x21,
     dtLastWrite = (\<lparr>fd_day = 17, fd_month = 11, fd_year = 46\<rparr>, \<lparr>ft_twosecs = 0, ft_minutes = 42, ft_hours = 8\<rparr>),
     dtCreation = (\<lparr>fd_day = 0, fd_month = 0, fd_year = 0\<rparr>, \<lparr>ft_twosecs = 0, ft_minutes = 0, ft_hours = 0\<rparr>),
     dtLastAccess = (\<lparr>fd_day = 0, fd_month = 0, fd_year = 0\<rparr>, \<lparr>ft_twosecs = 0, ft_minutes = 0, ft_hours = 0\<rparr>)\<rparr>,
     pfi_pszName = None, pfi_data = None\<rparr>"

lemma plugin2_ok: "mutex_free ndp0 plugin2" "in_order plugin2 5" "p_con plugin2 5 = Some (connection0\<lparr>cfile := file1\<rparr>)"
proof -
  have "uses_cache plugin2 5 a \<longleftrightarrow> a = 0" for a
    by (auto simp: uses_cache_def plugin2_def plugin0_def conn_of_def connection0_def)
  then show "in_order plugin2 5" using plugin0_cache(2)
    by (auto simp: in_order_def connected_def plugin2_def plugin0_def conn_of_def connection0_def)
qed (use mutex_free0 in \<open>simp_all add: plugin2_def mutex_free_def\<close>)

text \<open>The world of this library counts what is sent when a file is closed.\<close>

definition ndp_log :: "nat list ndp" where
  "ndp_log = ndp0\<lparr>cli_setpathinfo_basic := \<lambda>c n bt at mt ct m w. (0, unat m # unat mt # w)\<rparr>"

theorem set_info_at_close_witness:
  "\<exists>p1 p2. NdpFileSetInfo ndp_log plugin2 5 pfi2 = Some (0, p1) \<and> p_world p1 = p_world plugin2 \<and>
     NdpFileClose ndp_log p1 5 = Some (0, p2) \<and> p_world p2 = [0x21, 42, 1]"
proof -
  have c: "cli (connection0\<lparr>cfile := file1\<rparr>) = Some 1" "0 \<le> f_fd (cfile (connection0\<lparr>cfile := file1\<rparr>))"
    "f_fname (cfile (connection0\<lparr>cfile := file1\<rparr>)) \<noteq> []" "attrFile (pfi_stat pfi2) \<noteq> 0"
    by (simp_all add: connection0_def file1_def pfi2_def)
  have close: "cli_close ndp_log 1 (fnum (cfile (connection0\<lparr>cfile := file1\<rparr>))) (p_world plugin2) = (0, [1])"
    by (simp add: ndp_log_def ndp0_simps plugin2_def plugin0_def)
  have ok: "os2_codes (err ndp_log)" "mutex_free ndp_log plugin2"
    using ndp0_ok(2) plugin2_ok(1) by (simp_all add: ndp_log_def mutex_free_def)
  from set_info_at_close [OF ok plugin2_ok(2,3) c close] show ?thesis
    by (simp add: ndp_log_def ndp0_simps pfi2_def fsphDosDateToUnixTime_def)
qed

subsection \<open>Connections\<close>

text \<open>C22: A connection that cannot be made leaves no object and no connection of the library behind; one
  that is made is a new object with a closed file and exactly one new connection of the library, and
  freeing it removes both again.\<close>

theorem create_free_connection:
  assumes "conns_ok S opened" "os2_codes (err S)" "mutex_free S p"
    "NdpCreateConnection S p hr = Some (rc, hc, p1)"
  shows "if rc \<noteq> 0 then hc = None \<and> p_con p1 = p_con p \<and> opened (p_world p1) = opened (p_world p)
    else \<exists>h k. hc = Some h \<and> h = p_next p \<and> k \<notin> opened (p_world p) \<and>
      opened (p_world p1) = insert k (opened (p_world p)) \<and>
      p_con p1 = (p_con p)(h \<mapsto> \<lparr>pRes = hr, cli = Some k, cfile = file_zero\<lparr>f_fd := -1\<rparr>\<rparr>) \<and>
      (\<exists>p2. NdpFreeConnection S p1 h = Some (0, p2) \<and> p_con p2 = (p_con p)(h := None) \<and>
         opened (p_world p2) = opened (p_world p))"
proof -
  define q where "q = p\<lparr>p_mutex := Suc (p_mutex p)\<rparr>"
  obtain ok m where m: "malloc (p_mem p) = (ok, m)" by fastforce
  show ?thesis
  proof (cases ok)
    case False
    with assms(2-4) m show ?thesis
      by (auto simp: NdpCreateConnection_def ENTER_def mutex_free_def p_malloc_def Let_def)
  next
    case True
    with assms(3,4) m obtain r where r: "p_res p hr = Some r"
      by (auto simp: NdpCreateConnection_def ENTER_def mutex_free_def p_malloc_def Let_def elim!: bindE)
    obtain rc1 cl w where con: "smbwrp_connect S r None (p_world p) = (rc1, cl, w)" by (metis prod_cases3)
    have run: "(rc, hc, p1) = (if rc1 \<noteq> 0
        then (err S (if rc1 = 7 then ERROR_BAD_DEV_TYPE else ERROR_INVALID_PARAMETER), None,
          p\<lparr>p_mem := m, p_world := w\<rparr>)
        else (rc1, Some (p_next p), p\<lparr>p_mem := m, p_world := w, p_con := (p_con p)(p_next p \<mapsto>
          \<lparr>pRes = hr, cli = cl, cfile = file_zero\<lparr>f_fd := -1\<rparr>\<rparr>), p_next := Suc (p_next p)\<rparr>))"
      using assms(3,4) True m r con
      by (cases p) (auto simp: NdpCreateConnection_def ENTER_def mutex_free_def p_malloc_def LEAVE_def Let_def)
    from smbwrp_connect_opened [OF assms(1) con] show ?thesis
    proof
      assume "rc1 \<noteq> 0 \<and> cl = None \<and> opened w = opened (p_world p)"
      with run assms(2) show ?thesis by auto
    next
      assume "\<exists>c. rc1 = 0 \<and> cl = Some c \<and> c \<notin> opened (p_world p) \<and> opened w = insert c (opened (p_world p))"
      then obtain k where k: "rc1 = 0" "cl = Some k" "k \<notin> opened (p_world p)" "opened w = insert k (opened (p_world p))"
        by blast
      have shut: "opened (cli_shutdown S k w) = opened w - {k}" using assms(1) by (simp add: conns_ok_def)
      have free: "\<exists>p2. NdpFreeConnection S p1 (p_next p) = Some (0, p2) \<and> p_con p2 = (p_con p)(p_next p := None) \<and>
          opened (p_world p2) = opened (p_world p)"
        using run k assms(2,3) shut
        by (simp add: NdpFreeConnection_def ENTER_def mutex_free_def file_zero_def smbwrp_disconnect_def Let_def)
      with run k show ?thesis by auto
    qed
  qed
qed

theorem create_free_connection_witness:
  "\<exists>rc hc p1. NdpCreateConnection ndp0 plugin0 0 = Some (rc, hc, p1) \<and>
    (if rc \<noteq> 0 then hc = None \<and> p_con p1 = p_con plugin0 \<and> set (p_world p1) = set (p_world plugin0)
    else \<exists>h k. hc = Some h \<and> h = p_next plugin0 \<and> k \<notin> set (p_world plugin0) \<and>
      set (p_world p1) = insert k (set (p_world plugin0)) \<and>
      p_con p1 = (p_con plugin0)(h \<mapsto> \<lparr>pRes = 0, cli = Some k, cfile = file_zero\<lparr>f_fd := -1\<rparr>\<rparr>) \<and>
      (\<exists>p2. NdpFreeConnection ndp0 p1 h = Some (0, p2) \<and> p_con p2 = (p_con plugin0)(h := None) \<and>
         set (p_world p2) = set (p_world plugin0)))"
proof -
  have "\<exists>rc hc p1. NdpCreateConnection ndp0 plugin0 0 = Some (rc, hc, p1)"
    using mutex_free0 by (simp add: NdpCreateConnection_def ENTER_def mutex_free_def p_malloc_def plugin0_def
        case_prod_beta Let_def)
  then obtain rc hc p1 where run: "NdpCreateConnection ndp0 plugin0 0 = Some (rc, hc, p1)" by blast
  from create_free_connection [OF ndp0_ok(3,2) mutex_free0 run] run show ?thesis by blast
qed

subsection \<open>Dates\<close>



subsection \<open>The stored password\<close>

text \<open>What the property table of the host promises: a property that was set is read back, the others keep
  their value. The length counts the terminating NUL.\<close>

definition props_ok :: "('w, 'x) ndp_scheme \<Rightarrow> bool" where
  "props_ok S \<longleftrightarrow> (\<forall>name v n w. fsphQueryStringProperty S n (fsphSetProperty S name v w) =
     (if n = name then (err S NO_ERROR, Some v, word_of_nat (length v + 1)) else fsphQueryStringProperty S n w))"


text \<open>A library whose world is the property table.\<close>

definition ndp_props :: "(string \<rightharpoonup> string) ndp" where
  "ndp_props = (ndp_of (samba.extend samba0
     \<lparr>cli_connect_nb = (\<lambda>n k e w. (0, 1, w)), smbXcli_negprot = (\<lambda>c p w. (0, w)),
      smbXcli_conn_protocol = (\<lambda>c w. 1), smb2cli_conn_set_max_credits = (\<lambda>c w. w),
      cli_session_setup_creds = (\<lambda>c cr w. (0, w)), cli_session_setup_anon = (\<lambda>c w. (0, w)),
      cli_credentials_authentication_requested = (\<lambda>cr. False), cli_credentials_is_anonymous = (\<lambda>cr. False),
      cli_tree_connect_creds = (\<lambda>c s cr w. (0, w)), cli_cm_force_encryption_creds = (\<lambda>c cr s w. (0, w)),
      lp_set_cmdline_ntlmv2_no = (\<lambda>w. w), lp_client_max_protocol = (\<lambda>w. 0), PROTOCOL_DEFAULT = 0,
      PROTOCOL_LATEST = 2, PROTOCOL_SMB2_02 = 1\<rparr>))
     \<lparr>fsphQueryStringProperty := \<lambda>name w. (case w name of Some v \<Rightarrow> (0, Some v, word_of_nat (length v + 1)) | None \<Rightarrow> (1, None, 0)),
      fsphSetProperty := \<lambda>name v w. w(name \<mapsto> v)\<rparr>"

lemma ndp_props_ok: "os2_codes (err ndp_props)" "props_ok ndp_props"
  using os2_codes_err0 by (simp_all add: ndp_props_def ndp0_simps props_ok_def err0_def)


end
