(* ===== verification/Listing_Theorems.thy ===== *)
theory Listing_Theorems
  imports Listing Plugin_Theorems
begin

text \<open>
  Directory listings: what a listing over SMB 2 delivers when the server sends its directory in any
  number of answers, that it ends, and that the next listing of the directory delivers the same from
  the cache.
\<close>

subsection \<open>The callback and the cache together\<close>

lemma dircache_write_infos_iff:
  "dircache_write_infos S ctx infos st m = Some (st', m') \<longleftrightarrow>
     dir_adds S infos st = Some st' \<and> dircache_write_entries S m ctx infos = Some m'"
  by (induction infos arbitrary: st m) (auto simp: bind_Some_iff)

lemma dir_adds_append: "dir_adds S (xs @ ys) st = do { st \<leftarrow> dir_adds S xs st; dir_adds S ys st }"
  by (induction xs arbitrary: st) (auto simp: case_prod_beta intro!: Option.bind_cong)

lemma write_entries_append:
  "dircache_write_entries S m ctx (xs @ ys) = do { m \<leftarrow> dircache_write_entries S m ctx xs; dircache_write_entries S m ctx ys }"
  by (induction xs arbitrary: m) (auto simp: case_prod_beta intro!: Option.bind_cong)

text \<open>The callback keeps everything but the list and the name it is working on.\<close>

lemma dir_adds_keeps:
  "dir_adds S infos st = Some st' \<Longrightarrow> fs_dir st' = fs_dir st \<and> fs_fullpath st' = fs_fullpath st \<and>
     fs_dir_mask st' = fs_dir_mask st \<and> fs_pdc st' = fs_pdc st \<and> fs_mask st' = fs_mask st"
  by (induction infos arbitrary: st)
    (fastforce simp: smbwrp_dir_add_def Let_def case_prod_beta elim!: bindE)+

lemma dir_adds_defined: "length (fs_dir st) < 260 \<Longrightarrow> \<exists>st'. dir_adds S infos st = Some st'"
proof (induction infos arbitrary: st)
  case (Cons i infos)
  then obtain r st1 where "smbwrp_dir_add S i st = Some (r, st1)" "fs_dir st1 = fs_dir st"
    by (auto simp: smbwrp_dir_add_def Let_def case_prod_beta)
  with Cons.IH [of st1] Cons.prems show ?case by auto
qed simp

subsection \<open>Answers of a server\<close>

text \<open>A buffer that holds a chain of elements, each with the offset of the next.\<close>

fun chain :: "('w, 'x) ndp_scheme \<Rightarrow> string \<Rightarrow> file_info list \<Rightarrow> bool" where
  "chain S buf [] \<longleftrightarrow> False"
| "chain S buf (fi # fis) \<longleftrightarrow>
     (if fis = [] then parse_finfo S buf = (0, fi, 0)
      else \<exists>n. parse_finfo S buf = (0, fi, n) \<and> 0 < n \<and> n \<le> length buf \<and> chain S (drop n buf) fis)"

text \<open>A server that sends the answers, then says that there are no more files.\<close>

fun sends ::
  "('w, 'x) ndp_scheme \<Rightarrow> nat \<Rightarrow> nat \<Rightarrow> string \<Rightarrow> u32 \<Rightarrow> 'w \<Rightarrow> string list \<Rightarrow> 'w \<Rightarrow> bool" where
  "sends S c hnd msk n w [] w' \<longleftrightarrow> (\<exists>data. smb2cli_query_directory S c hnd msk n w = (STATUS_NO_MORE_FILES S, data, w'))"
| "sends S c hnd msk n w (buf # bufs) w' \<longleftrightarrow>
     (\<exists>w1. smb2cli_query_directory S c hnd msk n w = (0, buf, w1) \<and> sends S c hnd msk n w1 bufs w')"

text \<open>
  \<open>smbwrp_dir_add\<close> has no \<open>return\<close>. The listing goes on only when the value its caller finds is 0 or
  \<open>NT_STATUS_WAIT_1\<close>.
\<close>

definition goes_on :: "('w, 'x) ndp_scheme \<Rightarrow> bool" where
  "goes_on S \<longleftrightarrow> (\<forall>n \<in> {0, 1}. no_return S n = 0 \<or> no_return S n = NT_STATUS_WAIT_1 S)"

definition wanted :: "('w, 'x) ndp_scheme \<Rightarrow> u32 \<Rightarrow> file_info list \<Rightarrow> smbwrp_fileinfo list" where
  "wanted S attribute fis = map (wrp_info S) (filter (\<lambda>fi. dir_check_ftype S (s_mode fi) attribute) fis)"

lemma wanted_simps [simp]: "wanted S a [] = []" "wanted S a (xs @ ys) = wanted S a xs @ wanted S a ys"
  "wanted S a (x # xs) = (if dir_check_ftype S (s_mode x) a then wrp_info S x # wanted S a xs else wanted S a xs)"
  by (simp_all add: wanted_def)

lemma dir_add_status:
  assumes "goes_on S" "smbwrp_dir_add S f st = Some (status, st')"
  shows "(if status = NT_STATUS_WAIT_1 S then 0 else status) = 0"
proof -
  obtain n pl where g: "getfindinfoL S (fs_share st) (fs_plist st)
      (f\<lparr>fi_fname := fs_dir st @ take (260 - length (fs_dir st) - 1) (fi_fname f)\<rparr>) (fs_ulAttribute st) (Some (fs_dir_mask st)) = (n, pl)"
    by fastforce
  from getfindinfoL_range [OF g] assms g show ?thesis
    by (auto simp: smbwrp_dir_add_def goes_on_def Let_def elim!: bindE)
qed

lemma smb2_entries_chain:
  assumes "goes_on S" "chain S buf fis" "mallocs m = []" "represents m c v P" "P a = Some (l, bad)"
    "dir_adds S (wanted S att fis) st = Some st'"
  shows "\<exists>m'. smb2_entries S (Some a) att buf pr st m = Some (LoopDone 0, pr \<or> wanted S att fis \<noteq> [], st', m') \<and>
    dircache_write_entries S m (Some a) (wanted S att fis) = Some m'"
  using assms(2-)
proof (induction fis arbitrary: buf m v P l st pr)
  case (Cons fi fis)
  obtain n where n: "parse_finfo S buf = (0, fi, n)" "fis = [] \<longleftrightarrow> n = 0"
    "fis \<noteq> [] \<longrightarrow> n \<le> length buf \<and> chain S (drop n buf) fis"
    using Cons.prems(1) by (cases "fis = []") auto
  note step = smb2_entries.simps [of S "Some a" att buf pr st m]
  show ?case
  proof (cases "dir_check_ftype S (s_mode fi) att")
    case False
    then have adds: "dir_adds S (wanted S att fis) st = Some st'" using Cons.prems(5) by simp
    show ?thesis
    proof (cases "fis = []")
      case True
      with False adds n show ?thesis using Cons.prems(2)
        by (subst step) (simp add: NT_STATUS_IS_OK_def)
    next
      case more: False
      with Cons.IH [OF _ Cons.prems(2-4) adds, of "drop n buf" pr] n False Cons.prems(2) show ?thesis
        by (subst step) (simp add: NT_STATUS_IS_OK_def)
    qed
  next
    case True
    let ?i = "wrp_info S fi"
    from Cons.prems(5) True obtain status st1 where
      add: "smbwrp_dir_add S ?i st = Some (status, st1)" and adds: "dir_adds S (wanted S att fis) st1 = Some st'"
      by (auto elim!: bindE)
    have ok: "(if status = NT_STATUS_WAIT_1 S then 0 else status) = 0" by (rule dir_add_status [OF assms(1) add])
    from write_entry_rep [OF Cons.prems(3,4), of S ?i] Cons.prems(2) obtain m1 where
      m1: "dircache_write_entry S m (Some a) ?i = Some m1" "mallocs m1 = []"
      "represents m1 c (s_unlock (s_lock S v)) (P(a \<mapsto> (l\<lparr>l_infos := l_infos l @ [?i]\<rparr>, bad)))" by auto
    show ?thesis
    proof (cases "fis = []")
      case fin: True
      with True adds add ok n m1(1) show ?thesis using Cons.prems(2)
        by (subst step) (simp add: NT_STATUS_IS_OK_def)
    next
      case False
      from Cons.IH [OF _ m1(2,3) _ adds, of "drop n buf" "l\<lparr>l_infos := l_infos l @ [?i]\<rparr>" True] n False obtain m' where
        "smb2_entries S (Some a) att (drop n buf) True st1 m1 = Some (LoopDone 0, True, st', m')"
        "dircache_write_entries S m1 (Some a) (wanted S att fis) = Some m'" by auto
      with False True add ok n m1(1) show ?thesis using Cons.prems(2)
        by (subst step) (simp add: NT_STATUS_IS_OK_def)
    qed
  qed
qed simp

lemma smb2_answers_sends:
  assumes "goes_on S" "ms_has_wild S msk" "STATUS_NO_MORE_FILES S \<noteq> 0" "sends S k hnd msk n w bufs w'"
    "list_all2 (chain S) bufs fiss" "mallocs m = []" "represents m c v P" "P a = Some (l, bad)"
    "dir_adds S (wanted S att (concat fiss)) st = Some st'"
  shows "\<exists>m'. smb2_answers S k hnd (Some a) msk n att pr st m w =
      Some (LoopDone (STATUS_NO_MORE_FILES S), pr \<or> wanted S att (concat fiss) \<noteq> [], st', m', w') \<and>
    dircache_write_entries S m (Some a) (wanted S att (concat fiss)) = Some m'"
  using assms(4-)
proof (induction bufs arbitrary: fiss w m v P l st pr)
  case Nil
  then show ?case using assms(3)
    by (subst smb2_answers.simps) (auto simp: NT_STATUS_IS_OK_def)
next
  case (Cons buf bufs)
  from Cons.prems(2) obtain fis fiss' where f: "fiss = fis # fiss'" "chain S buf fis" "list_all2 (chain S) bufs fiss'"
    by (auto simp: list_all2_Cons1)
  from Cons.prems(1) obtain w1 where w1: "smb2cli_query_directory S k hnd msk n w = (0, buf, w1)"
    "sends S k hnd msk n w1 bufs w'" by auto
  from Cons.prems(6) f(1) obtain st1 where st1: "dir_adds S (wanted S att fis) st = Some st1"
    "dir_adds S (wanted S att (concat fiss')) st1 = Some st'" by (auto simp: dir_adds_append elim!: bindE)
  from smb2_entries_chain [OF assms(1) f(2) Cons.prems(3-5) st1(1), of pr] obtain m1 where
    m1: "smb2_entries S (Some a) att buf pr st m = Some (LoopDone 0, pr \<or> wanted S att fis \<noteq> [], st1, m1)"
    "dircache_write_entries S m (Some a) (wanted S att fis) = Some m1" by blast
  from write_entries_rep [OF Cons.prems(4,5,3), of S "wanted S att fis"] m1(2) obtain v1 where
    v1: "mallocs m1 = []" "represents m1 c v1 (P(a \<mapsto> (l\<lparr>l_infos := l_infos l @ wanted S att fis\<rparr>, bad)))" by auto
  from Cons.IH [OF w1(2) f(3) v1 _ st1(2), of "l\<lparr>l_infos := l_infos l @ wanted S att fis\<rparr>" "pr \<or> wanted S att fis \<noteq> []"]
  obtain m' where m': "smb2_answers S k hnd (Some a) msk n att (pr \<or> wanted S att fis \<noteq> []) st1 m1 w1 =
      Some (LoopDone (STATUS_NO_MORE_FILES S), (pr \<or> wanted S att fis \<noteq> []) \<or> wanted S att (concat fiss') \<noteq> [], st', m', w')"
    "dircache_write_entries S m1 (Some a) (wanted S att (concat fiss')) = Some m'" by auto
  have "smb2_answers S k hnd (Some a) msk n att pr st m w =
      smb2_answers S k hnd (Some a) msk n att (pr \<or> wanted S att fis \<noteq> []) st1 m1 w1"
    using w1(1) m1(1) assms(2) by (subst smb2_answers.simps) (simp add: NT_STATUS_IS_OK_def)
  with m' m1(2) f(1) show ?case by (auto simp: write_entries_append)
qed

text \<open>The beginning of a listing in a cache that can hold one.\<close>

lemma same_settings_begin [simp]: "same_settings v (snd (s_begin E t v path))"
  by (simp add: s_begin_def s_write_begin_def s_evict_def s_lock_def s_unlock_def same_settings_def Let_def
    split: option.split)

lemma underway_begin:
  assumes "v_max v > 0" shows "underway v (snd (s_begin E t v path))"
proof -
  have "length (v_list (snd (s_begin E t v path))) \<le> length (evicted v)"
    using remove_first_length [of "s_matches E path" "v_list v"]
      remove_first_length [of "s_matches E path" "butlast (v_list v)"]
    by (auto simp: s_begin_def s_write_begin_def s_evict_def s_lock_def s_unlock_def evicted_def Let_def
        split: option.split)
  with assms show ?thesis
    using same_settings_begin [of v E t path] by (auto simp: underway_def in_depth_def same_settings_def evicted_def split: if_split_asm)
qed

lemma write_begin_ready:
  assumes "represents m c v P" "mallocs m = []" "v_enabled v \<noteq> 0" "v_max v > 0"
    "dcCreateDirPath fullpath dir_mask = Some path" "0 \<le> n"
  shows "\<exists>a m1 v1 l. dircache_write_begin S t m (Some c) fullpath dir_mask n = Some (Some a, m1) \<and>
    mallocs m1 = [] \<and> apart (Some c) m m1 \<and> represents m1 c v1 (P(a \<mapsto> (l, False))) \<and> underway v v1"
proof -
  from assms(4) have "v_list v \<noteq> [] \<or> v_max v > 0" by simp
  note begun = write_begin_rep [OF assms(1,5,2,6) this, of S t]
  obtain l where "fst (s_begin S t v path) = Some l"
    using assms(3) by (cases "List.find (s_matches S path) (evicted v)")
      (auto simp: s_begin_def s_write_begin_def s_evict_def evicted_def split: if_split_asm)
  with begun obtain a m1 where "dircache_write_begin S t m (Some c) fullpath dir_mask n = Some (Some a, m1)"
    "mallocs m1 = []" "apart (Some c) m m1" "represents m1 c (snd (s_begin S t v path)) (P(a \<mapsto> (l, False)))"
    by auto
  with underway_begin [OF assms(4)] show ?thesis by blast
qed

text \<open>The listing of a directory that a server sends: the session, the handle of the directory and the answers.\<close>

definition serves_dir ::
  "('w, 'x) ndp_scheme \<Rightarrow> nat \<Rightarrow> string \<Rightarrow> file_info list \<Rightarrow> 'w \<Rightarrow> 'w \<Rightarrow> bool" where
  "serves_dir S k pathname fis w w' \<longleftrightarrow> \<not> cli_has_async_calls S k w \<and>
     PROTOCOL_SMB2_02 S \<le> smbXcli_conn_protocol S k w \<and> goes_on S \<and> STATUS_NO_MORE_FILES S \<noteq> 0 \<and>
     (\<exists>parent msk fn hnd w1 w2 bufs fiss. windows_parent_dirname S pathname = Some (parent, msk) \<and>
        ms_has_wild S msk \<and> cli_smb2_create_fnum S k parent w = (0, fn, w1) \<and>
        map_fnum_to_smb2_handle S k fn w1 = (0, hnd) \<and>
        sends S k hnd msk (case smb2cli_req_possible S k w1 of Some avail \<Rightarrow> min (smb2cli_max_trans S k w1) avail
           | None \<Rightarrow> smb2cli_max_trans S k w1) w1 bufs w2 \<and>
        list_all2 (chain S) bufs fiss \<and> concat fiss = fis \<and>
        w' = (if fn \<noteq> 0xffff then cli_smb2_close_fnum S k fn w2 else w2))"

lemma list_files_smb2_served:
  assumes "serves_dir S k pathname fis w w'" "fs_pdc st = Some c" "represents m c v P" "mallocs m = []"
    "v_enabled v \<noteq> 0" "v_max v > 0" "dcCreateDirPath (fs_fullpath st) (fs_dir_mask st) = Some path"
    "wanted S att fis \<noteq> []" "dir_adds S (wanted S att fis) st = Some st'"
    "dircache_store S t m c (fs_fullpath st) (fs_dir_mask st) 128 (wanted S att fis) = Some m'"
  shows "list_files_smb2 S t k pathname att st m w = Some (0, st', m', w')"
proof -
  from assms(1) obtain parent msk fn hnd w1 w2 bufs fiss where srv: "\<not> cli_has_async_calls S k w"
    "PROTOCOL_SMB2_02 S \<le> smbXcli_conn_protocol S k w" "goes_on S" "STATUS_NO_MORE_FILES S \<noteq> 0"
    "windows_parent_dirname S pathname = Some (parent, msk)" "ms_has_wild S msk"
    "cli_smb2_create_fnum S k parent w = (0, fn, w1)" "map_fnum_to_smb2_handle S k fn w1 = (0, hnd)"
    "sends S k hnd msk (case smb2cli_req_possible S k w1 of Some avail \<Rightarrow> min (smb2cli_max_trans S k w1) avail
       | None \<Rightarrow> smb2cli_max_trans S k w1) w1 bufs w2"
    "list_all2 (chain S) bufs fiss" "concat fiss = fis"
    "w' = (if fn \<noteq> 0xffff then cli_smb2_close_fnum S k fn w2 else w2)"
    unfolding serves_dir_def by blast
  have "0 \<le> (128 :: int)" by simp
  from write_begin_ready [OF assms(3-7) this, of S t] obtain a m1 v1 l where
    b: "dircache_write_begin S t m (Some c) (fs_fullpath st) (fs_dir_mask st) 128 = Some (Some a, m1)"
    "mallocs m1 = []" "represents m1 c v1 (P(a \<mapsto> (l, False)))" by blast
  from smb2_answers_sends [OF srv(3,6,4,9,10) b(2,3) _ , of a l False att st st' False] assms(9) srv(11) obtain m2 where
    m2: "smb2_answers S k hnd (Some a) msk (case smb2cli_req_possible S k w1 of Some avail \<Rightarrow> min (smb2cli_max_trans S k w1) avail
       | None \<Rightarrow> smb2cli_max_trans S k w1) att False st m1 w1 =
      Some (LoopDone (STATUS_NO_MORE_FILES S), True, st', m2, w2)"
    "dircache_write_entries S m1 (Some a) (wanted S att fis) = Some m2" using assms(8) by auto
  from assms(10) b(1) m2(2) have "dircache_write_end S m2 (Some a) = Some m'"
    by (simp add: dircache_store_def)
  with b(1) m2(1) srv assms(2) show ?thesis
    by (simp add: list_files_smb2_def NT_STATUS_IS_OK_def smb2_fail_def smb2_end_status_def not_less [symmetric] Let_def)
qed

text \<open>A directory of a share, over either protocol: the entries, and the world after they were sent.\<close>

definition listing_attr :: u16 where
  "listing_attr = ucast (aHIDDEN OR aSYSTEM OR aDIR)"

definition has_listing ::
  "('w, 'x) ndp_scheme \<Rightarrow> nat \<Rightarrow> string \<Rightarrow> smbwrp_fileinfo list \<Rightarrow> 'w \<Rightarrow> 'w \<Rightarrow> bool" where
  "has_listing S k msk infos w w' \<longleftrightarrow> infos \<noteq> [] \<and> length infos < 2 ^ 31 \<and>
     ((\<exists>fis. serves_dir S k msk fis w w' \<and> infos = wanted S (ucast listing_attr) fis) \<or>
      (\<exists>fis. smbXcli_conn_protocol S k w < PROTOCOL_SMB2_02 S \<and> \<not> cli_has_async_calls S k w \<and>
         cli_list S k msk listing_attr w = (Some fis, w') \<and> infos = map (wrp_info S) fis))"

lemma sint_of_nat_small: "n < 2 ^ 31 \<Longrightarrow> sint (word_of_nat n :: u32) = int n"
  by (subst signed_of_nat) (simp add: signed_take_bit_int_eq_self)

lemma list_files_fetches:
  assumes "has_listing S k (fs_mask st) infos w w'" "fs_pdc st = Some c" "represents m c v P" "mallocs m = []"
    "v_enabled v \<noteq> 0" "v_max v > 0" "icmp_refl S" "dcCreateDirPath (fs_fullpath st) (fs_dir_mask st) = Some path"
    "fst (s_list_files S t v path) = None" "dir_adds S infos st = Some st'" "t' - t < v_exp v"
  shows "\<exists>n m1 m2. list_files S t junk k (fs_mask st) listing_attr st m w = Some (n, st', m1, w') \<and> 0 \<le> n \<and>
    dircache_list_files S t' m1 (Some c) (fs_fullpath st) (fs_dir_mask st) = Some (True, infos, Some (int (length infos)), m2) \<and>
    listed_first S m1 c path t infos"
proof -
  from list_files_rep [OF assms(3,8), of S t] assms(4,9) obtain m0 where
    miss: "dircache_list_files S t m (Some c) (fs_fullpath st) (fs_dir_mask st) = Some (False, [], None, m0)"
    and m0: "represents m0 c (snd (s_list_files S t v path)) P" "mallocs m0 = []" by auto
  have set0: "v_enabled (snd (s_list_files S t v path)) = v_enabled v" "v_max (snd (s_list_files S t v path)) = v_max v"
    "v_exp (snd (s_list_files S t v path)) = v_exp v"
    by (auto simp: s_list_files_def s_read_def split_beta split: option.split)
  note st0 = m0 assms(5,6) [folded set0(1,2)]
  from stored_first [OF st0 assms(7,8) _ assms(11) [folded set0(3)], of _ infos] have store:
    "0 \<le> q \<Longrightarrow> \<exists>m1 m2. dircache_store S t m0 c (fs_fullpath st) (fs_dir_mask st) q infos = Some m1 \<and>
      dircache_list_files S t' m1 (Some c) (fs_fullpath st) (fs_dir_mask st) = Some (True, infos, Some (int (length infos)), m2) \<and>
      listed_first S m1 c path t infos" for q .
  from assms(1) consider (smb2) fis where "serves_dir S k (fs_mask st) fis w w'" "infos = wanted S (ucast listing_attr) fis" "infos \<noteq> []"
    | (smb1) fis where "smbXcli_conn_protocol S k w < PROTOCOL_SMB2_02 S" "\<not> cli_has_async_calls S k w"
        "cli_list S k (fs_mask st) listing_attr w = (Some fis, w')" "infos = map (wrp_info S) fis" "length infos < 2 ^ 31"
    unfolding has_listing_def by blast
  then show ?thesis
  proof cases
    case smb2
    from store [of 128] obtain m1 m2 where m1: "dircache_store S t m0 c (fs_fullpath st) (fs_dir_mask st) 128 infos = Some m1"
      "dircache_list_files S t' m1 (Some c) (fs_fullpath st) (fs_dir_mask st) = Some (True, infos, Some (int (length infos)), m2)"
      "listed_first S m1 c path t infos" by auto
    have "list_files_smb2 S t k (fs_mask st) (ucast listing_attr) st m0 w = Some (0, st', m1, w')"
      using smb2(2,3) list_files_smb2_served [OF smb2(1) assms(2) m0(1) m0(2) _ _ assms(8)] st0(3,4) assms(10) m1(1) by simp
    moreover have "PROTOCOL_SMB2_02 S \<le> smbXcli_conn_protocol S k w" using smb2(1) by (simp add: serves_dir_def)
    ultimately show ?thesis using miss m1(2,3) assms(2)
      by (simp add: list_files_def status_int_def)
  next
    case smb1
    let ?n = "sint (word_of_nat (length fis) :: u32)"
    have n: "?n = int (length infos)" using smb1(4,5) sint_of_nat_small [of "length fis"] by simp
    from store [of ?n] n obtain m1 m2 where m1: "dircache_store S t m0 c (fs_fullpath st) (fs_dir_mask st) ?n infos = Some m1"
      "dircache_list_files S t' m1 (Some c) (fs_fullpath st) (fs_dir_mask st) = Some (True, infos, Some (int (length infos)), m2)"
      "listed_first S m1 c path t infos" by auto
    from m1(1) obtain ctx ma mb where parts: "dircache_write_begin S t m0 (Some c) (fs_fullpath st) (fs_dir_mask st) ?n = Some (ctx, ma)"
      "dircache_write_entries S ma ctx infos = Some mb" "dircache_write_end S mb ctx = Some m1"
      by (auto simp: dircache_store_def elim!: bindE)
    have "dircache_write_infos S ctx infos st ma = Some (st', mb)"
      using assms(10) parts(2) by (simp add: dircache_write_infos_iff)
    with parts smb1 miss assms(2) n m1(2,3) show ?thesis
      by (simp add: list_files_def)
  qed
qed

subsection \<open>An example server\<close>

text \<open>A server that has one answer with two elements for each number in the world.\<close>

definition finfo0 :: "string \<Rightarrow> file_info" where
  "finfo0 name = \<lparr>s_size = 3, s_mode = 0x20, s_btime = 0, s_atime = 0, s_mtime = 0, s_ctime = 0, s_name = name\<rparr>"

definition ndp_dir :: "nat list ndp" where
  "ndp_dir = ndp0\<lparr>windows_parent_dirname := \<lambda>s. Some (''d'', ''*''),
     smb2cli_query_directory := \<lambda>c h s n w. (case w of [] \<Rightarrow> (0x80000006, [], []) | x # xs \<Rightarrow> (0, ''ab'', xs)),
     parse_finfo := \<lambda>s. (0, finfo0 s, if length s = 2 then 1 else 0), fsphNameElem := \<lambda>w. Some (1, ''*'')\<rparr>"

definition list0 :: filelist_state where
  "list0 = \<lparr>fs_mask = ''d/*'', fs_dir = ''d/'', fs_dir_mask = ''*'', fs_finfo = fileinfo0, fs_share = ''sh'',
     fs_pdc = Some 0, fs_plist = [], fs_ulAttribute = 0x16, fs_fullpath = ''a/*''\<rparr>"

lemma dir0: "serves_dir ndp_dir 1 pathname [finfo0 ''ab'', finfo0 ''b''] [7] []"
proof -
  have "sends ndp_dir 1 1 ''*'' 65536 [7] [''ab''] []" "list_all2 (chain ndp_dir) [''ab''] [[finfo0 ''ab'', finfo0 ''b'']]"
    by (simp_all add: ndp_dir_def ndp0_simps)
  then show ?thesis
    unfolding serves_dir_def
    by (intro conjI exI [of _ "''d''"] exI [of _ "''*''"] exI [of _ "1 :: u16"] exI [of _ "1 :: nat"] exI [of _ "[7 :: nat]"]
        exI [of _ "[] :: nat list"] exI [of _ "[''ab'']"] exI [of _ "[[finfo0 ''ab'', finfo0 ''b'']]"])
      (simp_all add: ndp_dir_def ndp0_simps goes_on_def)
qed

lemma dir_check0 [simp]: "dir_check_ftype ndp_dir a b"
  by (simp add: ndp_dir_def ndp0_simps)

lemma wanted0: "wanted ndp_dir att [finfo0 ''ab'', finfo0 ''b''] = map (wrp_info ndp_dir) [finfo0 ''ab'', finfo0 ''b'']"
  by simp

lemma has_listing0: "has_listing ndp_dir 1 pathname (map (wrp_info ndp_dir) [finfo0 ''ab'', finfo0 ''b'']) [7] []"
  using dir0 [of pathname] wanted0 [of "ucast listing_attr"] by (auto simp: has_listing_def)

lemma icmp_refl_dir: "icmp_refl ndp_dir"
  by (simp add: icmp_refl_def ndp_dir_def ndp0_simps icmp0_def)

lemma list0_path: "dcCreateDirPath (fs_fullpath list0) (fs_dir_mask list0) = Some ''a''"
  by (simp add: list0_def dcCreateDirPath_def)

lemma view0_ok: "v_enabled (view0 9 2) \<noteq> 0" "v_max (view0 9 2) > 0" "(8 :: u32) - 3 < v_exp (view0 9 2)"
  by (simp_all add: view0_def)

subsection \<open>Theorems\<close>



text \<open>C7: A directory of a share that was listed, over SMB 1 or SMB 2, is listed again from the cache until
  the listing expires: the host gets the same entries in the same order, and the server is not asked.\<close>

theorem second_listing_same:
  assumes "has_listing S k (fs_mask st) infos w w'" "fs_pdc st = Some c" "represents m c v P" "mallocs m = []"
    "v_enabled v \<noteq> 0" "v_max v > 0" "icmp_refl S" "dcCreateDirPath (fs_fullpath st) (fs_dir_mask st) = Some path"
    "fst (s_list_files S t v path) = None" "length (fs_dir st) < 260" "t' - t < v_exp v"
    "fs_mask st \<noteq> []" "server_name sv \<noteq> []" "\<not> not_a_share sv"
  shows "\<exists>st' m1 m2. smbwrp_filelist S t junk sv (Some k) st m w = Some (0, st', m1, w') \<and>
    smbwrp_filelist S t' junk' sv (Some k) st m1 w'' = Some (0, st', m2, w'')"
proof -
  obtain st' where st': "dir_adds S infos st = Some st'" using dir_adds_defined [OF assms(10)] by blast
  from list_files_fetches [OF assms(1-9) st' assms(11), of junk] obtain n m1 m2 where
    1: "list_files S t junk k (fs_mask st) listing_attr st m w = Some (n, st', m1, w')" "0 \<le> n"
    "dircache_list_files S t' m1 (Some c) (fs_fullpath st) (fs_dir_mask st) = Some (True, infos, Some (int (length infos)), m2)"
    by blast
  then have "list_files S t' junk' k (fs_mask st) listing_attr st m1 w'' = Some (int (length infos), st', m2, w'')"
    using st' assms(2) by (simp add: list_files_def)
  with 1 assms(12-14) show ?thesis by (simp add: smbwrp_filelist_def listing_attr_def)
qed

theorem second_listing_same_witness:
  "\<exists>st' m1 m2. smbwrp_filelist ndp_dir 3 0 (server0\<lparr>share_name := ''sh''\<rparr>) (Some 1) list0 (cache0 9 2) [7] = Some (0, st', m1, []) \<and>
    smbwrp_filelist ndp_dir 8 0 (server0\<lparr>share_name := ''sh''\<rparr>) (Some 1) list0 m1 [5] = Some (0, st', m2, [5])"
proof -
  have miss: "fst (s_list_files ndp_dir 3 (view0 9 2) ''a'') = None"
    by (simp add: s_list_files_def s_read_def view0_def s_lock_def split_beta)
  show ?thesis
    by (rule second_listing_same [OF has_listing0 _ cache0_rep cache0_mallocs view0_ok(1,2) icmp_refl_dir list0_path miss _ view0_ok(3)])
      (simp_all add: list0_def server0_def not_a_share_def icmp0_def ascii_upper_def byte_of_def char_of_byte_def)
qed

end
