(* ===== verification/Listing_Termination.thy ===== *)
theory Listing_Termination
  imports Listing_Theorems
begin

text \<open>
  Every listing ends, on every way through the code, when the server runs out of answers: the elements
  of an answer move on through its buffer, and with every answer the server has less left. On the way
  the cache stays well formed, and the other caches in the same memory are not touched.
\<close>

subsection \<open>Servers that run out of answers\<close>

text \<open>
  \<open>left\<close> measures what a server has still to send. The offset the library finds in an element does not
  lead out of the buffer, and a listing over SMB 1 has fewer than 2 to the 31 elements.
\<close>

definition runs_out :: "('w, 'x) ndp_scheme \<Rightarrow> ('w \<Rightarrow> nat) \<Rightarrow> bool" where
  "runs_out S left \<longleftrightarrow>
     (\<forall>c hnd msk n w data w'. smb2cli_query_directory S c hnd msk n w = (0, data, w') \<longrightarrow> left w' < left w) \<and>
     (\<forall>buf fi n. parse_finfo S buf = (0, fi, n) \<longrightarrow> n \<le> length buf) \<and>
     (\<forall>c msk a w fis w'. cli_list S c msk a w = (Some fis, w') \<longrightarrow> length fis < 2 ^ 31)"

lemma runs_outD:
  assumes "runs_out S left"
  shows "smb2cli_query_directory S c hnd msk n w = (0, data, w') \<Longrightarrow> left w' < left w"
    "parse_finfo S buf = (0, fi, k) \<Longrightarrow> k \<le> length buf"
    "cli_list S c msk a w = (Some fis, w') \<Longrightarrow> length fis < 2 ^ 31"
  using assms unfolding runs_out_def by blast+

subsection \<open>What a listing keeps\<close>

definition same_request :: "filelist_state \<Rightarrow> filelist_state \<Rightarrow> bool" where
  "same_request st st' \<longleftrightarrow> fs_dir st' = fs_dir st \<and> fs_fullpath st' = fs_fullpath st \<and>
     fs_dir_mask st' = fs_dir_mask st \<and> fs_pdc st' = fs_pdc st \<and> fs_mask st' = fs_mask st"

lemma same_request_refl [simp]: "same_request st st"
  by (simp add: same_request_def)

lemma same_request_trans: "same_request a b \<Longrightarrow> same_request b c \<Longrightarrow> same_request a c"
  by (simp add: same_request_def)

lemma dir_adds_request: "dir_adds S infos st = Some st' \<Longrightarrow> same_request st st'"
  by (drule dir_adds_keeps) (simp add: same_request_def)

lemma dir_add_returns:
  "length (fs_dir st) < 260 \<Longrightarrow> \<exists>r st'. smbwrp_dir_add S f st = Some (r, st') \<and> same_request st st'"
  by (auto simp: smbwrp_dir_add_def Let_def case_prod_beta same_request_def)

text \<open>The cache is well formed, with the same settings and within its depth, the others are as before, and memory is not short.\<close>

definition cache_kept :: "nat \<Rightarrow> view \<Rightarrow> dcmem \<Rightarrow> dcmem \<Rightarrow> bool" where
  "cache_kept c v m m' \<longleftrightarrow> apart (Some c) m m' \<and> mallocs m' = [] \<and>
     (\<exists>v' P'. represents m' c v' P' \<and> view_kept v v')"

lemma cache_keptI:
  "apart (Some c) m m' \<Longrightarrow> mallocs m' = [] \<Longrightarrow> represents m' c v' P' \<Longrightarrow> view_kept v v' \<Longrightarrow> cache_kept c v m m'"
  by (auto simp: cache_kept_def)

lemma cache_kept_trans:
  assumes "apart (Some c) m m'" "cache_kept c v' m' m''" "view_kept v v'"
  shows "cache_kept c v m m''"
  using assms apart_trans [OF assms(1)] view_kept_trans [OF assms(3)] unfolding cache_kept_def by blast

subsection \<open>Elements and answers\<close>

text \<open>The writer of the listing, and what happens to it on the way.\<close>

lemma smb2_entries_returns:
  assumes "runs_out S left" "length (fs_dir st) < 260" "mallocs m = []" "represents m c v P" "P a = Some lb"
  shows "\<exists>ex pr' st' m' v' lb'. smb2_entries S (Some a) att buf pr st m = Some (ex, pr', st', m') \<and>
    same_request st st' \<and> mallocs m' = [] \<and> apart (Some c) m m' \<and>
    represents m' c v' (P(a \<mapsto> lb')) \<and> same_view v v'"
  using assms(2-)
proof (induction "length buf" arbitrary: buf pr st m v P lb rule: less_induct)
  case less
  note step = smb2_entries.simps [of S "Some a" att buf pr st m]
  have same: "P(a \<mapsto> lb) = P" using less.prems(4) by (simp add: map_upd_triv)
  have stop: ?case if "smb2_entries S (Some a) att buf pr st m = Some (ex, pr, st, m)" for ex
    using that less.prems(2,3) same
    by (intro exI [of _ ex] exI [of _ pr] exI [of _ st] exI [of _ m] exI [of _ v] exI [of _ lb]) simp
  obtain status fi n where parse: "parse_finfo S buf = (status, fi, n)" by (metis surj_pair)
  show ?case
  proof (cases "status = 0")
    case False
    with parse less.prems(2) show ?thesis
      by (intro stop [of "GotoFail status"]) (subst step, simp add: NT_STATUS_IS_OK_def)
  next
    case True
    with parse runs_outD(2) [OF assms(1)] have n: "n \<le> length buf" by blast
    let ?wanted = "dir_check_ftype S (s_mode fi) att"
    let ?i = "wrp_info S fi"
    obtain status1 pr1 st1 m1 v1 lb1 where
      one: "same_request st st1" "mallocs m1 = []" "apart (Some c) m m1" "represents m1 c v1 (P(a \<mapsto> lb1))"
        "same_view v v1"
      and run: "smb2_entries S (Some a) att buf pr st m =
        (if status1 \<noteq> 0 \<or> n = 0 then Some (LoopDone status1, pr1, st1, m1)
         else smb2_entries S (Some a) att (drop n buf) pr1 st1 m1)"
    proof (cases ?wanted)
      case False
      show thesis
        by (rule that [of st m v lb 0 pr]) (use less.prems(2,3) same parse True n False in \<open>simp_all add: step NT_STATUS_IS_OK_def\<close>)
    next
      case wanted: True
      from dir_add_returns [OF less.prems(1)] obtain r st1 where
        add: "smbwrp_dir_add S ?i st = Some (r, st1)" "same_request st st1" by blast
      obtain l bad where "P a = Some (l, bad)" using less.prems(4) by (cases lb) auto
      from write_entry_rep [OF less.prems(3) this, of S ?i] less.prems(2) obtain m1 where
        m1: "dircache_write_entry S m (Some a) ?i = Some m1" "mallocs m1 = []" "apart (Some c) m m1"
        "represents m1 c (s_unlock (s_lock S v)) (P(a \<mapsto> (l\<lparr>l_infos := l_infos l @ [?i]\<rparr>, bad)))" by auto
      show thesis
        by (rule that [of st1 m1 "s_unlock (s_lock S v)" _ "if r = NT_STATUS_WAIT_1 S then 0 else r" True])
          (use add m1 less.prems(2) parse True n wanted in \<open>simp_all add: step NT_STATUS_IS_OK_def\<close>)
    qed
    show ?thesis
    proof (cases "status1 \<noteq> 0 \<or> n = 0")
      case True
      with run have "smb2_entries S (Some a) att buf pr st m = Some (LoopDone status1, pr1, st1, m1)" by simp
      with one show ?thesis by blast
    next
      case False
      with n have shorter: "length (drop n buf) < length buf" by auto
      have dir: "length (fs_dir st1) < 260" using one(1) less.prems(1) by (simp add: same_request_def)
      have "(P(a \<mapsto> lb1)) a = Some lb1" by simp
      from less.hyps [OF shorter dir one(2,4) this, of pr1] obtain ex pr' st' m' v' lb' where
        "smb2_entries S (Some a) att (drop n buf) pr1 st1 m1 = Some (ex, pr', st', m')" "same_request st1 st'"
        "mallocs m' = []" "apart (Some c) m1 m'" "represents m' c v' (P(a \<mapsto> lb'))" "same_view v1 v'"
        by (auto simp del: fun_upd_apply)
      with run False one(1,3,5) show ?thesis
        by (intro exI [of _ ex] exI [of _ pr'] exI [of _ st'] exI [of _ m'] exI [of _ v'] exI [of _ lb'])
          (auto intro: same_request_trans apart_trans same_view_trans)
    qed
  qed
qed

lemma smb2_answers_returns:
  assumes "runs_out S left" "length (fs_dir st) < 260" "mallocs m = []" "represents m c v P" "P a = Some lb"
  shows "\<exists>ex pr' st' m' w' v' lb'. smb2_answers S k hnd (Some a) msk n att pr st m w = Some (ex, pr', st', m', w') \<and>
    same_request st st' \<and> mallocs m' = [] \<and> apart (Some c) m m' \<and>
    represents m' c v' (P(a \<mapsto> lb')) \<and> same_view v v'"
  using assms(2-)
proof (induction "left w" arbitrary: w pr st m v P lb rule: less_induct)
  case less
  note step = smb2_answers.simps [of S k hnd "Some a" msk n att pr st m w]
  have same: "P(a \<mapsto> lb) = P" using less.prems(4) by (simp add: map_upd_triv)
  obtain status data w1 where q: "smb2cli_query_directory S k hnd msk n w = (status, data, w1)" by (metis surj_pair)
  show ?case
  proof (cases "status = 0")
    case False
    let ?ex = "if status = STATUS_NO_MORE_FILES S then LoopDone status else GotoFail status"
    have "smb2_answers S k hnd (Some a) msk n att pr st m w = Some (?ex, pr, st, m, w1)"
      using q False by (subst step) (simp add: NT_STATUS_IS_OK_def)
    with less.prems(2,3) same show ?thesis
      by (intro exI [of _ ?ex] exI [of _ pr] exI [of _ st] exI [of _ m] exI [of _ w1] exI [of _ v] exI [of _ lb]) simp
  next
    case True
    from smb2_entries_returns [OF assms(1) less.prems] obtain ex pr1 st1 m1 v1 lb1 where
      one: "smb2_entries S (Some a) att data pr st m = Some (ex, pr1, st1, m1)" "same_request st st1"
      "mallocs m1 = []" "apart (Some c) m m1" "represents m1 c v1 (P(a \<mapsto> lb1))" "same_view v v1" by blast
    have run: "smb2_answers S k hnd (Some a) msk n att pr st m w =
        (case ex of GotoFail status \<Rightarrow> Some (GotoFail status, pr1, st1, m1, w1)
         | LoopDone status \<Rightarrow>
             if \<not> ms_has_wild S msk then Some (LoopDone (STATUS_NO_MORE_FILES S), pr1, st1, m1, w1)
             else if status = 0 then smb2_answers S k hnd (Some a) msk n att pr1 st1 m1 w1
             else Some (LoopDone status, pr1, st1, m1, w1))"
      using q True one(1) by (subst step) (cases ex; simp add: NT_STATUS_IS_OK_def)
    show ?thesis
    proof (cases "ms_has_wild S msk \<and> ex = LoopDone 0")
      case False
      with run one obtain ex' where "smb2_answers S k hnd (Some a) msk n att pr st m w = Some (ex', pr1, st1, m1, w1)"
        by (cases ex) (auto split: if_split_asm)
      with one show ?thesis by blast
    next
      case more: True
      from runs_outD(1) [OF assms(1)] q True have "left w1 < left w" by blast
      note IH = less.hyps [OF this]
      have dir: "length (fs_dir st1) < 260" using one(2) less.prems(1) by (simp add: same_request_def)
      have "(P(a \<mapsto> lb1)) a = Some lb1" by simp
      from IH [OF dir one(3,5) this, of pr1] obtain ex' pr' st' m' w' v' lb' where
        "smb2_answers S k hnd (Some a) msk n att pr1 st1 m1 w1 = Some (ex', pr', st', m', w')" "same_request st1 st'"
        "mallocs m' = []" "apart (Some c) m1 m'" "represents m' c v' (P(a \<mapsto> lb'))" "same_view v1 v'"
        by (auto simp del: fun_upd_apply)
      with run more one(2,4,6) show ?thesis
        by (intro exI [of _ ex'] exI [of _ pr'] exI [of _ st'] exI [of _ m'] exI [of _ w'] exI [of _ v'] exI [of _ lb'])
          (auto intro: same_request_trans apart_trans same_view_trans)
    qed
  qed
qed

subsection \<open>Whole listings\<close>

text \<open>A listing that is underway is ended: it goes into the list, where there is room for it.\<close>

lemma ended:
  assumes "represents m c v P" "mallocs m = []" "P a = Some lb" "apart (Some c) m0 m" "underway v0 v"
  shows "\<exists>m'. dircache_write_end S m (Some a) = Some m' \<and> cache_kept c v0 m0 m'"
proof -
  obtain l bad where "P a = Some (l, bad)" using assms(3) by (cases lb) auto
  from write_end_rep [OF assms(1) this assms(2), of S] assms(4) underway_end [OF assms(5)] show ?thesis
    by (auto intro!: cache_keptI intro: apart_trans)
qed

text \<open>The cache is there and takes listings, and the request fits the buffer of the callback.\<close>

definition listable :: "filelist_state \<Rightarrow> dcmem \<Rightarrow> nat \<Rightarrow> view \<Rightarrow> bool" where
  "listable st m c v \<longleftrightarrow> fs_pdc st = Some c \<and> (\<exists>P. represents m c v P) \<and> mallocs m = [] \<and>
     v_enabled v \<noteq> 0 \<and> v_max v > 0 \<and> length (fs_dir st) < 260 \<and>
     (\<exists>path. dcCreateDirPath (fs_fullpath st) (fs_dir_mask st) = Some path)"

lemma listable_kept:
  "listable st m c v \<Longrightarrow> same_request st st' \<Longrightarrow> mallocs m' = [] \<Longrightarrow> represents m' c v' P' \<Longrightarrow> view_kept v v' \<Longrightarrow>
     listable st' m' c v'"
  unfolding listable_def same_request_def view_kept_def same_settings_def by auto

lemma cache_kept_refl:
  assumes "listable st m c v"
  shows "cache_kept c v m m"
  using assms by (auto simp: listable_def intro: cache_keptI)

lemma list_files_smb2_returns:
  assumes "runs_out S left" "listable st m c v"
  shows "\<exists>status st' m' w'. list_files_smb2 S t k pathname att st m w = Some (status, st', m', w') \<and>
    same_request st st' \<and> cache_kept c v m m'"
proof -
  from assms(2) obtain P path where l: "fs_pdc st = Some c" "represents m c v P" "mallocs m = []" "v_enabled v \<noteq> 0"
    "v_max v > 0" "length (fs_dir st) < 260" "dcCreateDirPath (fs_fullpath st) (fs_dir_mask st) = Some path"
    unfolding listable_def by blast
  have "0 \<le> (128 :: int)" by simp
  from write_begin_ready [OF l(2-5,7) this, of S t] obtain a m1 v1 b where
    b: "dircache_write_begin S t m (Some c) (fs_fullpath st) (fs_dir_mask st) 128 = Some (Some a, m1)"
    "mallocs m1 = []" "apart (Some c) m m1" "represents m1 c v1 (P(a \<mapsto> b))" "underway v v1" by blast
  have stop: ?thesis if "list_files_smb2 S t k pathname att st m w = Some (smb2_fail S k fn status st m1 w1)" for fn status w1
    using that b(2-5) by (auto simp: smb2_fail_def intro: cache_keptI underway_kept)
  show ?thesis
  proof (cases "cli_has_async_calls S k w \<or> smbXcli_conn_protocol S k w < PROTOCOL_SMB2_02 S \<or>
      windows_parent_dirname S pathname = None")
    case True
    then show ?thesis using b(1) l(1) stop by (auto simp: list_files_smb2_def)
  next
    case False
    then obtain parent msk where conn: "windows_parent_dirname S pathname = Some (parent, msk)" by auto
    obtain status fn w1 where opened: "cli_smb2_create_fnum S k parent w = (status, fn, w1)" by (metis surj_pair)
    obtain status1 hnd where handle: "map_fnum_to_smb2_handle S k fn w1 = (status1, hnd)" by (metis surj_pair)
    note runs = list_files_smb2_def l(1) b(1) False conn opened handle NT_STATUS_IS_OK_def Let_def
    show ?thesis
    proof (cases "status = 0 \<and> status1 = 0")
      case bad: False
      then consider "status \<noteq> 0" | "status = 0" "status1 \<noteq> 0" by blast
      then show ?thesis using stop False by cases (auto simp: runs)
    next
      case ok: True
      let ?n = "case smb2cli_req_possible S k w1 of Some avail \<Rightarrow> min (smb2cli_max_trans S k w1) avail
        | None \<Rightarrow> smb2cli_max_trans S k w1"
      have "(P(a \<mapsto> b)) a = Some b" by simp
      from smb2_answers_returns [OF assms(1) l(6) b(2,4) this, of k hnd msk ?n att False w1]
      obtain ex pr st' m2 w2 v2 lb where
        ans: "smb2_answers S k hnd (Some a) msk ?n att False st m1 w1 = Some (ex, pr, st', m2, w2)"
        "same_request st st'" "mallocs m2 = []" "apart (Some c) m1 m2" "represents m2 c v2 (P(a \<mapsto> lb))"
        "same_view v1 v2" by (auto simp del: fun_upd_apply)
      have seen: "apart (Some c) m m2" "underway v v2"
        using apart_trans [OF b(3) ans(4)] underway_same [OF b(5) ans(6)] .
      then have kept: "cache_kept c v m m2" using ans(3,5) by (blast intro: cache_keptI underway_kept)
      show ?thesis
      proof (cases ex)
        case (GotoFail s)
        with ok False ans(1,2) kept show ?thesis by (simp add: runs smb2_fail_def)
      next
        case (LoopDone s)
        have "(P(a \<mapsto> lb)) a = Some lb" by simp
        from ended [OF ans(5,3) this seen, of S] obtain m3 where
          "dircache_write_end S m2 (Some a) = Some m3" "cache_kept c v m m3" by blast
        with LoopDone ok False ans(1,2) show ?thesis by (simp add: runs smb2_fail_def)
      qed
    qed
  qed
qed

lemma dir_adds_request_ex: "length (fs_dir st) < 260 \<Longrightarrow> \<exists>st'. dir_adds S infos st = Some st' \<and> same_request st st'"
  using dir_adds_defined dir_adds_request by blast

lemma list_files_returns:
  assumes "runs_out S left" "listable st m c v"
  shows "\<exists>n st' m' w'. list_files S t junk k msk att st m w = Some (n, st', m', w') \<and>
    same_request st st' \<and> cache_kept c v m m'"
proof -
  from assms(2) obtain P path where l: "fs_pdc st = Some c" "represents m c v P" "mallocs m = []" "v_enabled v \<noteq> 0"
    "v_max v > 0" "length (fs_dir st) < 260" "dcCreateDirPath (fs_fullpath st) (fs_dir_mask st) = Some path"
    unfolding listable_def by blast
  let ?v = "snd (s_list_files S t v path)"
  have settings: "view_kept v ?v"
    by (rule view_kept_shorter) (auto simp: s_list_files_def s_read_def same_settings_def s_lock_def s_unlock_def split_beta remove_first_length split: option.split)
  obtain found infos total m0 where
    look: "dircache_list_files S t m (Some c) (fs_fullpath st) (fs_dir_mask st) = Some (found, infos, total, m0)"
    "mallocs m0 = []" "apart (Some c) m m0" "represents m0 c ?v P"
    using list_files_rep [OF l(2,7), of S t] l(3) by (cases "fst (s_list_files S t v path)") auto
  from dir_adds_request_ex [OF l(6)] obtain st1 where st1: "dir_adds S infos st = Some st1" "same_request st st1" by blast
  note runs = list_files_def l(1) look(1) st1(1) Let_def
  have stop: ?thesis if "list_files S t junk k msk att st m w = Some (n, st1, m0, w1)" for n w1
    using that st1(2) look(2-4) settings by (auto intro: cache_keptI)
  have ready: "listable st1 m0 c ?v" using listable_kept [OF assms(2) st1(2) look(2,4) settings] .
  consider (known) found | (smb2) "\<not> found" "PROTOCOL_SMB2_02 S \<le> smbXcli_conn_protocol S k w"
    | (busy) "\<not> found" "smbXcli_conn_protocol S k w < PROTOCOL_SMB2_02 S" "cli_has_async_calls S k w"
    | (smb1) "\<not> found" "smbXcli_conn_protocol S k w < PROTOCOL_SMB2_02 S" "\<not> cli_has_async_calls S k w"
    by fastforce
  then show ?thesis
  proof cases
    case known
    then show ?thesis using stop by (simp add: runs)
  next
    case smb2
    from list_files_smb2_returns [OF assms(1) ready, of t k msk "ucast att" w] obtain status st' m' w' where
      "list_files_smb2 S t k msk (ucast att) st1 m0 w = Some (status, st', m', w')" "same_request st1 st'"
      "cache_kept c ?v m0 m'" by blast
    with smb2 st1(2) look(3) settings show ?thesis
      by (auto simp: runs intro: same_request_trans cache_kept_trans)
  next
    case busy
    then show ?thesis using stop by (simp add: runs)
  next
    case smb1
    obtain fis w1 where fis: "cli_list S k msk att w = (fis, w1)" by (metis surj_pair)
    show ?thesis
    proof (cases fis)
      case None
      with smb1 fis show ?thesis using stop by (simp add: runs)
    next
      case (Some fs)
      let ?n = "sint (word_of_nat (length fs) :: u32)"
      have "0 \<le> ?n" using runs_outD(3) [OF assms(1), of k msk att w fs w1] fis Some sint_of_nat_small by simp
      from ready obtain path1 where path1: "dcCreateDirPath (fs_fullpath st1) (fs_dir_mask st1) = Some path1"
        "v_enabled ?v \<noteq> 0" "v_max ?v > 0" "fs_pdc st1 = Some c" "length (fs_dir st1) < 260" unfolding listable_def by blast
      from write_begin_ready [OF look(4,2) path1(2,3,1) \<open>0 \<le> ?n\<close>, of S t] obtain a m1 v1 b where
        m1: "dircache_write_begin S t m0 (Some c) (fs_fullpath st1) (fs_dir_mask st1) ?n = Some (Some a, m1)"
        "mallocs m1 = []" "apart (Some c) m0 m1" "represents m1 c v1 (P(a \<mapsto> (b, False)))" "underway ?v v1" by blast
      have "(P(a \<mapsto> (b, False))) a = Some (b, False)" by simp
      from write_entries_rep [OF m1(4) this m1(2), of S "map (wrp_info S) fs"] obtain m2 v2 lb where
        m2: "dircache_write_entries S m1 (Some a) (map (wrp_info S) fs) = Some m2" "mallocs m2 = []"
        "represents m2 c v2 (P(a \<mapsto> lb))" "same_settings v1 v2" "apart (Some c) m1 m2" "v_list v2 = v_list v1" by (auto simp del: fun_upd_apply)
      have "(P(a \<mapsto> lb)) a = Some lb" by simp
      from ended [OF m2(3,2) this apart_trans [OF apart_trans [OF look(3) m1(3)] m2(5)]
          underway_same [OF underway_after [OF settings m1(5)]], of S] m2(4,6) obtain m3 where
        m3: "dircache_write_end S m2 (Some a) = Some m3" "cache_kept c v m m3" by (auto simp: same_view_def)
      from dir_adds_request_ex [OF path1(5), of S "map (wrp_info S) fs"] obtain st2 where
        st2: "dir_adds S (map (wrp_info S) fs) st1 = Some st2" "same_request st1 st2" by blast
      have "dircache_write_infos S (Some a) (map (wrp_info S) fs) st1 m1 = Some (st2, m2)"
        using st2(1) m2(1) by (simp add: dircache_write_infos_iff)
      with smb1 fis Some m1(1) m3(1) path1(4)
      have "list_files S t junk k msk att st m w = Some (?n, st2, m3, w1)" by (simp add: runs)
      with m3(2) same_request_trans [OF st1(2) st2(2)] show ?thesis by blast
    qed
  qed
qed

text \<open>The other listings do not go through the cache.\<close>

lemma dots_returns: "length (fs_dir st) < 260 \<Longrightarrow> \<exists>st'. dots S st = Some st' \<and> same_request st st'"
  by (simp add: dots_def smbwrp_special_add_def smbwrp_dir_add_def Let_def case_prod_beta same_request_def)

lemma share_add_returns: "length (fs_dir st) < 260 \<Longrightarrow> \<exists>st'. smbwrp_share_add S sh st = Some st' \<and> same_request st st'"
  by (cases sh) (simp add: smbwrp_share_add_def smbwrp_dir_add_def Let_def case_prod_beta same_request_def)

lemma share_adds_returns: "length (fs_dir st) < 260 \<Longrightarrow> \<exists>st'. share_adds S shs st = Some st' \<and> same_request st st'"
proof (induction shs arbitrary: st)
  case (Cons sh shs)
  from share_add_returns [OF Cons.prems] obtain st1 where
    st1: "smbwrp_share_add S sh st = Some st1" "same_request st st1" by blast
  with Cons.prems have "length (fs_dir st1) < 260" by (simp add: same_request_def)
  from Cons.IH [OF this] st1 show ?case by (auto intro: same_request_trans)
qed simp

lemma smbwrp_filelist_returns:
  assumes "runs_out S left" "listable st m c v"
  shows "\<exists>n st' m' w'. smbwrp_filelist S t junk sv cl st m w = Some (n, st', m', w') \<and>
    same_request st st' \<and> cache_kept c v m m'"
proof -
  have dir: "length (fs_dir st) < 260" and kept: "cache_kept c v m m"
    using assms(2) cache_kept_refl [OF assms(2)] by (auto simp: listable_def)
  from dots_returns [OF dir] obtain st1 where st1: "dots S st = Some st1" "same_request st st1" by blast
  have dir1: "length (fs_dir st1) < 260" using dir st1(2) by (simp add: same_request_def)
  have added: "\<exists>st'. share_adds S shs st2 = Some st' \<and> same_request st st'" if "same_request st st2" for shs st2
    using share_adds_returns [of st2 S shs] that dir by (auto simp: same_request_def)
  show ?thesis
  proof (cases "cl = None \<or> fs_mask st = []")
    case True
    with kept show ?thesis by (auto simp: smbwrp_filelist_def split: option.split)
  next
    case False
    then obtain k where cl: "cl = Some k" "fs_mask st \<noteq> []" by auto
    consider (servers) "server_name sv = []" | (shares) "server_name sv \<noteq> []" "not_a_share sv"
      | (dir) "server_name sv \<noteq> []" "\<not> not_a_share sv" by blast
    then show ?thesis
    proof cases
      case servers
      obtain shs w1 where "cli_NetServerEnum S k (if workgroup sv = [] then master sv else workgroup sv)
        (if workgroup sv = [] then SV_TYPE_DOMAIN_ENUM S else SV_TYPE_ALL S) w = (shs, w1)" by (metis surj_pair)
      with servers cl st1(1) added [OF st1(2), of shs] kept show ?thesis
        by (cases "workgroup sv = []") (auto simp: smbwrp_filelist_def)
    next
      case shares
      obtain n shs w1 where rpc: "net_share_enum_rpc S k w = (n, shs, w1)" by (metis surj_pair)
      obtain n2 shs2 w2 where rap: "cli_RNetShareEnum S k w1 = (n2, shs2, w2)" by (metis surj_pair)
      from added [OF st1(2)] obtain st2 where st2: "share_adds S shs st1 = Some st2" "same_request st st2" by blast
      from added [OF st2(2)] obtain st3 where st3: "share_adds S shs2 st2 = Some st3" "same_request st st3" by blast
      with shares cl st1(1) st2 rpc rap kept show ?thesis by (cases "n < 0") (simp_all add: smbwrp_filelist_def)
    next
      case dir
      from list_files_returns [OF assms, of t junk k "fs_mask st" "ucast (aHIDDEN OR aSYSTEM OR aDIR)" w] dir cl
      show ?thesis by (auto simp: smbwrp_filelist_def)
    qed
  qed
qed

subsection \<open>Theorem\<close>

lemma runs_out_dir: "runs_out ndp_dir length"
  by (auto simp: runs_out_def ndp_dir_def ndp0_simps split: list.split_asm)

lemma listable0: "listable list0 (cache0 9 2) 0 (view0 9 2)"
  using cache0_rep [of 9 2] cache0_mallocs [of 9 2] list0_path view0_ok by (auto simp: listable_def list0_def)



end
