(* ===== verification/Plugin_Safety.thy ===== *)
theory Plugin_Safety
  imports Listing_Termination
begin

text \<open>
  All the calls together: a state in which every connection has its resource and every resource its own
  well-formed cache is kept by every call a host may make, none of these calls is undefined, and a call
  on one connection leaves the other connections, resources and caches alone.
\<close>

subsection \<open>Searches\<close>

text \<open>
  What a search needs beside the connection: a cache that takes listings, memory, a server that runs out
  of answers, and a name that NetDrive takes off the end of the path.
\<close>

definition takes_listings :: "'w plugin \<Rightarrow> nat \<Rightarrow> bool" where
  "takes_listings p h \<longleftrightarrow> mallocs (p_mem p) = [] \<and>
     (\<exists>a v P. cache_of p h = Some a \<and> represents (p_mem p) a v P \<and> v_enabled v \<noteq> 0 \<and> v_max v > 0)"

definition find_path_ok :: "(nat \<times> string) option \<Rightarrow> string \<Rightarrow> bool" where
  "find_path_ok pel path \<longleftrightarrow> path \<noteq> [] \<and> length path < 240 \<and>
     (case pel of None \<Rightarrow> True | Some (len, name) \<Rightarrow> len < length path \<and> length name \<le> len)"

lemma represents_settings:
  assumes "represents m a v P" "represents m a w Q" shows "view_kept v w"
proof -
  from assms obtain as bs where "represents_at m a as v P" "represents_at m a bs w Q" by (auto simp: represents_def)
  from this [THEN represents_at_dc] show ?thesis by (auto simp: view_kept_def same_settings_def in_depth_def)
qed

lemma mem_kept_cache:
  assumes "cache_kept a v m m'" "represents m a v P" "mallocs m = []"
  shows "mem_kept (Some a) m m'"
  unfolding mem_kept_def
proof (intro conjI allI impI)
  show "apart (Some a) m m'" "mallocs m' = mallocs m" using assms by (simp_all add: cache_kept_def)
  fix b w Q assume "Some a = Some b" "represents m b w Q"
  with assms(2) have "b = a" "view_kept w v" by (auto intro: represents_settings)
  with assms(1) show "\<exists>v' P'. represents m' b v' P' \<and> view_kept w v'"
    unfolding cache_kept_def by (blast intro: view_kept_trans)
qed

lemma takes_listings_confined:
  assumes "confined h z p" "takes_listings z h" shows "takes_listings p h"
proof -
  from assms(2) obtain a v P where a: "mallocs (p_mem z) = []" "cache_of z h = Some a" "represents (p_mem z) a v P"
    "v_enabled v \<noteq> 0" "v_max v > 0" unfolding takes_listings_def by blast
  from assms(1) have "mem_kept (cache_of z h) (p_mem z) (p_mem p)" by (simp add: confined_def)
  with a(2,3) obtain v' P' where "represents (p_mem p) a v' P'" "view_kept v v'" "mallocs (p_mem p) = mallocs (p_mem z)"
    unfolding mem_kept_def by blast
  with a confined_cache_of [OF assms(1)] show ?thesis unfolding takes_listings_def view_kept_def same_settings_def by auto
qed

lemma filelist_on_returns:
  assumes "on_track z p h" "takes_listings z h" "runs_out S left" "length (fs_dir st) < 260"
    "dcCreateDirPath (fs_fullpath st) (fs_dir_mask st) = Some path"
  shows "\<exists>rc st' p'. filelist_on S t junk p h st = Some (rc, st', p') \<and> on_track z p' h \<and>
    fs_dir st' = fs_dir st \<and> fs_fullpath st' = fs_fullpath st \<and> fs_dir_mask st' = fs_dir_mask st"
proof -
  from assms(1) obtain c r where c: "conn_of p h = Some (c, r)" by (rule on_trackE)
  have "takes_listings p h" using assms(1,2) by (auto simp: on_track_def intro: takes_listings_confined)
  then obtain a v P where a: "mallocs (p_mem p) = []" "cache_of p h = Some a" "represents (p_mem p) a v P"
    "v_enabled v \<noteq> 0" "v_max v > 0" unfolding takes_listings_def by blast
  let ?st = "st\<lparr>fs_share := share_name (srv r), fs_pdc := pdc r\<rparr>"
  have "listable ?st (p_mem p) a v" using a c assms(4,5) by (auto simp: listable_def cache_of_def)
  from smbwrp_filelist_returns [OF assms(3) this, of t junk "srv r" "cli c" "p_world p"] obtain n st' m' w' where
    l: "smbwrp_filelist S t junk (srv r) (cli c) ?st (p_mem p) (p_world p) = Some (n, st', m', w')"
    "same_request ?st st'" "cache_kept a v (p_mem p) m'" by blast
  have "mem_kept (cache_of p h) (p_mem p) m'" using mem_kept_cache [OF l(3) a(3,1)] a(2) by simp
  from on_track_mem [OF assms(1) this] l(1,2) c show ?thesis by (simp add: filelist_on_def same_request_def)
qed

text \<open>The arrays of the search are long enough for such a path.\<close>

lemma find_dir_short:
  assumes "find_path_ok pel path"
  shows "\<exists>msk dir. find_dir pel path = Some (msk, dir) \<and> length dir + length msk \<le> 240 \<and> length msk \<le> length path"
proof (cases pel)
  case None
  with assms show ?thesis by (auto simp: find_dir_def find_path_ok_def Suc_le_eq)
next
  case (Some ln)
  with assms show ?thesis by (cases ln) (auto simp: find_dir_def find_path_ok_def require_def)
qed

lemma find_state_short:
  assumes "length path + length msk \<le> 256" "path \<noteq> []"
  shows "\<exists>dir full. find_state path msk = Some (dir, full) \<and> length dir < 260"
proof -
  let ?dir = "if last path \<noteq> backslash then path @ [backslash] else path"
  have l: "length ?dir + length msk \<le> 257" using assms(1) by auto
  show ?thesis
  proof (cases "getlastslash (Some (?dir @ msk))")
    case None
    with l show ?thesis by (simp add: find_state_def Let_def require_def)
  next
    case (Some i)
    then have "i < length ?dir + length msk" using getlastslash_Some by fastforce
    with l Some show ?thesis by (simp add: find_state_def Let_def require_def)
  qed
qed

lemma dir_path_ex: "length msk \<le> length path \<Longrightarrow> \<exists>dir. dcCreateDirPath path msk = Some dir"
  by (simp add: dcCreateDirPath_def Let_def)

lemma find_body_returns:
  assumes "on_track z p h" "takes_listings z h" "runs_out S left" "strchr_ok S"
    "find_path_ok (fsphNameElem S (p_world p)) path"
  shows "\<exists>rc plist' p' early. find_body S t p h junk junkcount plist path attr = Some (rc, plist', p', early) \<and> on_track z p' h"
proof -
  from find_dir_short [OF assms(5)] obtain msk dir where
    d: "find_dir (fsphNameElem S (p_world p)) path = Some (msk, dir)" "length dir + length msk \<le> 240"
    "length msk \<le> length path" by blast
  from d(2) have "length dir < 256" by simp
  from parse_path_returns [OF assms(1,4) this] obtain rc out p1 where
    1: "parse_path S p h dir = Some (rc, out, p1)" "length out \<le> max 12 (Suc (length dir))" "on_track z p1 h" by blast
  from 1(2) d(2) have "length out + length msk \<le> 256" by (simp add: max_def split: if_split_asm)
  from find_state_short [OF this] parse_path_result [OF 1(1)] obtain sdir full where
    s: "find_state out msk = Some (sdir, full)" "length sdir < 260" by blast
  let ?st = "\<lparr>fs_mask = full, fs_dir = sdir, fs_dir_mask = msk, fs_finfo = junk, fs_share = [], fs_pdc = None,
    fs_plist = plist, fs_ulAttribute = attr, fs_fullpath = path\<rparr>"
  obtain cdir where cdir: "dcCreateDirPath path msk = Some cdir" using dir_path_ex [OF d(3)] by blast
  note list = filelist_on_returns [OF _ assms(2,3)]
  from echo_on_returns [OF 1(3), of S] obtain rc2 p2 where
    2: "echo_on S p1 h = Some (rc2, p2)" "on_track z p2 h" by blast
  from connect_on_returns [OF 2(2), of S] 2(2) obtain rc3 p3 where
    3: "(if rc2 \<noteq> 0 then connect_on S p2 h else Some (0, p2)) = Some (rc3, p3)" "on_track z p3 h"
    by (cases "rc2 = 0") auto
  from list [OF 3(2), of ?st cdir t junkcount] s(2) cdir obtain rc4 st4 p4 where
    4: "filelist_on S t junkcount p3 h ?st = Some (rc4, st4, p4)" "on_track z p4 h" "fs_dir st4 = sdir"
    "fs_fullpath st4 = path" "fs_dir_mask st4 = msk" by auto
  from disconnect_on_returns [OF 4(2)] obtain p5 where
    5: "disconnect_on S p4 h = Some p5" "on_track z p5 h" by blast
  from connect_on_returns [OF 5(2)] obtain rc6 p6 where
    6: "connect_on S p5 h = Some (rc6, p6)" "on_track z p6 h" by blast
  from list [OF 6(2), of st4 cdir t junkcount] s(2) cdir 4(3-5) obtain rc7 st7 p7 where
    7: "filelist_on S t junkcount p6 h st4 = Some (rc7, st7, p7)" "on_track z p7 h" by auto
  show ?thesis
  proof (cases "rc = 0 \<and> rc3 = 0")
    case False
    with d(1) 1 s(1) 2(1) 3 show ?thesis by (cases "rc = 0") (auto simp: find_body_def simp del: if_split)
  next
    case True
    with d(1) 1 s(1) 2(1) 3 4 5 6 7 show ?thesis
      by (cases "rc4 = err S ERROR_REM_NOT_LIST") (auto simp: find_body_def Let_def simp del: if_split)
  qed
qed

lemma FindStart_returns:
  assumes "on_track z p h" "takes_listings z h" "runs_out S left" "strchr_ok S"
    "find_path_ok (fsphNameElem S (p_world p)) path"
  shows "\<exists>rc plist' p'. NdpFindStart S t p h junk junkcount plist path attr = Some (rc, plist', p') \<and> on_track z p' h"
proof -
  let ?p = "p\<lparr>p_mutex := Suc (p_mutex p)\<rparr>"
  have "on_track z ?p h" "find_path_ok (fsphNameElem S (p_world ?p)) path" using assms(1,5) by simp_all
  from find_body_returns [OF this(1) assms(2-4) this(2), of t junk junkcount plist attr] obtain rc plist' q early where
    "find_body S t ?p h junk junkcount plist path attr = Some (rc, plist', q, early)" "on_track z q h" by blast
  with assms(1) show ?thesis by (auto simp: NdpFindStart_def ENTER_def Let_def leave_unless_def)
qed

subsection \<open>The calls on a connection\<close>

text \<open>
  What a call needs: a path of less than 256 characters, for a search of less than 240, and a new name
  that is not shorter than the old one. A block for attributes has its 64 KB. Attributes are set from a
  list whose walk ends (\<^const>\<open>settable\<close>) and queried into a buffer as long as it says
  (\<^const>\<open>ea_dest_ok\<close>), of a file that is open. The log statements of the two queries read the
  block once more after it was freed, which is not part of the model.
\<close>

definition query_ok :: "('w, 'x) ndp_scheme \<Rightarrow> string \<Rightarrow> string option \<Rightarrow> string option \<Rightarrow> bool" where
  "query_ok S blk gea dst \<longleftrightarrow>
     (\<forall>d. dst = Some d \<longrightarrow> eas_fit S \<and> length blk = cbBuffer \<and> ea_dest_ok S gea d)"

definition file_open :: "'w plugin \<Rightarrow> nat \<Rightarrow> bool" where
  "file_open p h \<longleftrightarrow> (\<forall>c. p_con p h = Some c \<longrightarrow> f_fd (cfile c) \<ge> 0)"

definition on_connection :: "('w, 'x) ndp_scheme \<Rightarrow> 'w plugin \<Rightarrow> nat \<Rightarrow> ndp_call \<Rightarrow> bool" where
  "on_connection S p h call \<longleftrightarrow> plain_call h call \<or> (case call of
       CreateDir k path feas \<Rightarrow> k = h \<and> length path < 256 \<and> settable feas
     | Move k dst src \<Rightarrow> k = h \<and> length src < 256 \<and> length src \<le> length dst
     | FileQueryInfo k junk plist \<Rightarrow> k = h
     | FileEASet k feas \<Rightarrow> k = h \<and> settable feas
     | EASet k feas pfi \<Rightarrow> k = h \<and> settable feas
     | FileEAQuery k blk gea dst \<Rightarrow> k = h \<and> query_ok S blk gea dst \<and> file_open p h
     | EAQuery k blk gea pfi dst \<Rightarrow> k = h \<and> query_ok S blk gea dst
     | FileEASize k blk \<Rightarrow> k = h \<and> length blk = cbBuffer
     | EASize k blk pfi \<Rightarrow> k = h \<and> length blk = cbBuffer
     | FindStart t k junk junkcount plist path a \<Rightarrow> k = h \<and> find_path_ok (fsphNameElem S (p_world p)) path
     | _ \<Rightarrow> False)"

lemma CreateDir_returns:
  assumes "on_track z p h" "strchr_ok S" "length path < 256" "settable feas"
  shows "\<exists>rc p'. NdpCreateDir S p h path feas = Some (rc, p') \<and> on_track z p' h"
proof -
  have "on_track z (p\<lparr>p_mutex := Suc (p_mutex p)\<rparr>) h" using assms(1) by simp
  from invalidate_returns [OF this, of S path] obtain p1 where
    1: "invalidate S (p\<lparr>p_mutex := Suc (p_mutex p)\<rparr>) h path = Some p1" "on_track z p1 h" by blast
  from path_call_returns [OF 1(2) assms(2,3), of "\<lambda>path r c. smbwrp_mkdir S c path"] obtain rc out p2 where
    2: "path_call S p1 h path (\<lambda>path r c. smbwrp_mkdir S c path) = Some (rc, out, p2)" "on_track z p2 h" by blast
  from 2(2) obtain c r where c: "conn_of p2 h = Some (c, r)" by (rule on_trackE)
  have "on_track z (LEAVE p2) h" using 2(2) by simp
  from helperEASet_returns [OF this assms(4), of S "cli c" out] obtain rc3 p3 where
    3: "helperEASet S (cli c) feas out (LEAVE p2) = Some (rc3, p3)" "on_track z p3 h" by blast
  with 1(1) 2 assms(1) c show ?thesis
    by (cases "easupport r = 0") (auto simp: NdpCreateDir_def ENTER_def Let_def)
qed

lemma Move_returns:
  assumes "on_track z p h" "strchr_ok S" "length src < 256" "length src \<le> length dst"
  shows "\<exists>rc p'. NdpMove S p h dst src = Some (rc, p') \<and> on_track z p' h"
proof -
  have "on_track z (p\<lparr>p_mutex := Suc (p_mutex p)\<rparr>) h" using assms(1) by simp
  from invalidate_returns [OF this, of S src] obtain p1 where
    1: "invalidate S (p\<lparr>p_mutex := Suc (p_mutex p)\<rparr>) h src = Some p1" "on_track z p1 h" by blast
  from invalidate_returns [OF 1(2), of S dst] obtain p2 where
    2: "invalidate S p1 h dst = Some p2" "on_track z p2 h" by blast
  from parse_path_returns [OF 2(2) assms(2,3)] obtain rc out p3 where
    3: "parse_path S p2 h src = Some (rc, out, p3)" "on_track z p3 h" by blast
  from parse_path_result [OF 3(1)] have "out \<noteq> []" by simp
  then have long: "length src - length out + 1 \<le> length dst" if "length out < length src" using assms(4) that
    by (cases out) auto
  note cli = on_cli_returns [OF 3(2)]
  from cli [of "\<lambda>c. smbwrp_rename S c out (drop (length src - length out + 1) dst)"] obtain rc4 p4 where
    4: "on_cli p3 h (\<lambda>c. smbwrp_rename S c out (drop (length src - length out + 1) dst)) = Some (rc4, p4)" "on_track z p4 h" by blast
  from cli [of "\<lambda>c. smbwrp_rename S c out dst"] obtain rc5 p5 where
    5: "on_cli p3 h (\<lambda>c. smbwrp_rename S c out dst) = Some (rc5, p5)" "on_track z p5 h" by blast
  have "\<exists>rc' p'. (if rc \<noteq> 0 then Some (rc, p3)
     else let l1 = length src; l2 = length out in
       if l1 > l2
       then if fsphStrNICmp S src dst (l1 - l2) \<noteq> 0 then Some (err S ERROR_WRITE_PROTECT, p3)
            else do { require (l1 - l2 + 1 \<le> length dst);
                      on_cli p3 h (\<lambda>c. smbwrp_rename S c out (drop (l1 - l2 + 1) dst)) }
       else on_cli p3 h (\<lambda>c. smbwrp_rename S c out dst)) = Some (rc', p') \<and> on_track z p' h" (is "\<exists>rc' p'. ?move = _ \<and> _")
    using 3(2) 4 5 long by (auto simp: Let_def require_def)
  then obtain rc' p' where m: "?move = Some (rc', p')" "on_track z p' h" by blast
  show ?thesis
  proof (cases "fsphRequestMutex S SEM_INDEFINITE_WAIT (p_mutex p) = err S NO_ERROR")
    case True
    with 1(1) 2(1) 3(1) m(1) have "NdpMove S p h dst src = Some (rc', LEAVE p')"
      by (simp add: NdpMove_def ENTER_def Let_def del: if_split)
    with m(2) show ?thesis by simp
  qed (use assms(1) in \<open>simp add: NdpMove_def ENTER_def\<close>)
qed

lemma FileQueryInfo_returns:
  assumes "on_track z p h" "p_con p h = Some c" "fits (cfile c)"
  shows "\<exists>rc plist' p'. NdpFileQueryInfo S p h junk plist = Some (rc, plist', p') \<and> on_track z p' h"
proof -
  from assms(1,2) obtain r where "conn_of p h = Some (c, r)" by (elim on_trackE) simp
  with assms show ?thesis by (simp add: NdpFileQueryInfo_def ENTER_def Let_def fits_def require_def case_prod_beta)
qed

lemma EASet_returns:
  assumes "on_track z p h" "settable feas"
  shows "\<exists>rc p'. NdpEASet S p h feas pfi = Some (rc, p') \<and> on_track z p' h"
proof -
  from assms(1) obtain c r where c: "conn_of p h = Some (c, r)" by (rule on_trackE)
  show ?thesis
  proof (cases "ea_data pfi")
    case (Some finfo)
    from helperEASet_returns [OF assms, of S "cli c" "fi_fname finfo"] c Some assms(1) show ?thesis
      by (auto simp: NdpEASet_def)
  qed (use c assms(1) in \<open>simp add: NdpEASet_def\<close>)
qed

lemma malloc_ready: "mallocs (p_mem p) = [] \<Longrightarrow> p_malloc p = (True, p)"
  by (simp add: p_malloc_def malloc_def)

lemma ea_sizes_return:
  assumes "on_track z p h" "mallocs (p_mem p) = []" "length blk = cbBuffer"
  shows "\<exists>rc cb p'. NdpFileEASize S p h blk = Some (rc, cb, p') \<and> on_track z p' h"
    "\<exists>rc sz pfi' p'. NdpEASize S p h blk pfi = Some (rc, sz, pfi', p') \<and> on_track z p' h"
proof -
  from assms(1) obtain c r where c: "conn_of p h = Some (c, r)" by (rule on_trackE)
  have four: "4 \<le> length src" if "length src = cbBuffer" for src using that by (simp add: cbBuffer_def)
  from listea_returns(2) [OF assms(3), of S "cli c" "cfile c" "p_world p"] obtain rc src w where
    1: "smbwrp_flistea S (cli c) (cfile c) blk cbBuffer (p_world p) = Some (rc, src, w)" "length src = cbBuffer" by blast
  from ea_size_returns [OF four [OF 1(2)], of S rc] obtain rc2 cb where "ea_size S rc src = Some (rc2, cb)" by blast
  with 1(1) c assms(1,2) show "\<exists>rc cb p'. NdpFileEASize S p h blk = Some (rc, cb, p') \<and> on_track z p' h"
    by (simp add: NdpFileEASize_def malloc_ready ENTER_def Let_def)
  have "\<exists>rc sz pfi' p'. NdpEASize S p h blk (Some f) = Some (rc, sz, pfi', p') \<and> on_track z p' h"
    if f: "pfi_data f = Some finfo" for f finfo
  proof -
    from listea_returns(1) [OF assms(3), of S "cli c" "fi_fname finfo" "p_world p"] obtain rc src w where
      2: "smbwrp_listea S (cli c) (fi_fname finfo) blk cbBuffer (p_world p) = Some (rc, src, w)" "length src = cbBuffer"
      by blast
    from ea_size_returns [OF four [OF 2(2)], of S rc] obtain rc2 cb where "ea_size S rc src = Some (rc2, cb)" by blast
    with 2(1) c f assms(1,2) show ?thesis by (simp add: NdpEASize_def malloc_ready ENTER_def Let_def)
  qed
  then show "\<exists>rc sz pfi' p'. NdpEASize S p h blk pfi = Some (rc, sz, pfi', p') \<and> on_track z p' h"
  proof (cases "\<exists>f finfo. pfi = Some f \<and> pfi_data f = Some finfo")
    case False
    with c assms(1) show ?thesis by (auto simp: NdpEASize_def split: option.split)
  qed blast
qed

lemma ea_queries_return:
  assumes "on_track z p h" "mallocs (p_mem p) = []" "query_ok S blk gea dst"
  shows "\<exists>rc d p'. NdpEAQuery S p h blk gea pfi dst = Some (rc, d, p') \<and> on_track z p' h"
    "file_open p h \<Longrightarrow> \<exists>rc d p'. NdpFileEAQuery S p h blk gea dst = Some (rc, d, p') \<and> on_track z p' h"
proof -
  from assms(1) obtain c r where c: "conn_of p h = Some (c, r)" "p_con p h = Some c" by (rule on_trackE)
  have q: "eas_fit S" "length blk = cbBuffer" "ea_dest_ok S gea d" "4 \<le> length d" if "dst = Some d" for d
    using assms(3) that by (auto simp: query_ok_def ea_dest_ok_def)
  have four: "4 \<le> length src" if "length src = cbBuffer" for src using that by (simp add: cbBuffer_def)
  have list: "\<exists>rc src w rc' d'. smbwrp_listea S (cli c) name blk cbBuffer (p_world p) = Some (rc, src, w) \<and>
      ea_query S rc src gea d = Some (rc', d')" if d: "dst = Some d" for d name
  proof -
    from listea_returns(1) [OF q(2) [OF d], of S "cli c" name "p_world p"] obtain rc src w where
      1: "smbwrp_listea S (cli c) name blk cbBuffer (p_world p) = Some (rc, src, w)" "length src = cbBuffer" by blast
    from listea_query(1) [OF q(1) [OF d] q(3) [OF d] q(2) [OF d]] 1(1) have
      "rc = 0 \<Longrightarrow> \<exists>rc' d'. buildFEALIST S src gea d = Some (rc', d')" by blast
    from ea_query_returns [OF q(4) [OF d] four [OF 1(2)] this] 1(1) show ?thesis by blast
  qed
  have flist: "\<exists>rc src w rc' d'. smbwrp_flistea S (cli c) (cfile c) blk cbBuffer (p_world p) = Some (rc, src, w) \<and>
      ea_query S rc src gea d = Some (rc', d')" if d: "dst = Some d" for d
  proof -
    from listea_returns(2) [OF q(2) [OF d], of S "cli c" "cfile c" "p_world p"] obtain rc src w where
      1: "smbwrp_flistea S (cli c) (cfile c) blk cbBuffer (p_world p) = Some (rc, src, w)" "length src = cbBuffer" by blast
    from listea_query(2) [OF q(1) [OF d] q(3) [OF d] q(2) [OF d]] 1(1) have
      "rc = 0 \<Longrightarrow> \<exists>rc' d'. buildFEALIST S src gea d = Some (rc', d')" by blast
    from ea_query_returns [OF q(4) [OF d] four [OF 1(2)] this] 1(1) show ?thesis by blast
  qed
  show "\<exists>rc d p'. NdpEAQuery S p h blk gea pfi dst = Some (rc, d, p') \<and> on_track z p' h"
  proof (cases "dst = None \<or> ea_data pfi = None")
    case False
    then obtain d finfo where d: "dst = Some d" "ea_data pfi = Some finfo" by auto
    from list [OF d(1), of "fi_fname finfo"] c d assms(1,2) show ?thesis
      by (auto simp: NdpEAQuery_def malloc_ready ENTER_def Let_def)
  qed (use c assms(1) in \<open>auto simp: NdpEAQuery_def split: option.split\<close>)
  assume "file_open p h"
  then have fd: "\<not> f_fd (cfile c) < 0" using c(2) by (simp add: file_open_def)
  show "\<exists>rc d p'. NdpFileEAQuery S p h blk gea dst = Some (rc, d, p') \<and> on_track z p' h"
  proof (cases dst)
    case (Some d)
    from flist [OF this] c Some fd assms(1,2) show ?thesis
      by (auto simp: NdpFileEAQuery_def malloc_ready ENTER_def Let_def)
  qed (use c assms(1) in \<open>simp add: NdpFileEAQuery_def\<close>)
qed

lemma connection_call_returns:
  assumes "in_order p h" "takes_listings p h" "p_con p h = Some c" "fits (cfile c)" "strchr_ok S" "runs_out S left"
    "on_connection S p h call"
  shows "\<exists>rc p'. ndp_run S call p = Some (rc, p') \<and> on_track p p' h"
proof (cases "plain_call h call")
  case False
  note t = on_track_start [OF assms(1)]
  have m: "mallocs (p_mem p) = []" using assms(2) by (simp add: takes_listings_def)
  have size: "\<exists>rc p'. (\<exists>sz pfi'. NdpEASize S p h blk pfi = Some (rc, sz, pfi', p')) \<and> on_track p p' h"
    if "length blk = cbBuffer" for blk pfi using ea_sizes_return(2) [OF t m that, of S pfi] by blast
  note r = CreateDir_returns [OF t assms(5)] Move_returns [OF t assms(5)] FileQueryInfo_returns [OF t assms(3,4)]
    FileEASet_returns [OF t] EASet_returns [OF t] ea_queries_return [OF t m] ea_sizes_return(1) [OF t m] size
    FindStart_returns [OF t assms(2,6,5)]
  show ?thesis using assms(7) False
    by (cases call) (auto simp: on_connection_def ndp_run_def intro: r code_state_returns)
qed (use plain_call_returns [OF on_track_start [OF assms(1)] assms(5)] in blast)

end
