(* ===== verification/Plugin_Global.thy ===== *)
theory Plugin_Global
  imports Plugin_Safety
begin

text \<open>
  The whole state of the plugin: every connection has its resource, every resource has a cache of its
  own, and the caches share one memory. The calls of a host that uses the interface as it is meant keep
  this, so none of them is undefined, in any order and over any number of resources and connections.
\<close>

subsection \<open>States in which everything fits together\<close>

text \<open>The cache at \<open>a\<close> is enabled and has the depth \<open>d\<close>, which it does not exceed.\<close>

definition usable :: "dcmem \<Rightarrow> nat \<Rightarrow> int \<Rightarrow> bool" where
  "usable m a d \<longleftrightarrow> (\<exists>v P. represents m a v P \<and> v_enabled v \<noteq> 0 \<and> v_max v = d \<and> 0 < d \<and> d \<le> 96 \<and> in_depth v)"

definition orderly :: "'w plugin \<Rightarrow> bool" where
  "orderly p \<longleftrightarrow> plugin_ok p \<and>
     (\<forall>h c. p_con p h = Some c \<longrightarrow> fits (cfile c) \<and> p_res p (pRes c) \<noteq> None) \<and>
     (\<forall>x r. p_res p x = Some r \<longrightarrow> (\<exists>a. pdc r = Some a \<and> usable (p_mem p) a (cachedepth r))) \<and>
     (\<forall>x y r q. p_res p x = Some r \<longrightarrow> p_res p y = Some q \<longrightarrow> pdc r = pdc q \<longrightarrow> x = y) \<and>
     fresh_from (p_mem p) \<and> mallocs (p_mem p) = []"

lemma orderly_conn:
  assumes "orderly p" "p_con p h = Some c"
  obtains r a where "conn_of p h = Some (c, r)" "p_res p (pRes c) = Some r" "cache_of p h = Some a"
    "pdc r = Some a" "usable (p_mem p) a (cachedepth r)" "fits (cfile c)"
proof -
  from assms obtain r where "p_res p (pRes c) = Some r" "fits (cfile c)" unfolding orderly_def by blast
  moreover from assms(1) this(1) obtain a where "pdc r = Some a" "usable (p_mem p) a (cachedepth r)" unfolding orderly_def by blast
  ultimately show thesis using assms(2) by (intro that) (auto simp: conn_of_def cache_of_def)
qed

lemma orderly_usable: "orderly p \<Longrightarrow> p_res p x = Some r \<Longrightarrow> pdc r = Some a \<Longrightarrow> usable (p_mem p) a (cachedepth r)"
  unfolding orderly_def by (metis option.inject)

lemma orderly_in_order:
  assumes "orderly p" "p_con p h = Some c"
  shows "in_order p h" "takes_listings p h"
proof -
  from orderly_conn [OF assms] obtain r a where c: "conn_of p h = Some (c, r)" "cache_of p h = Some a"
    "usable (p_mem p) a (cachedepth r)" by blast
  then show "in_order p h" by (auto simp: in_order_def connected_def uses_cache_of usable_def)
  from c(3) obtain v P where "represents (p_mem p) a v P" "v_enabled v \<noteq> 0" "v_max v > 0" by (auto simp: usable_def)
  moreover have "mallocs (p_mem p) = []" using assms(1) by (simp add: orderly_def)
  ultimately show "takes_listings p h" using c(2) unfolding takes_listings_def by blast
qed

lemma usable_kept:
  assumes "mem_kept q m m'" "usable m a d" shows "usable m' a d"
proof -
  from assms(2) obtain v P where v: "represents m a v P" "v_enabled v \<noteq> 0" "v_max v = d" "0 < d" "d \<le> 96" "in_depth v"
    unfolding usable_def by blast
  have "\<exists>v' P'. represents m' a v' P' \<and> view_kept v v'"
  proof (cases "q = Some a")
    case True
    with assms(1) v(1) show ?thesis unfolding mem_kept_def by blast
  next
    case False
    with assms(1) represents_apart [OF v(1), of q m'] show ?thesis unfolding mem_kept_def by (blast intro: view_kept_refl)
  qed
  then obtain v' P' where "represents m' a v' P'" "view_kept v v'" by blast
  with v show ?thesis unfolding usable_def view_kept_def same_settings_def by auto
qed

lemma usable_apart: "apart (Some c) m m' \<Longrightarrow> a \<noteq> c \<Longrightarrow> usable m a d \<Longrightarrow> usable m' a d"
  unfolding usable_def using represents_apart [of m a _ _ "Some c" m'] by blast

text \<open>Calls on a connection keep everything in order.\<close>

lemma orderly_confined:
  assumes "orderly p" "confined h p p'" "plugin_ok p'"
  shows "orderly p'"
proof -
  from assms(2) have k: "\<And>k. k \<noteq> h \<Longrightarrow> p_con p' k = p_con p k" "rel_option same_conn (p_con p h) (p_con p' h)"
    "\<And>x. map_option pdc (p_res p' x) = map_option pdc (p_res p x)"
    "\<And>x. map_option cachedepth (p_res p' x) = map_option cachedepth (p_res p x)" "mem_kept (cache_of p h) (p_mem p) (p_mem p')"
    by (auto simp: confined_def)
  have res: "\<exists>r. p_res p x = Some r \<and> pdc r = pdc r' \<and> cachedepth r = cachedepth r'" if "p_res p' x = Some r'" for x r'
    using k(3) [of x] k(4) [of x] that by (cases "p_res p x") auto
  have res': "p_res p x \<noteq> None \<longleftrightarrow> p_res p' x \<noteq> None" for x
    using k(3) [of x] by (cases "p_res p x"; cases "p_res p' x") auto
  have con: "fits (cfile c') \<and> p_res p' (pRes c') \<noteq> None" if c': "p_con p' g = Some c'" for g c'
  proof (cases "g = h")
    case True
    with c' k(2) obtain c where "p_con p h = Some c" "same_conn c c'" by (auto simp: option_rel_Some2)
    with assms(1) res' show ?thesis unfolding orderly_def same_conn_def by metis
  next
    case False
    with c' k(1) assms(1) res' show ?thesis unfolding orderly_def by metis
  qed
  have cache: "\<exists>a. pdc r' = Some a \<and> usable (p_mem p') a (cachedepth r')" if r': "p_res p' x = Some r'" for x r'
  proof -
    from res [OF r'] obtain r where "p_res p x = Some r" "pdc r = pdc r'" "cachedepth r = cachedepth r'" by blast
    with assms(1) obtain a where "pdc r' = Some a" "usable (p_mem p) a (cachedepth r')" unfolding orderly_def by metis
    with usable_kept [OF k(5)] show ?thesis by blast
  qed
  have own: "x = y" if xy: "p_res p' x = Some r" "p_res p' y = Some q" "pdc r = pdc q" for x y r q
  proof -
    from res [OF xy(1)] res [OF xy(2)] obtain r0 q0 where "p_res p x = Some r0" "p_res p y = Some q0" "pdc r0 = pdc q0"
      using xy(3) by auto
    with assms(1) show ?thesis unfolding orderly_def by blast
  qed
  have "fresh_from (p_mem p')" "mallocs (p_mem p') = []"
    using k(5) assms(1) by (auto simp: mem_kept_def apart_def orderly_def)
  with con cache own assms(3) show ?thesis unfolding orderly_def by blast
qed

subsection \<open>Mounting\<close>

text \<open>
  What the services outside do: a string property that is there has a value, a stored password can be
  decoded into its array, the depth of the cache is a number from 1 to 96, a mutex can be created, and
  the server runs out of answers.
\<close>

definition string_props_ok :: "('w, 'x) ndp_scheme \<Rightarrow> bool" where
  "string_props_ok S \<longleftrightarrow>
     (\<forall>name w rc q t. fsphQueryStringProperty S name w = (rc, q, t) \<longrightarrow> rc = 0 \<longrightarrow> t \<noteq> 0 \<longrightarrow> q \<noteq> None) \<and>
     (\<forall>w rc q t. fsphQueryStringProperty S ''SPASSWORD'' w = (rc, q, t) \<longrightarrow> rc = err S NO_ERROR \<longrightarrow>
        (\<exists>s pw. q = Some s \<and> decryptPassword s = Some pw \<and> length pw < 1024))"

definition services_ok :: "('w, 'x) ndp_scheme \<Rightarrow> bool" where
  "services_ok S \<longleftrightarrow> strchr_ok S \<and> (\<exists>left. runs_out S left) \<and> string_props_ok S \<and>
     (\<forall>w rc t. fsphQueryUlongProperty S ''CLD'' w = (rc, t) \<longrightarrow> rc = 0 \<and> 0 < t \<and> t \<le> 96) \<and>
     fsphCreateMutex S = err S NO_ERROR"

lemma string_property_returns: "string_props_ok S \<Longrightarrow> \<exists>q. string_property S name w = Some q"
  by (cases "fsphQueryStringProperty S name w") (fastforce simp: string_property_def string_props_ok_def)

text \<open>The password stays short enough for its array.\<close>

lemma init_names_returns:
  assumes "string_props_ok S"
  shows "\<exists>dp r'. init_names S r w = Some (dp, r') \<and> (length (password (srv r)) \<le> 255 \<longrightarrow> length (password (srv r')) \<le> 255)"
proof -
  note q = string_property_returns [OF assms, of _ w]
  obtain a b c d e where "string_property S ''WORKGROUP'' w = Some a" "string_property S ''SERVER'' w = Some b"
    "string_property S ''SHARE'' w = Some c" "string_property S ''USER'' w = Some d"
    "string_property S ''PASSWORD'' w = Some e" using q by metis
  then show ?thesis
    by (auto simp: init_names_def put_string_def upd_srv_def length_strncpy_z split: option.split)
qed

lemma init_password_returns:
  assumes "string_props_ok S" "length (password (srv r)) \<le> 255"
  shows "\<exists>r' w'. init_password S dp r w = Some (r', w')"
proof (cases "fsphQueryStringProperty S ''SPASSWORD'' w")
  case (fields rc q t)
  have short: "length (encryptPassword (password (srv r))) < 1024" using assms(2) by (simp add: length_encryptPassword)
  show ?thesis
  proof (cases "rc = err S NO_ERROR")
    case True
    with fields assms(1) obtain s pw where s: "q = Some s" "decryptPassword s = Some pw" "length pw < 1024"
      unfolding string_props_ok_def by metis
    with fields True short show ?thesis by (auto simp: init_password_def Let_def require_def)
  qed (use fields short in \<open>auto simp: init_password_def Let_def require_def\<close>)
qed

lemma init_numbers_depth:
  assumes "fsphQueryUlongProperty S ''CLD'' w = (0, t)" "t \<le> 96"
  shows "\<exists>r'. init_numbers S r w = (0, r'\<lparr>cachedepth := uint t\<rparr>)"
proof -
  have "ulong_property S ''CLD'' 96 (\<lambda>t r. r\<lparr>cachedepth := t\<rparr>) r w = (0, r\<lparr>cachedepth := uint t\<rparr>)" for r
    using assms by (simp add: ulong_property_def)
  then show ?thesis by (simp add: init_numbers_def Let_def case_prod_beta) blast
qed

lemma initResource_returns:
  assumes "services_ok S" "fresh_from m" "mallocs m = []" "length (password (srv r)) \<le> 255"
  shows "\<exists>rc r' m' w' a. initResource S r junk m w = Some (rc, r', m', w') \<and> pdc r' = Some a \<and> dcs m a = None \<and>
    usable m' a (cachedepth r') \<and> apart (Some a) m m' \<and> mallocs m' = [] \<and> fresh_from m'"
proof -
  from assms(1) have props: "string_props_ok S" and mutex: "fsphCreateMutex S = err S NO_ERROR"
    by (auto simp: services_ok_def)
  let ?r = "r\<lparr>rootlevel := 0, easupport := 1, krb5support := 0, ntlmv1support := 0, encryptionsupport := 0, pdc := None\<rparr>"
  from init_names_returns [OF props, of ?r w] assms(4) obtain dp r1 where
    1: "init_names S ?r w = Some (dp, r1)" "length (password (srv r1)) \<le> 255" by auto
  from init_password_returns [OF props 1(2)] obtain r2 w2 where
    2: "init_password S dp r1 w = Some (r2, w2)" by blast
  obtain q where 3: "string_property S ''MASTER'' w2 = Some q" using string_property_returns [OF props] by blast
  let ?r3 = "put_string q (\<lambda>s. upd_srv (\<lambda>v. v\<lparr>master := s\<rparr>)) r2"
  obtain t where t: "fsphQueryUlongProperty S ''CLD'' w2 = (0, t)" "0 < t" "t \<le> 96"
    using assms(1) unfolding services_ok_def by (metis surj_pair)
  from init_numbers_depth [OF t(1,3)] obtain r4 where
    4: "init_numbers S ?r3 w2 = (0, r4\<lparr>cachedepth := uint t\<rparr>)" by blast
  have depth: "uint t > 0" and top: "uint t \<le> 96" using t(2,3) by (simp_all add: word_less_def word_le_def)
  from create_rep [OF assms(2,3) mutex, of junk "word_of_int (cachetimeout r4)" "uint t"] obtain a m' where
    5: "dircache_create S m junk (word_of_int (cachetimeout r4)) (uint t) = Some (err S NO_ERROR, Some a, m')"
    "mallocs m' = []" "dcs m a = None" "apart (Some a) m m'"
    "represents m' a \<lparr>v_enabled = 1, v_exp = word_of_int (cachetimeout r4), v_max = uint t, v_mutex = 0, v_list = []\<rparr> Map.empty"
    by blast
  have "usable m' a (uint t)" using 5(5) depth top unfolding usable_def in_depth_def by fastforce
  moreover have "fresh_from m'" using 5(5) by (rule represents_fresh)
  ultimately show ?thesis using 1(1) 2 3 4 5(1-4) by (simp add: initResource_def)
qed

lemma usable_fresh: "usable m a d \<Longrightarrow> dcs m a \<noteq> None"
  unfolding usable_def represents_def using represents_at_dc by fastforce

text \<open>A new cache that no resource has yet, and the resource that takes it.\<close>

lemma orderly_new_cache:
  assumes "orderly p" "dcs (p_mem p) a = None" "apart (Some a) (p_mem p) m'" "mallocs m' = []" "fresh_from m'"
  shows "orderly (p\<lparr>p_mem := m'\<rparr>)"
proof -
  have "usable m' b d" if "usable (p_mem p) b d" for b d
    using usable_apart [OF assms(3) _ that] usable_fresh [OF that] assms(2) by metis
  then have "\<forall>x r. p_res p x = Some r \<longrightarrow> (\<exists>a. pdc r = Some a \<and> usable m' a (cachedepth r))"
    using assms(1) unfolding orderly_def by blast
  with assms(1,4,5) show ?thesis by (simp add: orderly_def plugin_ok_def)
qed

lemma orderly_new_resource:
  assumes "orderly p" "dcs (p_mem p) a = None" "apart (Some a) (p_mem p) m'" "mallocs m' = []" "fresh_from m'"
    "usable m' a (cachedepth r)" "pdc r = Some a"
  shows "orderly (p\<lparr>p_mem := m', p_res := (p_res p)(p_next p \<mapsto> r), p_next := Suc (p_next p)\<rparr>)"
proof -
  from assms(1) have ok: "objects_ok (p_con p) (p_res p) (p_next p)" by (simp add: orderly_def plugin_ok_def)
  from orderly_new_cache [OF assms(1-5)] have o: "orderly (p\<lparr>p_mem := m'\<rparr>)" .
  have other: "pdc q \<noteq> Some a" if "p_res p x = Some q" for x q
  proof
    assume "pdc q = Some a"
    with assms(1) that have "usable (p_mem p) a (cachedepth q)" by (rule orderly_usable)
    with usable_fresh assms(2) show False by blast
  qed
  let ?rs = "(p_res p)(p_next p \<mapsto> r)"
  from o have cache: "\<exists>b. pdc q = Some b \<and> usable m' b (cachedepth q)" if "?rs x = Some q" for x q
    using that assms(6,7) unfolding orderly_def by (cases "x = p_next p") auto
  have own: "x = y" if "?rs x = Some s" "?rs y = Some q" "pdc s = pdc q" for x y s q
  proof (cases "x = p_next p \<or> y = p_next p")
    case True
    with that other [of x s] other [of y q] assms(7) show ?thesis by (auto split: if_split_asm)
  next
    case False
    with that assms(1) show ?thesis unfolding orderly_def by auto
  qed
  have con: "fits (cfile c) \<and> ?rs (pRes c) \<noteq> None" if "p_con p h = Some c" for h c
    using assms(1) that unfolding orderly_def by auto
  from objects_ok_change(1) [OF ok] cache own con assms(4,5) show ?thesis
    unfolding orderly_def plugin_ok_def by (simp del: fun_upd_apply)
qed

lemma orderly_same:
  "orderly p \<Longrightarrow> p_con q = p_con p \<Longrightarrow> p_res q = p_res p \<Longrightarrow> p_next q = p_next p \<Longrightarrow> p_mem q = p_mem p \<Longrightarrow> orderly q"
  by (simp add: orderly_def plugin_ok_def)

lemma orderly_fields [simp]:
  "orderly (p\<lparr>p_mutex := n\<rparr>) = orderly p" "orderly (p\<lparr>p_world := w\<rparr>) = orderly p"
  "orderly (p\<lparr>p_initialised := b\<rparr>) = orderly p" "orderly (LEAVE p) = orderly p"
  by (simp_all add: orderly_def plugin_ok_def LEAVE_def)

lemma smbwrp_init_orderly: "orderly p \<Longrightarrow> \<exists>rc p'. smbwrp_init S p = (rc, p') \<and> orderly p'"
  by (simp add: smbwrp_init_def case_prod_beta)

lemma MountResource_returns:
  assumes "services_ok S" "orderly p"
  shows "\<exists>rc h p'. NdpMountResource S p junk = Some (rc, h, p') \<and> orderly p'"
proof -
  let ?p = "p\<lparr>p_mutex := Suc (p_mutex p)\<rparr>"
  from assms(2) have "orderly ?p" by simp
  from smbwrp_init_orderly [OF this] obtain rc0 p1 where 1: "smbwrp_init S ?p = (rc0, p1)" "orderly p1" by blast
  from 1(2) have m: "mallocs (p_mem p1) = []" "fresh_from (p_mem p1)" by (auto simp: orderly_def)
  have zero: "length (password (srv resource_zero)) \<le> 255" by (simp add: resource_zero_def server_zero_def)
  from initResource_returns [OF assms(1) m(2,1) zero] obtain rc r m' w' a where
    2: "initResource S resource_zero junk (p_mem p1) (p_world p1) = Some (rc, r, m', w')" "pdc r = Some a"
    "dcs (p_mem p1) a = None" "usable m' a (cachedepth r)" "apart (Some a) (p_mem p1) m'" "mallocs m' = []" "fresh_from m'" by blast
  obtain rc2 w2 where 3: "(if rc = 0 \<and> gettid S w' \<noteq> 1 then checkMountResource S r w' else (rc, w')) = (rc2, w2)"
    by (metis surj_pair)
  note cache = orderly_new_cache [OF 1(2) 2(3,5,6,7)] orderly_new_resource [OF 1(2) 2(3,5,6,7,4,2)]
  let ?q = "p1\<lparr>p_mem := m', p_world := w2\<rparr>"
  have cached: "orderly ?q" by (rule orderly_same [OF cache(1)]) simp_all
  have mounted: "orderly (?q\<lparr>p_res := (p_res p1)(p_next p1 \<mapsto> r), p_next := Suc (p_next p1)\<rparr>)"
    by (rule orderly_same [OF cache(2)]) simp_all
  show ?thesis
  proof (cases "fsphRequestMutex S SEM_INDEFINITE_WAIT (p_mutex p) = err S NO_ERROR")
    case True
    with 1(1) 2(1) 3 malloc_ready [OF m(1)]
    have "NdpMountResource S p junk = (if rc2 = 0
      then Some (rc2, Some (p_next p1), LEAVE (?q\<lparr>p_res := (p_res p1)(p_next p1 \<mapsto> r), p_next := Suc (p_next p1)\<rparr>))
      else Some (rc2, None, LEAVE ?q))"
      by (simp add: NdpMountResource_def ENTER_def Let_def)
    with cached mounted show ?thesis by simp
  qed (use assms(2) in \<open>simp add: NdpMountResource_def ENTER_def\<close>)
qed

subsection \<open>Connecting and freeing\<close>

lemma CreateConnection_returns:
  assumes "orderly p" "p_res p h \<noteq> None"
  shows "\<exists>rc hc p'. NdpCreateConnection S p h = Some (rc, hc, p') \<and> orderly p'"
proof -
  let ?p = "p\<lparr>p_mutex := Suc (p_mutex p)\<rparr>"
  from assms(1) have m: "mallocs (p_mem ?p) = []" by (simp add: orderly_def)
  from assms(2) obtain r where r: "p_res p h = Some r" by blast
  obtain rc cl w where c: "smbwrp_connect S r None (p_world p) = (rc, cl, w)" by (metis surj_pair)
  let ?c = "\<lparr>pRes = h, cli = cl, cfile = file_zero\<lparr>f_fd := -1\<rparr>\<rparr>"
  have zero: "fits (file_zero\<lparr>f_fd := -1\<rparr>)" by (simp add: fits_def file_zero_def)
  have ok: "objects_ok (p_con p) (p_res p) (p_next p)" using assms(1) by (simp add: orderly_def plugin_ok_def)
  have new: "orderly (p\<lparr>p_con := (p_con p)(p_next p \<mapsto> ?c), p_next := Suc (p_next p)\<rparr>)"
    using assms(1) r zero objects_ok_change(2) [OF ok, of ?c] file_zero_ok
    unfolding orderly_def plugin_ok_def by (auto split: if_split_asm)
  have "orderly (?p\<lparr>p_world := w, p_con := (p_con p)(p_next p \<mapsto> ?c), p_next := Suc (p_next p)\<rparr>)"
    by (rule orderly_same [OF new]) simp_all
  with malloc_ready [OF m] r c assms(1) show ?thesis
    by (cases "rc = 0") (auto simp: NdpCreateConnection_def ENTER_def Let_def)
qed

lemma FreeConnection_returns:
  assumes "orderly p" "p_con p h \<noteq> None"
  shows "\<exists>rc p'. NdpFreeConnection S p h = Some (rc, p') \<and> orderly p'"
proof -
  from assms(2) obtain c where c: "p_con p h = Some c" by blast
  have "orderly (p\<lparr>p_con := (p_con p)(h := None)\<rparr>)"
    using assms(1) objects_ok_change(4) [of "p_con p" "p_res p" "p_next p" h]
    unfolding orderly_def plugin_ok_def by (auto split: if_split_asm)
  then have "orderly (p\<lparr>p_mutex := n, p_con := (p_con p)(h := None), p_world := w\<rparr>)" for n w
    by (rule orderly_same) simp_all
  with c assms(1) show ?thesis by (simp add: NdpFreeConnection_def ENTER_def Let_def)
qed

text \<open>A resource may be freed when no connection is left on it.\<close>

lemma FreeResource_returns:
  assumes "orderly p" "p_res p h \<noteq> None" "\<forall>c \<in> ran (p_con p). pRes c \<noteq> h"
  shows "\<exists>rc p'. NdpFreeResource S p h = Some (rc, p') \<and> orderly p'"
proof -
  from assms(1,2) obtain r a v P where r: "p_res p h = Some r" "pdc r = Some a" "represents (p_mem p) a v P"
    unfolding orderly_def usable_def by blast
  from delete_rep [OF r(3)] obtain m' where m': "dircache_delete (p_mem p) (Some a) = Some m'"
    "apart (Some a) (p_mem p) m'" "mallocs m' = mallocs (p_mem p)" by blast
  have other: "pdc q \<noteq> Some a" if "p_res p x = Some q" "x \<noteq> h" for x q
    using assms(1) r(1,2) that unfolding orderly_def by metis
  have cache: "\<exists>b. pdc q = Some b \<and> usable m' b (cachedepth q)" if q: "p_res p x = Some q" "x \<noteq> h" for x q
  proof -
    from assms(1) q(1) obtain b where "pdc q = Some b" "usable (p_mem p) b (cachedepth q)" unfolding orderly_def by blast
    with other [OF q] usable_apart [OF m'(2)] show ?thesis by auto
  qed
  have con: "fits (cfile c) \<and> (if pRes c = h then None else p_res p (pRes c)) \<noteq> None" if "p_con p k = Some c" for k c
    using assms(1,3) that unfolding orderly_def by (auto intro: ranI)
  have own: "x = y" if "p_res p x = Some q" "p_res p y = Some s" "pdc q = pdc s" for x y q s
    using assms(1) that unfolding orderly_def by blast
  have "objects_ok (p_con p) ((p_res p)(h := None)) (p_next p)" "fresh_from m'" "mallocs m' = []"
    using assms(1) m'(2,3) objects_ok_change(3) by (auto simp: orderly_def plugin_ok_def apart_def)
  with cache con own have "orderly (p\<lparr>p_mutex := n, p_res := (p_res p)(h := None), p_mem := m'\<rparr>)" for n
    unfolding orderly_def plugin_ok_def by (auto split: if_split_asm)
  with r(1,2) m'(1) assms(1) show ?thesis by (simp add: NdpFreeResource_def ENTER_def Let_def)
qed

lemma QueryFSAllocate_returns:
  assumes "orderly p" "p_res p h \<noteq> None"
  shows "\<exists>rc fsa' p'. NdpRsrcQueryFSAllocate S p h fsa = Some (rc, fsa', p') \<and> orderly p'"
  using assms by (auto simp: NdpRsrcQueryFSAllocate_def ENTER_def Let_def case_prod_beta split: option.split)

subsection \<open>Runs of calls\<close>

text \<open>The connection a call is on.\<close>

definition call_handle :: "ndp_call \<Rightarrow> nat" where
  "call_handle call = (case call of
       MountResource junk \<Rightarrow> 0 | FreeResource h \<Rightarrow> h | CreateConnection h \<Rightarrow> h | FreeConnection h \<Rightarrow> h
     | QueryFSAllocate h fsa \<Rightarrow> h | SetPathInfo h pfi path \<Rightarrow> h | SetCurrentDir h path \<Rightarrow> h
     | ForceDelete h path \<Rightarrow> h | DeleteDir h path \<Rightarrow> h | CreateDir h path feas \<Rightarrow> h | Move h dst src \<Rightarrow> h
     | SetFileAttribute h path a \<Rightarrow> h | OpenReplace h path md a feas \<Rightarrow> h | OpenCreate h path md a feas \<Rightarrow> h
     | OpenExisting h path md \<Rightarrow> h | FileQueryInfo h junk plist \<Rightarrow> h | FileSetInfo h pfi \<Rightarrow> h
     | FileSetFilePtr h junk off meth \<Rightarrow> h | FileSetFilePtrL h off meth \<Rightarrow> h | FileClose h \<Rightarrow> h
     | FileNewSize h len \<Rightarrow> h | FileNewSizeL h len \<Rightarrow> h | FileRead h junk n \<Rightarrow> h | FileWrite h buf n \<Rightarrow> h
     | FileEASet h feas \<Rightarrow> h | FileEAQuery h blk gea dst \<Rightarrow> h | FileEASize h blk \<Rightarrow> h
     | EAQuery h blk gea pfi dst \<Rightarrow> h | EASet h feas pfi \<Rightarrow> h | EASize h blk pfi \<Rightarrow> h
     | QueryPathInfo t h junk plist path \<Rightarrow> h | FindStart t h junk junkcount plist path a \<Rightarrow> h)"

text \<open>A host uses live handles, and frees a resource only when its connections are freed.\<close>

definition allowed :: "('w, 'x) ndp_scheme \<Rightarrow> 'w plugin \<Rightarrow> ndp_call \<Rightarrow> bool" where
  "allowed S p call = (case call of
       MountResource junk \<Rightarrow> True
     | FreeResource h \<Rightarrow> p_res p h \<noteq> None \<and> (\<forall>c \<in> ran (p_con p). pRes c \<noteq> h)
     | CreateConnection h \<Rightarrow> p_res p h \<noteq> None
     | FreeConnection h \<Rightarrow> p_con p h \<noteq> None
     | QueryFSAllocate h fsa \<Rightarrow> p_res p h \<noteq> None
     | _ \<Rightarrow> p_con p (call_handle call) \<noteq> None \<and> on_connection S p (call_handle call) call)"

lemma orderly_call:
  assumes "services_ok S" "orderly p" "p_con p h = Some c" "on_connection S p h call"
  shows "\<exists>rc p'. ndp_run S call p = Some (rc, p') \<and> orderly p' \<and> confined h p p'"
proof -
  from orderly_conn [OF assms(2,3)] have fit: "fits (cfile c)" by blast
  from assms(1) obtain left where S: "strchr_ok S" "runs_out S left" by (auto simp: services_ok_def)
  from connection_call_returns [OF orderly_in_order [OF assms(2,3)] assms(3) fit S assms(4)] obtain rc p' where
    run: "ndp_run S call p = Some (rc, p')" "confined h p p'" by (auto simp: on_track_def)
  from ndp.run_ok [OF run(1)] assms(2) have "plugin_ok p'" by (simp add: orderly_def)
  with orderly_confined [OF assms(2) run(2)] run show ?thesis by blast
qed

lemma allowed_call_returns:
  assumes "services_ok S" "orderly p" "allowed S p call"
  shows "\<exists>rc p'. ndp_run S call p = Some (rc, p') \<and> orderly p'"
proof -
  have conn: ?thesis if "p_con p h \<noteq> None" "on_connection S p h call" for h
    using orderly_call [OF assms(1,2) _ that(2)] that(1) by blast
  note r = MountResource_returns [OF assms(1,2)] CreateConnection_returns [OF assms(2)]
    FreeConnection_returns [OF assms(2)] FreeResource_returns [OF assms(2)] QueryFSAllocate_returns [OF assms(2)]
  show ?thesis
  proof (cases "case call of MountResource j \<Rightarrow> True | FreeResource h \<Rightarrow> True | CreateConnection h \<Rightarrow> True
      | FreeConnection h \<Rightarrow> True | QueryFSAllocate h f \<Rightarrow> True | _ \<Rightarrow> False")
    case True
    with assms(3) show ?thesis
      by (cases call) (auto simp: allowed_def ndp_run_def intro!: r code_state_returns)
  next
    case False
    with assms(3) have "p_con p (call_handle call) \<noteq> None" "on_connection S p (call_handle call) call"
      by (cases call; simp add: allowed_def)+
    then show ?thesis by (rule conn)
  qed
qed

text \<open>Each call of a run is allowed in the state the calls before it have led to.\<close>

fun permitted_run :: "('c \<Rightarrow> 's \<Rightarrow> (int \<times> 's) option) \<Rightarrow> ('s \<Rightarrow> 'c \<Rightarrow> bool) \<Rightarrow> 'c list \<Rightarrow> 's \<Rightarrow> bool" where
  "permitted_run run allow [] s \<longleftrightarrow> True"
| "permitted_run run allow (c # cs) s \<longleftrightarrow> allow s c \<and>
     (case run c s of None \<Rightarrow> True | Some (rc, s') \<Rightarrow> permitted_run run allow cs s')"

text \<open>The interface with its rules of use: in good states an allowed call is defined and leads to a good state.\<close>

locale guarded_calls = serialized_calls run ok depth leak
  for run :: "'c \<Rightarrow> 's \<Rightarrow> (int \<times> 's) option" and ok :: "'s \<Rightarrow> bool" and depth :: "'s \<Rightarrow> nat"
    and leak :: "'c \<Rightarrow> int \<Rightarrow> bool" +
  fixes allow :: "'s \<Rightarrow> 'c \<Rightarrow> bool" and good :: "'s \<Rightarrow> bool"
  assumes allowed_returns: "good s \<Longrightarrow> allow s c \<Longrightarrow> \<exists>rc s'. run c s = Some (rc, s') \<and> good s'"
begin

lemma runs_defined:
  "good s \<Longrightarrow> permitted_run run allow cs s \<Longrightarrow> \<exists>rcs s'. runs run cs s = Some (rcs, s') \<and> good s'"
proof (induction cs arbitrary: s)
  case (Cons c cs)
  from Cons.prems(2) have "allow s c" by simp
  from allowed_returns [OF Cons.prems(1) this] obtain rc s1 where
    1: "run c s = Some (rc, s1)" "good s1" by blast
  with Cons.prems(2) Cons.IH [OF 1(2)] show ?case by auto
qed simp

end

interpretation guarded: guarded_calls "ndp_run S" plugin_ok p_mutex "may_keep_mutex S" "allowed S"
  "\<lambda>p. services_ok S \<and> orderly p"
  by unfold_locales (blast dest: allowed_call_returns)

lemma orderly_loaded:
  assumes "NdpPluginLoad S large m w = (rc, p)" "fresh_from m" "mallocs m = []"
  shows "orderly p"
  using assms by (auto simp: NdpPluginLoad_def orderly_def plugin_ok_def objects_ok_def)

subsection \<open>Theorems\<close>

lemma services0: "services_ok ndp0"
proof -
  have "runs_out ndp0 (\<lambda>w. 0)" by (simp add: runs_out_def ndp0_simps)
  moreover have "string_props_ok ndp0" by (simp add: string_props_ok_def ndp0_simps err0_def)
  ultimately show ?thesis using ndp0_ok(1) by (auto simp: services_ok_def ndp0_simps err0_def)
qed

lemma loaded0: "NdpPluginLoad ndp0 True dcmem0 [] = (0, snd (NdpPluginLoad ndp0 True dcmem0 []))"
  by (simp add: NdpPluginLoad_def err0_def)

definition session0 :: "ndp_call list" where
  "session0 = [MountResource 0, CreateConnection 0, CreateConnection 0, FreeConnection 2, EASet 1 (Some ealist0) None,
     FileClose 1, FindStart 3 1 fileinfo0 0 [] ''d'' 0]"

lemma session0_permitted: "permitted_run (ndp_run ndp0) (allowed ndp0) session0 (snd (NdpPluginLoad ndp0 True dcmem0 []))"
  by (simp add: session0_def ndp_run_def allowed_def call_handle_def on_connection_def plain_call_def
      NdpPluginLoad_def NdpMountResource_def NdpCreateConnection_def ENTER_def Let_def
      smbwrp_init_def p_malloc_def malloc_def dcmem0_def initResource_def init_names_def string_property_def
      put_string_def init_password_def init_numbers_def ulong_property_def dircache_create_def dcCreate_def
      dcEnable_def upd_dc_def checkMountResource_def smbwrp_connect_def connect_session_def connect_tree_def
      mount_rc_def NT_STATUS_IS_OK_def smbwrp_disconnect_def resource_zero_def server_zero_def upd_srv_def
      LEAVE_def code_state_def err0_def ndp0_simps NdpFileClose_def if_open_def set_file_def NdpEASet_def ea_data_def conn_of_def settable_ealist0 NdpFreeConnection_def
      file_zero_def find_path_ok_def split: option.split)




text \<open>Two resources, and a connection on the first.\<close>

definition two0 :: "ndp_call list" where
  "two0 = [MountResource 0, CreateConnection 0, MountResource 0]"

lemma two0_permitted: "permitted_run (ndp_run ndp0) (allowed ndp0) two0 (snd (NdpPluginLoad ndp0 True dcmem0 []))"
  and two0_run: "\<exists>p c r. runs (ndp_run ndp0) two0 (snd (NdpPluginLoad ndp0 True dcmem0 [])) = Some ([0, 0, 0], p) \<and>
    p_con p 1 = Some c \<and> pRes c = 0 \<and> p_res p 2 = Some r \<and> pdc r = Some 1"
  by (simp_all add: two0_def ndp_run_def allowed_def
      NdpPluginLoad_def NdpMountResource_def NdpCreateConnection_def ENTER_def Let_def
      smbwrp_init_def p_malloc_def malloc_def dcmem0_def initResource_def init_names_def string_property_def
      put_string_def init_password_def init_numbers_def ulong_property_def dircache_create_def dcCreate_def
      dcEnable_def upd_dc_def checkMountResource_def smbwrp_connect_def connect_session_def connect_tree_def
      mount_rc_def NT_STATUS_IS_OK_def smbwrp_disconnect_def resource_zero_def server_zero_def upd_srv_def
      LEAVE_def code_state_def err0_def ndp0_simps split: option.split)


text \<open>C6: However many directories a host lists, queries and changes, over any number of resources, the cache
  of a resource never holds more listings than the depth that was configured for it when it was mounted,
  and the count it keeps is the number of the listings it holds.\<close>

theorem caches_within_depth:
  assumes "services_ok S" "NdpPluginLoad S large m w = (rc, p)" "fresh_from m" "mallocs m = []"
    "permitted_run (ndp_run S) (allowed S) calls p"
  shows "\<exists>rcs p'. runs (ndp_run S) calls p = Some (rcs, p') \<and>
    (\<forall>x r. p_res p' x = Some r \<longrightarrow>
       (\<exists>a d v P. pdc r = Some a \<and> dcs (p_mem p') a = Some d \<and> represents (p_mem p') a v P \<and>
          cMaxEntries d = cachedepth r \<and> cEntries d = int (length (v_list v)) \<and> cEntries d \<le> cachedepth r))"
proof -
  from guarded.runs_defined [OF _ assms(5)] assms(1) orderly_loaded [OF assms(2-4)] obtain rcs p' where
    run: "runs (ndp_run S) calls p = Some (rcs, p')" "orderly p'" by blast
  have "\<exists>a d v P. pdc r = Some a \<and> dcs (p_mem p') a = Some d \<and> represents (p_mem p') a v P \<and>
      cMaxEntries d = cachedepth r \<and> cEntries d = int (length (v_list v)) \<and> cEntries d \<le> cachedepth r"
    if x: "p_res p' x = Some r" for x r
  proof -
    from run(2) x obtain a v P where v: "pdc r = Some a" "represents (p_mem p') a v P" "v_max v = cachedepth r" "in_depth v"
      unfolding orderly_def usable_def by blast
    from v(2) obtain as where "represents_at (p_mem p') a as v P" by (auto simp: represents_def)
    from represents_at_dc [OF this] v show ?thesis by (fastforce simp: in_depth_def)
  qed
  with run(1) show ?thesis by blast
qed

theorem caches_within_depth_witness:
  "\<exists>p r d. runs (ndp_run ndp0) two0 (snd (NdpPluginLoad ndp0 True dcmem0 [])) = Some ([0, 0, 0], p) \<and>
     p_res p 2 = Some r \<and> dcs (p_mem p) 1 = Some d \<and> cMaxEntries d = cachedepth r \<and> cEntries d \<le> cachedepth r"
proof -
  obtain p c r where run: "runs (ndp_run ndp0) two0 (snd (NdpPluginLoad ndp0 True dcmem0 [])) = Some ([0, 0, 0], p)"
    and r: "p_res p 2 = Some r" "pdc r = Some 1" using two0_run by blast
  from caches_within_depth [OF services0 loaded0 fresh0 two0_permitted] run have
    "\<forall>x r. p_res p x = Some r \<longrightarrow> (\<exists>a d. pdc r = Some a \<and> dcs (p_mem p) a = Some d \<and>
      cMaxEntries d = cachedepth r \<and> cEntries d \<le> cachedepth r)" by fastforce
  with r obtain d where "dcs (p_mem p) 1 = Some d" "cMaxEntries d = cachedepth r" "cEntries d \<le> cachedepth r"
    by fastforce
  with run r(1) show ?thesis by blast
qed

end
