(* ===== verification/Plugin_Session.thy ===== *)
theory Plugin_Session
  imports Plugin_Global
begin

text \<open>
  A search followed by a query: the parser, the connection, the listing over the network, the directory
  cache and the lookup work together, so that NetDrive gets the entries of a directory it has just
  searched without asking the server again.
\<close>

subsection \<open>The search of a directory\<close>

text \<open>The path of the request and the file of the query.\<close>

definition below :: "string \<Rightarrow> string \<Rightarrow> string" where
  "below dir name = dir @ backslash # name"

lemma find_dir_star:
  assumes "dir \<noteq> []" "length dir < 200"
  shows "find_dir (Some (1, ''*'')) (below dir ''*'') = Some (''*'', dir)"
  using assms by (simp add: find_dir_def below_def require_def butlast_append)

lemma find_state_star:
  assumes "last dir \<noteq> backslash" "length dir < 200"
  shows "find_state dir ''*'' = Some (dir @ [backslash], below dir ''*'')"
proof -
  have "getlastslash (Some (dir @ backslash # ''*'')) = Some (length dir)"
    by (rule getlastslash_split) (simp_all add: is_slash_def)
  with assms show ?thesis by (simp add: find_state_def below_def Let_def require_def)
qed

lemma dir_path_star: "dcCreateDirPath (below dir ''*'') ''*'' = Some dir"
  by (simp add: dcCreateDirPath_def below_def Let_def)

lemma first_found:
  assumes "listed_first S m a dir t infos" "strrchr_ok S" "strchr_ok S" "backslash \<notin> set name"
    "set (below dir name) \<inter> {CHR ''*'', CHR ''?''} = {}" "List.find (\<lambda>i. fsphStrICmp S (fi_fname i) name = 0) infos = Some i"
  shows "\<exists>m'. dircache_find_path S t' m (Some a) (below dir name) = Some (Some (i, t' - t), m')"
proof -
  from assms(1) obtain v P l ls where l: "represents m a v P" "v_list v = l # ls" "s_matches S dir l" "l_time l = t"
    "l_infos l = infos" unfolding listed_first_def by blast
  have "fsphStrRChr S (below dir name) backslash = Some (length dir)"
    using strrchr_split [OF assms(2,4)] by (simp add: below_def)
  moreover have "fsphStrChr S (below dir name) CHR ''*'' = None" "fsphStrChr S (below dir name) CHR ''?'' = None"
    using assms(3,5) by (auto intro: strchr_none)
  ultimately have "s_find_path S t' v (below dir name) = Some (i, t' - t)"
    using l assms(6) by (simp add: s_find_path_def parent_of_def) (simp add: below_def)
  with find_path_rep [OF l(1), of S t' "below dir name"] show ?thesis by auto
qed

text \<open>The state in which the search begins.\<close>

definition ready_to_search ::
  "('w, 'x) ndp_scheme \<Rightarrow> u32 \<Rightarrow> 'w plugin \<Rightarrow> nat \<Rightarrow> Connection \<Rightarrow> Resource \<Rightarrow> nat \<Rightarrow> string \<Rightarrow> bool" where
  "ready_to_search S t p h c r k dir \<longleftrightarrow> mutex_free S p \<and> conn_of p h = Some (c, r) \<and> rootlevel r \<ge> 3 \<and>
     server_name (srv r) \<noteq> [] \<and> \<not> not_a_share (srv r) \<and> cli c = Some k \<and> mallocs (p_mem p) = [] \<and>
     fsphNameElem S (p_world p) = Some (1, ''*'') \<and>
     (\<exists>a v P. pdc r = Some a \<and> represents (p_mem p) a v P \<and> v_enabled v \<noteq> 0 \<and> v_max v > 0 \<and> v_exp v > 0 \<and>
        fst (s_list_files S t v dir) = None)"

lemma search_lists:
  assumes "ready_to_search S t p h c r k dir" "strchr_ok S" "os2_codes (err S)" "icmp_refl S"
    "dir \<noteq> []" "hd dir = backslash" "last dir \<noteq> backslash" "CHR ''A'' \<notin> set dir" "length dir < 200"
    "smbwrp_echo S (Some k) (p_world p) = (0, w)" "has_listing S k (below dir ''*'') infos w w'"
  shows "\<exists>plist' p' a. NdpFindStart S t p h junk junkcount plist (below dir ''*'') attr = Some (0, plist', p') \<and>
    p_world p' = w' \<and> mutex_free S p' \<and> conn_of p' h = Some (c, r) \<and> pdc r = Some a \<and>
    listed_first S (p_mem p') a dir t infos"
proof -
  from assms(1) obtain a v P where st: "mutex_free S p" "conn_of p h = Some (c, r)" "rootlevel r \<ge> 3"
    "server_name (srv r) \<noteq> []" "\<not> not_a_share (srv r)" "cli c = Some k" "mallocs (p_mem p) = []"
    "fsphNameElem S (p_world p) = Some (1, ''*'')" "pdc r = Some a" "represents (p_mem p) a v P" "v_enabled v \<noteq> 0"
    "v_max v > 0" "v_exp v > 0" "fst (s_list_files S t v dir) = None" unfolding ready_to_search_def by blast
  let ?q = "p\<lparr>p_mutex := Suc (p_mutex p)\<rparr>"
  from st(2) have c: "p_con p h = Some c" "p_res p (pRes c) = Some r" by (simp_all add: conn_of_Some)
  then have same: "(p_res p)(pRes c \<mapsto> r) = p_res p" "(p_con p)(h \<mapsto> c) = p_con p" by auto
  have "pathparser S r c dir (p_world ?q) = Some (err S NO_ERROR, dir, r, c, p_world ?q)"
    using pathparser_share [OF assms(2) st(3) assms(8)] assms(5,6,9) by simp
  then have parse: "parse_path S ?q h dir = Some (0, dir, ?q)"
    using st(2) same assms(3) by (simp add: parse_path_def)
  have echo: "echo_on S ?q h = Some (0, ?q\<lparr>p_world := w\<rparr>)"
    using c assms(10) st(6) by (simp add: echo_on_def on_cli_def)
  let ?st = "\<lparr>fs_mask = below dir ''*'', fs_dir = dir @ [backslash], fs_dir_mask = ''*'', fs_finfo = junk,
    fs_share = share_name (srv r), fs_pdc = pdc r, fs_plist = plist, fs_ulAttribute = attr, fs_fullpath = below dir ''*''\<rparr>"
  have "length (fs_dir ?st) < 260" using assms(9) by simp
  from dir_adds_defined [OF this] obtain st' where st': "dir_adds S infos ?st = Some st'" by blast
  have listing: "has_listing S k (fs_mask ?st) infos w w'" using assms(11) by simp
  have path: "dcCreateDirPath (fs_fullpath ?st) (fs_dir_mask ?st) = Some dir" by (simp add: dir_path_star)
  have alive: "t - t < v_exp v" using st(13) by simp
  have cache: "fs_pdc ?st = Some a" using st(9) by simp
  from list_files_fetches [OF listing cache st(10,7,11,12) assms(4) path st(14) st' alive, of junkcount] obtain n m1 where
    l: "list_files S t junkcount k (below dir ''*'') listing_attr ?st (p_mem p) w = Some (n, st', m1, w')" "0 \<le> n"
    "listed_first S m1 a dir t infos" by auto
  have "below dir ''*'' \<noteq> []" by (simp add: below_def)
  with l st(4-6) have "smbwrp_filelist S t junkcount (srv r) (cli c) ?st (p_mem p) w = Some (0, st', m1, w')"
    by (simp add: smbwrp_filelist_def listing_attr_def)
  then have filelist: "filelist_on S t junkcount (?q\<lparr>p_world := w\<rparr>) h (?st\<lparr>fs_share := [], fs_pdc := None\<rparr>) =
      Some (0, st', ?q\<lparr>p_mem := m1, p_world := w'\<rparr>)"
    using st(2) by (simp add: filelist_on_def)
  have code: "err S ERROR_REM_NOT_LIST \<noteq> 0" using assms(3) by simp
  let ?p = "LEAVE (?q\<lparr>p_mem := m1, p_world := w'\<rparr>)"
  have "NdpFindStart S t p h junk junkcount plist (below dir ''*'') attr = Some (0, fs_plist st', ?p)"
    using st(1,8) parse echo filelist code find_dir_star [OF assms(5,9)] find_state_star [OF assms(7,9)]
    by (simp add: NdpFindStart_def ENTER_def mutex_free_def find_body_def Let_def leave_unless_def)
  moreover have "p_world ?p = w'" "mutex_free S ?p" "conn_of ?p h = Some (c, r)" "p_mem ?p = m1"
    using st(1,2) by (simp_all add: LEAVE_def mutex_free_def conn_of_def)
  ultimately show ?thesis using l(3) st(9) by metis
qed

subsection \<open>Theorem\<close>

definition plugin3 :: "nat list plugin" where
  "plugin3 = plugin0\<lparr>p_res := [0 \<mapsto> (resource0 3)\<lparr>pdc := Some 0, srv := server0\<lparr>share_name := ''sh''\<rparr>\<rparr>], p_world := [7]\<rparr>"

definition dir3 :: string where
  "dir3 = backslash # ''d''"

lemma dir_laws: "strchr_ok ndp_dir" "strrchr_ok ndp_dir" "os2_codes (err ndp_dir)" "icmp_refl ndp_dir"
  using ndp0_ok helpers0_ok(3) icmp_refl_dir by (simp_all add: ndp_dir_def strchr_ok_def strrchr_ok_def ndp0_simps helpers0_def)

lemma ready3: "ready_to_search ndp_dir 3 plugin3 5 connection0
    ((resource0 3)\<lparr>pdc := Some 0, srv := server0\<lparr>share_name := ''sh''\<rparr>\<rparr>) 1 dir3"
proof -
  have "fst (s_list_files ndp_dir 3 (view0 9 2) dir3) = None"
    by (simp add: s_list_files_def s_read_def view0_def s_lock_def split_beta)
  moreover have "represents (p_mem plugin3) 0 (view0 9 2) Map.empty" "mallocs (p_mem plugin3) = []"
    using cache0_rep [of 9 2] cache0_mallocs [of 9 2] by (simp_all add: plugin3_def plugin0_def)
  moreover have "v_enabled (view0 9 2) \<noteq> 0" "v_max (view0 9 2) > 0" "v_exp (view0 9 2) > 0" by (simp_all add: view0_def)
  moreover have "mutex_free ndp_dir plugin3" by (simp add: mutex_free_def ndp_dir_def ndp0_simps err0_def)
  ultimately show ?thesis
    unfolding ready_to_search_def
    by (auto simp: plugin3_def plugin0_def conn_of_def connection0_def resource0_def server0_def not_a_share_def
        icmp0_def ascii_upper_def byte_of_def char_of_byte_def ndp_dir_def)
qed

lemma echo3: "smbwrp_echo ndp_dir (Some 1) (p_world plugin3) = (0, [7])"
  by (simp add: smbwrp_echo_def ndp_dir_def ndp0_simps plugin3_def NT_STATUS_IS_OK_def)



end
