(* ===== verification/Debug_Log.thy ===== *)
theory Debug_Log
  imports Ndp_Prelude
begin

text \<open>
  The log of the plugin (\<open>debug.c\<close>) and the choice of the log file of Samba (\<open>smbwrp_Logging\<close> of
  \<open>smbwrp.c\<close>). The environment, the semaphores of OS/2 and the clock are parameters; the state has
  the static variables of the module, the contents of the files and the standard output, which is
  \<^term>\<open>None\<close> once it is closed. Writing to a closed stream is undefined.
\<close>

subsection \<open>C library\<close>

text \<open>\<open>strncat\<close> on an array of a given size needs room for the characters and the NUL.\<close>

definition strncat :: "nat \<Rightarrow> string \<Rightarrow> string \<Rightarrow> nat \<Rightarrow> string option" where
  "strncat sz dst src n =
     (let s = dst @ take n src in if length s < sz then Some s else None)"

lemma strncat_fits [simp]: "length d + n < sz \<Longrightarrow> strncat sz d s n = Some (d @ take n s)"
  by (auto simp: strncat_def Let_def)

text \<open>The conversion \<open>%d\<close>.\<close>

definition digit :: "nat \<Rightarrow> char" where
  "digit n = char_of (48 + n)"

fun dec_nat :: "nat \<Rightarrow> string" where
  "dec_nat n = (if n < 10 then [digit n] else dec_nat (n div 10) @ [digit (n mod 10)])"

declare dec_nat.simps [simp del]

definition dec :: "int \<Rightarrow> string" where
  "dec i = (if i < 0 then CHR ''-'' # dec_nat (nat (- i)) else dec_nat (nat i))"

definition dec2 :: "int \<Rightarrow> string" where
  "dec2 i = (if 0 \<le> i \<and> i < 10 then CHR ''0'' # dec i else dec i)"

abbreviation newline :: string where
  "newline \<equiv> [CHR 0x0A]"

record c_library =
  MAX_PATH :: nat
  getenv :: "string \<Rightarrow> string option"
  stat_found :: "string \<Rightarrow> bool"
  DosCreateMutexSem :: "string \<Rightarrow> int \<times> nat"
  DosOpenMutexSem :: "string \<Rightarrow> int \<times> nat"
  DUPLICATE_NAME :: int
  samba_version_string :: string

subsection \<open>State\<close>

text \<open>The handle 0 is \<open>NULLHANDLE\<close>. A semaphore that is open
  has the number of requests not released; requests of a closed one fail, and the code ignores that.\<close>

record debug_state =
  do_logging :: bool
  firstLogLine :: bool
  log_name :: string
  debug_name :: string
  logMutex :: nat
  sem_open :: bool
  log_requests :: nat
  log_files :: "string \<Rightarrow> string"
  log_stdout :: "string option"

definition debuglvl :: "int \<Rightarrow> int" where
  "debuglvl level = (if level \<le> 9 then 1 else 0)"

definition writeLog :: "debug_state \<Rightarrow> bool" where
  "writeLog d = do_logging d"

text \<open>
  The log is on when the file \<open>ndpsmb.dbg\<close> is found in the root of the drive of \<open>ETC\<close>; the log file
  is in the directory \<open>LOGFILES\<close>, or in the current one.
\<close>

definition debugfile_name :: "c_library \<Rightarrow> string option" where
  "debugfile_name L =
     (let sz = MAX_PATH L + 1 in
      do { etc \<leftarrow> getenv L ''ETC'';
           f \<leftarrow> strncat sz [] etc 2;
           f \<leftarrow> strncat sz f [backslash] (sz - length f - 1);
           strncat sz f ''ndpsmb.dbg'' (sz - length f - 1) })"

definition logfile_name :: "c_library \<Rightarrow> string \<Rightarrow> string option" where
  "logfile_name L logfilename =
     (let sz = MAX_PATH L + 1 in
      case getenv L ''LOGFILES'' of
        Some env \<Rightarrow> do { l \<leftarrow> strncat sz [] env (sz - 1);
                        l \<leftarrow> strncat sz l [backslash] (sz - length l - 1);
                        strncat sz l logfilename (sz - length l - 1) }
      | None \<Rightarrow> strncat sz [] logfilename (sz - 1))"

definition nameMutex :: string where
  "nameMutex = backslash # ''SEM32'' @ backslash # ''NDPSMB''"

definition debugInit :: "c_library \<Rightarrow> debug_state \<Rightarrow> debug_state option" where
  "debugInit L d =
     (let d = d\<lparr>log_name := [], debug_name := [], do_logging := False, firstLogLine := True, logMutex := 0\<rparr>
      in do {
        f \<leftarrow> debugfile_name L;
        let d = d\<lparr>debug_name := f\<rparr>;
        if \<not> stat_found L f then Some d
        else do {
          l \<leftarrow> logfile_name L ''log.ndpsmb'';
          let (rc, h) = DosCreateMutexSem L nameMutex;
          let (rc, h) = (if rc = DUPLICATE_NAME L then DosOpenMutexSem L nameMutex else (rc, h));
          Some (d\<lparr>log_name := l, do_logging := True, logMutex := h, sem_open := h \<noteq> 0\<rparr>) } })"

text \<open>The plugin closes the semaphore at its end and keeps the handle.\<close>

definition debugDelete :: "debug_state \<Rightarrow> debug_state" where
  "debugDelete d = d\<lparr>sem_open := False\<rparr>"

subsection \<open>Writing\<close>

datatype log_stream = Log_file string | Log_stdout

fun fputs :: "log_stream \<Rightarrow> string \<Rightarrow> debug_state \<Rightarrow> debug_state option" where
  "fputs (Log_file f) s d = Some (d\<lparr>log_files := (log_files d)(f := log_files d f @ s)\<rparr>)"
| "fputs Log_stdout s d = map_option (\<lambda>out. d\<lparr>log_stdout := Some (out @ s)\<rparr>) (log_stdout d)"

fun fclose :: "log_stream \<Rightarrow> debug_state \<Rightarrow> debug_state option" where
  "fclose (Log_file f) d = Some d"
| "fclose Log_stdout d = map_option (\<lambda>out. d\<lparr>log_stdout := None\<rparr>) (log_stdout d)"

text \<open>
  A line: the time to the second as \<open>strftime\<close> formats it, the hundredths, the level, the thread and
  the text \<open>vfprintf\<close> makes of the arguments. \<open>opens\<close> tells whether \<open>fopen\<close> succeeds.
\<close>

record log_call =
  opens :: bool
  stamp :: string
  hundredths :: int
  thread :: int
  level :: int
  message :: string

definition log_header :: "c_library \<Rightarrow> string" where
  "log_header L =
     ''Samba client '' @ ''3.7.3'' @ '' build '' @ ''20250920'' @ '' based on '' @ samba_version_string L @ newline @
     ''This build is maintained by '' @ ''netlabs'' @ newline"

definition log_line :: "log_call \<Rightarrow> string" where
  "log_line c =
     stamp c @ ''.'' @ dec2 (hundredths c) @ '': '' @ dec (level c) @ '' '' @ dec (thread c) @ '': '' @ message c"

text \<open>
  The test before the \<open>fclose\<close> is a test of an array, so it is always true: without a name of a log
  file the standard output would be closed.
\<close>

definition debuglocal :: "c_library \<Rightarrow> log_call \<Rightarrow> debug_state \<Rightarrow> debug_state option" where
  "debuglocal L c d =
     (if \<not> do_logging d then Some d
      else
        let d = (if logMutex d \<noteq> 0 \<and> sem_open d then d\<lparr>log_requests := log_requests d + 1\<rparr> else d)
        in do {
          d \<leftarrow> (if log_name d \<noteq> [] \<and> \<not> opens c then Some d
               else let f = (if log_name d \<noteq> [] then Log_file (log_name d) else Log_stdout) in
                 do { d \<leftarrow> (if firstLogLine d
                          then do { d \<leftarrow> fputs f (log_header L) d; Some (d\<lparr>firstLogLine := False\<rparr>) }
                          else Some d);
                      d \<leftarrow> fputs f (log_line c) d;
                      fclose f d });
          Some (if logMutex d \<noteq> 0 \<and> sem_open d then d\<lparr>log_requests := log_requests d - 1\<rparr> else d) })"

fun debuglocals :: "c_library \<Rightarrow> log_call list \<Rightarrow> debug_state \<Rightarrow> debug_state option" where
  "debuglocals L [] d = Some d"
| "debuglocals L (c # cs) d = do { d \<leftarrow> debuglocal L c d; debuglocals L cs d }"

subsection \<open>The log file of Samba\<close>

definition smbwrp_Logging :: "c_library \<Rightarrow> string option" where
  "smbwrp_Logging L =
     (let sz = MAX_PATH L + 1 in
      case getenv L ''LOGFILES'' of
        Some env \<Rightarrow> do { let l = strncpy_z (sz - 1) env;
                        l \<leftarrow> strncat sz l [backslash] (sz - length l - 1);
                        strncat sz l ''log.smbc'' (sz - length l - 1) }
      | None \<Rightarrow> Some (strncpy_z (sz - 1) ''log.smbc''))"

subsection \<open>Lemmas\<close>

lemma debugfile_name_returns:
  "getenv L ''ETC'' \<noteq> None \<Longrightarrow> 2 \<le> MAX_PATH L \<Longrightarrow> \<exists>f. debugfile_name L = Some f \<and> length f \<le> MAX_PATH L"
  by (auto simp: debugfile_name_def Let_def min_def)

lemma logfile_name_returns:
  "0 < MAX_PATH L \<Longrightarrow> name \<noteq> [] \<Longrightarrow> \<exists>l. logfile_name L name = Some l \<and> length l \<le> MAX_PATH L \<and> l \<noteq> []"
  by (auto simp: logfile_name_def Let_def min_def split: option.split)

lemma smbwrp_Logging_name: "smbwrp_Logging L = logfile_name L ''log.smbc''"
  by (auto simp: smbwrp_Logging_def logfile_name_def Let_def strncpy_z_def split: option.split)

lemma debugInit_returns:
  assumes "getenv L ''ETC'' \<noteq> None" "2 \<le> MAX_PATH L"
  obtains d' where "debugInit L d = Some d'" "length (log_name d') \<le> MAX_PATH L"
    "do_logging d' \<longrightarrow> log_name d' \<noteq> []"
    "firstLogLine d'" "log_requests d' = log_requests d" "log_files d' = log_files d" "log_stdout d' = log_stdout d"
proof -
  from debugfile_name_returns [OF assms] obtain f where "debugfile_name L = Some f" by blast
  moreover obtain l where "logfile_name L ''log.ndpsmb'' = Some l" "length l \<le> MAX_PATH L" "l \<noteq> []"
    using logfile_name_returns [of L "''log.ndpsmb''"] assms(2) by auto
  moreover from calculation have "\<exists>d'. debugInit L d = Some d'"
    by (auto simp: debugInit_def Let_def split: prod.split)
  then obtain d' where "debugInit L d = Some d'" by blast
  ultimately show thesis
    by (intro that [of d']) (auto simp: debugInit_def Let_def split: prod.splits if_splits)
qed

text \<open>A call that logs: what it adds to the log file.\<close>

definition logged :: "c_library \<Rightarrow> bool \<Rightarrow> log_call list \<Rightarrow> string" where
  "logged L first cs =
     (let cs = filter opens cs in (if first \<and> cs \<noteq> [] then log_header L else []) @ concat (map log_line cs))"

lemma debuglocal_logs:
  assumes "do_logging d" "log_name d \<noteq> []"
  shows "debuglocal L c d = Some (d\<lparr>log_files := (log_files d)(log_name d :=
           log_files d (log_name d) @ logged L (firstLogLine d) [c]), firstLogLine := firstLogLine d \<and> \<not> opens c\<rparr>)"
  using assms by (cases d) (auto simp: debuglocal_def logged_def Let_def)

lemma debuglocals_log:
  assumes "do_logging d" "log_name d \<noteq> []"
  shows "debuglocals L cs d = Some (d\<lparr>log_files := (log_files d)(log_name d :=
           log_files d (log_name d) @ logged L (firstLogLine d) cs),
           firstLogLine := firstLogLine d \<and> filter opens cs = []\<rparr>)"
  using assms
proof (induction cs arbitrary: d)
  case Nil then show ?case by (cases d) (auto simp: logged_def)
next
  case (Cons c cs)
  then show ?case
    by (cases d) (auto simp: debuglocal_logs logged_def Let_def)
qed

lemma debuglocals_off: "\<not> do_logging d \<Longrightarrow> debuglocals L cs d = Some d"
  by (induction cs) (auto simp: debuglocal_def)


definition library0 :: c_library where
  "library0 = \<lparr>MAX_PATH = 260, getenv = (\<lambda>v. if v = ''ETC'' then Some ''C:ETC'' else None), stat_found = (\<lambda>f. True),
     DosCreateMutexSem = (\<lambda>n. (0, 1)), DosOpenMutexSem = (\<lambda>n. (0, 1)), DUPLICATE_NAME = 285,
     samba_version_string = ''4.11''\<rparr>"

definition log0 :: debug_state where
  "log0 = \<lparr>do_logging = False, firstLogLine = True, log_name = [], debug_name = [], logMutex = 0, sem_open = False, log_requests = 0,
     log_files = (\<lambda>f. []), log_stdout = Some []\<rparr>"


end
