(* ===== verification/Plugin_Misc.thy ===== *)
theory Plugin_Misc
  imports Resource_Ops Debug_Log
begin

text \<open>
  The rest of the interface of the plugin (\<open>ndpsmb.c\<close>): the table of the properties of a resource,
  the entry points without an effect, and \<open>NdpIOCTL\<close>, which writes its parameters as a text.
\<close>

subsection \<open>Properties\<close>

datatype property_type = ND_PROP_STRING | ND_PROP_ULONG

definition NdpTypes :: "string list" where
  "NdpTypes = [''SMBFS'']"

definition smbProperties :: "(property_type \<times> string \<times> string) list" where
  "smbProperties =
     [(ND_PROP_STRING, ''WORKGROUP'', ''''), (ND_PROP_STRING, ''SERVER'', ''''),
      (ND_PROP_STRING, ''SHARE'', ''''), (ND_PROP_STRING, ''USER'', ''guest''),
      (ND_PROP_STRING, ''PASSWORD'', ''''), (ND_PROP_STRING, ''SPASSWORD'', ''''),
      (ND_PROP_STRING, ''MASTER'', ''WORKGROUP''), (ND_PROP_ULONG, ''MASTERTYPE'', ''1''),
      (ND_PROP_ULONG, ''CTO'', ''10''), (ND_PROP_ULONG, ''CLD'', ''32''),
      (ND_PROP_ULONG, ''EASUPPORT'', ''1''), (ND_PROP_ULONG, ''KRB5SUPPORT'', ''0''),
      (ND_PROP_ULONG, ''NTLMv1SUPPORT'', ''0''), (ND_PROP_ULONG, ''ENCRYPTIONSUPPORT'', ''0'')]"

definition declared :: "property_type \<Rightarrow> string list" where
  "declared t = map (fst \<circ> snd) (filter (\<lambda>q. fst q = t) smbProperties)"

subsection \<open>Entry points without an effect\<close>

definition NdpPluginFree :: "('w, 'x) ndp_scheme \<Rightarrow> debug_state \<Rightarrow> int \<times> debug_state" where
  "NdpPluginFree S d = (err S NO_ERROR, debugDelete d)"

definition NdpRsrcUpdate :: "('w, 'x) ndp_scheme \<Rightarrow> nat \<Rightarrow> nat \<Rightarrow> int" where
  "NdpRsrcUpdate S h h2 = err S NO_ERROR"

definition NdpDeletePathInfo :: "('w, 'x) ndp_scheme \<Rightarrow> nat \<Rightarrow> NDFILEINFOL \<Rightarrow> int" where
  "NdpDeletePathInfo S h pfi = err S NO_ERROR"

definition NdpRefresh :: "('w, 'x) ndp_scheme \<Rightarrow> nat \<Rightarrow> string \<Rightarrow> int \<Rightarrow> int" where
  "NdpRefresh S h path tree = err S NO_ERROR"

definition NdpDiscardResourceData :: "('w, 'x) ndp_scheme \<Rightarrow> nat \<Rightarrow> string \<Rightarrow> int" where
  "NdpDiscardResourceData S h data = err S NO_ERROR"

subsection \<open>Control calls\<close>

text \<open>
  The text goes through an array of 4096 characters and back into the buffer of the caller, which is
  used only when it is larger than that. The conversion \<open>%d\<close> shows unsigned numbers as signed ones.
\<close>

definition ND_PL_INIT_THREAD :: u32 where "ND_PL_INIT_THREAD = 0xFFFF0000"

definition ioctl_text :: "u32 \<Rightarrow> string \<Rightarrow> u32 \<Rightarrow> u32 \<Rightarrow> string" where
  "ioctl_text fn parms insize outlen =
     ''SAMBA IOCTL function = '' @ dec (sint fn) @ '', parms ['' @ parms @ ''] insize = '' @
     dec (sint insize) @ '', *poutlen = '' @ dec (sint outlen)"

definition NdpIOCTL ::
  "('w, 'x) ndp_scheme \<Rightarrow> ('w \<Rightarrow> 'w) \<Rightarrow> u32 \<Rightarrow> string option \<Rightarrow> u32 \<Rightarrow> u32 \<Rightarrow> 'w \<Rightarrow>
     (int \<times> string option \<times> u32 \<times> 'w) option" where
  "NdpIOCTL S smbwrp_initthread fn buf insize outlen w =
     (if fn = ND_PL_INIT_THREAD then Some (err S NO_ERROR, buf, outlen, smbwrp_initthread w)
      else case buf of
        Some b \<Rightarrow>
          if insize > 4096
          then do { require (NUL \<in> set b);
                    let out = ioctl_text fn (cstring_of b) insize outlen;
                    require (length out < 4096 \<and> length out < length b);
                    Some (err S NO_ERROR, Some (out @ NUL # drop (length out + 1) b), of_nat (length out), w) }
          else Some (err S ERROR_NOT_SUPPORTED, buf, outlen, w)
      | None \<Rightarrow> Some (err S ERROR_NOT_SUPPORTED, buf, outlen, w))"

lemma length_dec_nat: "n < 10 ^ Suc k \<Longrightarrow> length (dec_nat n) \<le> Suc k"
proof (induction k arbitrary: n)
  case 0 then show ?case by (simp add: dec_nat.simps)
next
  case (Suc k)
  show ?case
  proof (cases "n < 10")
    case True then show ?thesis by (simp add: dec_nat.simps)
  next
    case False
    have "n div 10 < 10 ^ Suc k" using Suc.prems by (simp add: div_less_iff_less_mult mult.commute)
    from Suc.IH [OF this] False show ?thesis by (subst dec_nat.simps) simp
  qed
qed

lemma length_dec: "length (dec (sint (x :: u32))) \<le> 11"
proof -
  have "- (2 ^ 31) \<le> sint x" "sint x < 2 ^ 31"
    using sint_greater_eq [of x] sint_less [of x] by simp_all
  then have "nat (sint x) < 10 ^ Suc 9" "nat (- sint x) < 10 ^ Suc 9" by simp_all
  from this [THEN length_dec_nat] show ?thesis by (auto simp: dec_def)
qed

text \<open>A text of up to 4000 characters is safe; the array has no room for one of 4096.\<close>

lemma ioctl_in_bounds:
  assumes "length (cstring_of b) \<le> 4000" "NUL \<in> set b" "length b = unat insize"
  shows "NdpIOCTL S init fn (Some b) insize outlen w \<noteq> None"
proof -
  have "length (ioctl_text fn (cstring_of b) insize outlen) < 4096"
    using assms(1) length_dec [of fn] length_dec [of insize] length_dec [of outlen] by (simp add: ioctl_text_def)
  moreover have "4096 < insize \<Longrightarrow> 4096 < length b" using assms(3) by (simp add: word_less_nat_alt)
  ultimately show ?thesis using assms(2) by (auto simp: NdpIOCTL_def Let_def)
qed

lemma ioctl_overflow:
  assumes "4096 \<le> length (cstring_of b)" "4096 < insize" "fn \<noteq> ND_PL_INIT_THREAD"
  shows "NdpIOCTL S init fn (Some b) insize outlen w = None"
  using assms by (simp add: NdpIOCTL_def ioctl_text_def)

text \<open>
  Mounting looks at declared properties only, so what NetDrive knows of others does not matter.
\<close>

lemma init_names_declared:
  assumes "\<And>n. n \<in> set (declared ND_PROP_STRING) \<Longrightarrow> q n = fsphQueryStringProperty S n"
  shows "init_names (S\<lparr>fsphQueryStringProperty := q\<rparr>) r w = init_names S r w"
  using assms by (simp add: init_names_def string_property_def declared_def smbProperties_def)

lemma err_query: "err (S\<lparr>fsphQueryUlongProperty := q\<rparr>) = err S"
  by (cases S) simp

lemma ulong_property_declared:
  "q n = fsphQueryUlongProperty S n \<Longrightarrow>
    ulong_property (S\<lparr>fsphQueryUlongProperty := q\<rparr>) n = ulong_property S n"
  by (intro ext) (simp add: ulong_property_def err_query cong: if_cong split: prod.split)

lemma init_numbers_declared:
  assumes "\<And>n. n \<in> set (declared ND_PROP_ULONG) \<Longrightarrow> q n = fsphQueryUlongProperty S n"
  shows "init_numbers (S\<lparr>fsphQueryUlongProperty := q\<rparr>) r w = init_numbers S r w"
  using assms by (simp add: init_numbers_def ulong_property_declared declared_def smbProperties_def)

end
