(* ===== verification/Spec2Isabelle.thy ===== *)
theory Spec2Isabelle
  imports Util Dircache_Theorems Smb_Theorems Ea_Theorems Path_Theorems Plugin_Theorems File_Theorems
    Plugin_Session Plugin_Misc
begin

text \<open>
  A verification development for the Samba client plugin of NetDrive for OS/2 (\<open>src/src\<close>).

  \<^bold>\<open>The program.\<close> NetDrive loads the plugin and calls its entry points \<open>Ndp...\<close> (\<open>ndpsmb.c\<close>) with handles
  of resources (a mounted drive: server, share, user, settings) and of connections (a connection to a
  server with one file). An entry point takes the mutex of the plugin, drops what it is about to change
  from the directory cache of the resource (\<open>dircache.c\<close>), lets \<open>pathparser\<close> split the path into
  workgroup, server, share and the path on the share, which replaces the connection when another
  share is meant, calls one wrapper of the Samba client library (\<open>smbwrp.c\<close>), turns its \<open>errno\<close> into
  an OS/2 code (\<open>util.c\<close>), and releases the mutex. Queries and searches ask the cache first; listings
  fill it. The plugin writes a log (\<open>debug.c\<close>).

  \<^bold>\<open>Modelling.\<close> The code is translated as it is written. Undefined behaviour (NULL or freed memory, an
  access beyond an array, an unset pointer) and a loop that does not end are the value \<^term>\<open>None\<close>;
  an unset number is an argument (\<open>junk\<close>), so that a theorem holds for any. Integers have the width of
  the 32-bit target. C strings are lists of characters without the NUL; the packed lists of attributes
  are bytes at offsets. Heap objects are named by handles, and freeing one unmaps it; the nodes of the
  cache are a memory of addresses with links in both directions. The environment is a state \<open>'w\<close> that
  the services take and return. Log statements are left out, except that one that dereferences NULL
  or an unset pointer is undefined; reads of freed memory in a log line are listed as findings only.

  \<^bold>\<open>Services.\<close> NetDrive's helper table, the Samba library and the time functions of C are not part of the
  repository. They are the fields of the records \<open>helpers\<close> (\<open>Helpers\<close>), \<open>samba\<close> (\<open>Smb_Client\<close>),
  \<open>smbconn\<close> (\<open>Connect\<close>) and \<open>ndp\<close> (\<open>Findinfo\<close>), each extending the one before, so that every
  function takes the services it may call. What a theorem needs of them is a named predicate:
  \<open>strchr_ok\<close>, \<open>strrchr_ok\<close>, \<open>icmp_refl\<close>, \<open>icmp_equiv\<close> (searches and comparisons do what their names say),
  \<open>os2_codes\<close> (only \<open>NO_ERROR\<close> is 0), \<open>conns_ok\<close> (a connection is open from its creation to its
  shut-down), \<open>serves\<close> (the server keeps the bytes of a file), \<open>serves_dir\<close> and \<open>has_listing\<close> (it sends
  a directory in a finite number of well-formed answers), \<open>props_ok\<close> (a property that was set is
  read back), \<open>goes_on\<close> (the value a caller finds where \<open>smbwrp_dir_add\<close> has no \<open>return\<close> does not stop
  the listing), \<open>services_ok\<close> (what mounting and all the calls together need of them: a depth of the cache
  from 1 to 96, mutexes that can be created, properties with a value, a server that \<open>runs_out\<close>), \<open>eas_fit\<close> (the attributes of a file are no more
  than 64 KB). \<open>helpers0\<close>, \<open>samba0\<close>, \<open>smbconn0\<close> and \<open>ndp0\<close> are concrete services that satisfy
  them; the witnesses of the theorems are evaluated there.

  \<^bold>\<open>Theories.\<close>
  \<^item> \<open>Ndp_Prelude\<close>: machine types, C strings and division, \<open>require\<close>, the names of the OS/2 codes, the
    interface \<open>codec\<close> of an encoding and its decoder. \<open>Helpers\<close>: the table of NetDrive.
  \<^item> \<open>Util\<close>: \<open>maperror\<close> and \<open>getlastslash\<close>. \<open>Password\<close>: the encoding of the stored password, an instance
    of \<open>codec\<close>. \<open>Debug_Log\<close>: \<open>debug.c\<close>.
  \<^item> \<open>Dircache\<close>: every function of \<open>dircache.c\<close> on the heap. \<open>Dircache_List\<close> refines the links to a list of
    addresses, \<open>Dircache_Spec\<close> gives the specification (a bounded list of listings, newest first),
    \<open>Dircache_Ops\<close> the refinement of each operation, \<open>Dircache_Theorems\<close> the simulation of the whole
    interface, safety of every sequence of calls and, in the locale \<open>listing_cache\<close> interpreted on the
    model, the transparency of the cache to a reader.
  \<^item> \<open>Smb_Client\<close>, \<open>Smb_Theorems\<close>: the wrappers over files, attributes, directories and disk sizes; reads
    and writes against a server that keeps a file. \<open>Ea_List\<close>, \<open>Ea_Theorems\<close>: the packed lists, an
    instance of \<open>codec\<close>, the walks over them and what they compute. \<open>Ea_Safety\<close>: when the walks stay in
    their buffers.
  \<^item> \<open>Connect\<close>: \<open>smbwrp_connect\<close> and the test at mount time. \<open>Path_Parser\<close>, \<open>Path_Theorems\<close>: \<open>pathparser\<close>, its
    bounds, and the replacement of the connection as a whole or not at all.
  \<^item> \<open>Findinfo\<close>: dates and entries of a result list. \<open>Listing\<close>, \<open>Listing_Theorems\<close>: listings over SMB 1 and
    SMB 2 through the cache; a listing ends, and a second one is the same without the server.
    \<open>Listing_Termination\<close>: every listing returns, on the error paths too, and leaves the cache well formed.
  \<^item> \<open>Plugin\<close> (paths), \<open>Plugin_File\<close>, \<open>Plugin_Ea\<close>, \<open>Plugin_Query\<close>, \<open>Resource_Ops\<close>, \<open>Plugin_Misc\<close>: the
    entry points by group, on the state \<open>plugin\<close> (mutex, resources, connections, memory of the caches,
    environment).
  \<^item> \<open>Plugin_Calls\<close>: what every entry point keeps. \<open>Plugin_Machine\<close>: the entry points as the calls of one
    machine and the locale \<open>serialized_calls\<close>, interpreted on it. \<open>Plugin_Cache\<close>: which listings a call
    drops. \<open>Plugin_Returns\<close>: the calls on a path or a file return and stay with their connection
    (\<open>confined\<close>). \<open>Plugin_Theorems\<close>, \<open>File_Theorems\<close>: what follows for the host.
  \<^item> \<open>Plugin_Safety\<close>: the same for searches and the other calls on a connection. \<open>Plugin_Global\<close>: the
    invariant \<open>orderly\<close> over all resources, connections and caches, mounting and freeing, and the locale
    \<open>guarded_calls\<close> (which extends \<open>serialized_calls\<close>) interpreted on the machine: no call that keeps
    the rules of \<open>allowed\<close> is undefined. \<open>Plugin_Session\<close>: a search and the queries after it.

  \<^bold>\<open>What is shown.\<close> Memory safety and functional correctness of the cache by refinement, and its use by
  the plugin: every change drops exactly the listings it makes stale (and \<open>NdpSetFileAttribute\<close>, which
  does not), a query is answered from the cache, a listing is repeated from it. Every state reached
  from the loaded plugin is well formed; no sequence of calls is undefined that uses live handles, paths of
  less than 256 characters (240 for a search), lists of attributes whose walk ends (\<open>settable\<close>, which is
  just what the loop needs, \<open>ea_walk_exact\<close>) and buffers as long as they say, over any number of resources
  and connections; a call changes nothing of other connections, resources and caches
  (\<open>apart\<close>, \<open>confined\<close>), and no cache grows beyond its depth; the mutex is released by all calls but queries and searches that fail. After a
  search the names of the directory are answered from the cache. Files are read
  and written in sequence, handles are cleared at the close. Attribute lists are copied completely or
  refused with the room they need. Stored passwords, dates and attribute lists survive the round trip.
  The theorems on defects (a depth of 0, hashes that distinguish case, attributes set beyond the end
  of a list, connections and the mutex lost by a reconnection, a descriptor 0 opened over) state
  what the code does where it does not do what it means to.

  \<^bold>\<open>Bounds and termination.\<close> Structural recursion and \<open>function\<close> with a measure are used where the code
  walks a finite list or buffer. The walks along the links of the cache, the search for the test path
  in \<open>iftestpath\<close> and the answers of an SMB 2 server (\<open>smb2_answers\<close>) may go on for ever and are
  \<open>partial_function (option)\<close>; that they return is proved for well-formed caches, for paths under
  \<open>strchr_ok\<close>, and for servers that run out of answers (\<open>runs_out\<close>, a measure on the environment; without it
  a listing does go on for ever). No fuel is used. The array of \<open>pathparser\<close>
  has 256 characters, those for names of files 260 and a NUL; the limits are hypotheses of the
  theorems, not of the definitions.

  \<^bold>\<open>Not modelled.\<close> The disabled code (\<open>clean_fname\<close> and other branches under \<open>#if 0\<close>), the comments and
  declarations of the headers of NetDrive (\<open>h/\<close>, \<open>rc/\<close>), the start-up of Samba beyond \<open>smbwrp_init\<close>,
  which is one parameter, and \<open>smbwrp_getVersion\<close> and \<open>smbwrp_getclisize\<close>, which only call it. Threads
  are modelled by the order of the calls the mutex gives them.
\<close>

end
